(* ===== verification/Prelude.thy ===== *)
theory Prelude
  imports Main
begin

text \<open>
  Shared foundations of the development.

  \<^item> \<open>outcome\<close>: what a Go call can do: return a value, return an error, or panic.
  \<^item> \<open>eff\<close>: a computation that also changes a state (the cluster and the trace of the
    requests sent to it). \<open>bind\<close>, \<open>attempt\<close>, \<open>lift\<close> are the ways the code composes
    calls: \<open>bind\<close> is the ``\<open>if err != nil { return err }\<close>'' idiom, \<open>attempt\<close> looks at
    the error.
  \<^item> the locale \<open>effect_relation\<close>: a reflexive and transitive relation between the states
    before and after a computation is kept by every composition.
  \<^item> generic facts on lists and maps that several components use.
\<close>

section \<open>Collections of facts\<close>

named_theorems eff_simps \<open>evaluation of effectful computations\<close>
named_theorems eff_intros \<open>composition rules of effect relations\<close>

section \<open>Outcomes of a Go call\<close>

datatype ('e, 'a) outcome = Val 'a | Fail 'e | Panics string

fun obind :: "('e, 'a) outcome \<Rightarrow> ('a \<Rightarrow> ('e, 'b) outcome) \<Rightarrow> ('e, 'b) outcome" where
  "obind (Val x) f = f x"
| "obind (Fail e) f = Fail e"
| "obind (Panics p) f = Panics p"

fun owrap :: "('e \<Rightarrow> 'e) \<Rightarrow> ('e, 'a) outcome \<Rightarrow> ('e, 'a) outcome" where
  "owrap w (Val x) = Val x"
| "owrap w (Fail e) = Fail (w e)"
| "owrap w (Panics p) = Panics p"

fun is_panic :: "('e, 'a) outcome \<Rightarrow> bool" where
  "is_panic (Panics p) = True"
| "is_panic _ = False"

lemma obind_eq_Val: "obind m f = Val y \<longleftrightarrow> (\<exists>x. m = Val x \<and> f x = Val y)"
  by (cases m) auto

lemma owrap_eq_Val [simp]: "owrap w m = Val y \<longleftrightarrow> m = Val y"
  by (cases m) auto

section \<open>Effectful computations\<close>

type_synonym ('s, 'e, 'a) eff = "'s \<Rightarrow> ('e, 'a) outcome \<times> 's"

definition ret :: "'a \<Rightarrow> ('s, 'e, 'a) eff" where
  "ret x s = (Val x, s)"

definition fail :: "'e \<Rightarrow> ('s, 'e, 'a) eff" where
  "fail e s = (Fail e, s)"

definition panic :: "string \<Rightarrow> ('s, 'e, 'a) eff" where
  "panic p s = (Panics p, s)"

definition lift :: "('e, 'a) outcome \<Rightarrow> ('s, 'e, 'a) eff" where
  "lift m s = (m, s)"

definition gets :: "('s \<Rightarrow> 'a) \<Rightarrow> ('s, 'e, 'a) eff" where
  "gets f s = (Val (f s), s)"

definition modify :: "('s \<Rightarrow> 's) \<Rightarrow> ('s, 'e, unit) eff" where
  "modify f s = (Val (), f s)"

definition bind :: "('s, 'e, 'a) eff \<Rightarrow> ('a \<Rightarrow> ('s, 'e, 'b) eff) \<Rightarrow> ('s, 'e, 'b) eff" where
  "bind m f s = (case m s of
       (Val x, s') \<Rightarrow> f x s'
     | (Fail e, s') \<Rightarrow> (Fail e, s')
     | (Panics p, s') \<Rightarrow> (Panics p, s'))"

definition attempt ::
  "('s, 'e, 'a) eff \<Rightarrow> ('e \<Rightarrow> ('s, 'e, 'b) eff) \<Rightarrow> ('a \<Rightarrow> ('s, 'e, 'b) eff) \<Rightarrow> ('s, 'e, 'b) eff"
where
  "attempt m h f s = (case m s of
       (Val x, s') \<Rightarrow> f x s'
     | (Fail e, s') \<Rightarrow> h e s'
     | (Panics p, s') \<Rightarrow> (Panics p, s'))"

definition wrap_err :: "('e \<Rightarrow> 'e) \<Rightarrow> ('s, 'e, 'a) eff \<Rightarrow> ('s, 'e, 'a) eff" where
  "wrap_err w m s = (case m s of (r, s') \<Rightarrow> (owrap w r, s'))"

lemmas [eff_simps] = ret_def fail_def panic_def lift_def gets_def modify_def bind_def attempt_def wrap_err_def

lemma bind_Val: "m s = (Val x, s') \<Longrightarrow> bind m f s = f x s'"
  by (simp add: bind_def)

lemma bind_Fail: "m s = (Fail e, s') \<Longrightarrow> bind m f s = (Fail e, s')"
  by (simp add: bind_def)

lemma bind_Panics: "m s = (Panics p, s') \<Longrightarrow> bind m f s = (Panics p, s')"
  by (simp add: bind_def)

lemma bind_lift_Val [simp]: "bind (lift (Val x)) f = f x"
  by (simp add: fun_eq_iff eff_simps)

lemma bind_ret [simp]: "bind (ret x) f = f x"
  by (simp add: fun_eq_iff eff_simps)

lemma wrap_err_Val [simp]: "wrap_err w m s = (Val x, s') \<longleftrightarrow> m s = (Val x, s')"
  by (auto simp: wrap_err_def split: prod.splits)

lemma bind_eq_Val:
  "bind m f s = (Val y, s'') \<longleftrightarrow> (\<exists>x s'. m s = (Val x, s') \<and> f x s' = (Val y, s''))"
  by (auto simp: bind_def split: prod.splits outcome.splits)

section \<open>Relations between the states before and after\<close>

locale effect_relation =
  fixes R :: "'s \<Rightarrow> 's \<Rightarrow> bool"
  assumes R_refl: "R s s"
    and R_trans: "R s t \<Longrightarrow> R t u \<Longrightarrow> R s u"
begin

definition keeps :: "('s, 'e, 'a) eff \<Rightarrow> bool" where
  "keeps m \<longleftrightarrow> (\<forall>s. R s (snd (m s)))"

lemma keepsD: "keeps m \<Longrightarrow> m s = (r, s') \<Longrightarrow> R s s'"
  unfolding keeps_def by (metis snd_conv)

lemma keepsI: "(\<And>s r s'. m s = (r, s') \<Longrightarrow> R s s') \<Longrightarrow> keeps m"
  unfolding keeps_def by (metis prod.collapse)

lemma keeps_ret: "keeps (ret x)"
  by (simp add: keeps_def ret_def R_refl)

lemma keeps_fail: "keeps (fail e)"
  by (simp add: keeps_def fail_def R_refl)

lemma keeps_panic: "keeps (panic p)"
  by (simp add: keeps_def panic_def R_refl)

lemma keeps_lift: "keeps (lift m)"
  by (simp add: keeps_def lift_def R_refl)

lemma keeps_wrap_err: "keeps m \<Longrightarrow> keeps (wrap_err w m)"
  by (auto simp: keeps_def wrap_err_def split: prod.splits) (metis snd_conv)

lemma keeps_if: "(b \<Longrightarrow> keeps m) \<Longrightarrow> (\<not> b \<Longrightarrow> keeps n) \<Longrightarrow> keeps (if b then m else n)"
  by simp

lemma keeps_case_option:
  "(x = None \<Longrightarrow> keeps m) \<Longrightarrow> (\<And>y. x = Some y \<Longrightarrow> keeps (f y)) \<Longrightarrow> keeps (case x of None \<Rightarrow> m | Some y \<Rightarrow> f y)"
  by (cases x) auto

lemma keeps_case_sum:
  "(\<And>a. x = Inl a \<Longrightarrow> keeps (g a)) \<Longrightarrow> (\<And>b. x = Inr b \<Longrightarrow> keeps (f b)) \<Longrightarrow>
    keeps (case x of Inl a \<Rightarrow> g a | Inr b \<Rightarrow> f b)"
  by (cases x) auto

lemma keeps_case_prod: "(\<And>a b. x = (a, b) \<Longrightarrow> keeps (f a b)) \<Longrightarrow> keeps (case x of (a, b) \<Rightarrow> f a b)"
  by (cases x) auto

lemma keeps_bind_lift:
  assumes "\<And>x. m = Val x \<Longrightarrow> keeps (f x)"
  shows "keeps (bind (lift m) f)"
proof (cases m)
  case (Val x)
  with assms show ?thesis by simp
qed (simp_all add: keeps_def bind_def lift_def R_refl)

text \<open>The same with the values the first computation can return.\<close>

lemma keeps_bind_run:
  assumes "keeps m" and "\<And>s x s'. m s = (Val x, s') \<Longrightarrow> keeps (f x)"
  shows "keeps (bind m f)"
proof (rule keepsI)
  fix s r s''
  assume run: "bind m f s = (r, s'')"
  obtain q s' where q: "m s = (q, s')" by fastforce
  from assms(1) q have R1: "R s s'" by (rule keepsD)
  show "R s s''"
  proof (cases q)
    case (Val x)
    with run q have "f x s' = (r, s'')" by (simp add: bind_def)
    with assms(2) [of s x s'] q Val have "R s' s''" by (auto dest: keepsD)
    with R1 show ?thesis by (rule R_trans)
  qed (use run q R1 in \<open>auto simp: bind_def\<close>)
qed

lemma keeps_attempt_run:
  assumes "keeps m" and "\<And>e. keeps (h e)" and "\<And>s x s'. m s = (Val x, s') \<Longrightarrow> keeps (f x)"
  shows "keeps (attempt m h f)"
proof (rule keepsI)
  fix s r s''
  assume run: "attempt m h f s = (r, s'')"
  obtain q s' where q: "m s = (q, s')" by fastforce
  from assms(1) q have R1: "R s s'" by (rule keepsD)
  show "R s s''"
  proof (cases q)
    case (Val x)
    with run q have "f x s' = (r, s'')" by (simp add: attempt_def)
    with assms(3) [of s x s'] q Val have "R s' s''" by (auto dest: keepsD)
    with R1 show ?thesis by (rule R_trans)
  next
    case (Fail e)
    with run q have "h e s' = (r, s'')" by (simp add: attempt_def)
    with assms(2) have "R s' s''" by (rule keepsD)
    with R1 show ?thesis by (rule R_trans)
  qed (use run q R1 in \<open>auto simp: attempt_def\<close>)
qed

lemma keeps_bind: "keeps m \<Longrightarrow> (\<And>x. keeps (f x)) \<Longrightarrow> keeps (bind m f)"
  by (rule keeps_bind_run)

lemma keeps_attempt: "keeps m \<Longrightarrow> (\<And>e. keeps (h e)) \<Longrightarrow> (\<And>x. keeps (f x)) \<Longrightarrow> keeps (attempt m h f)"
  by (rule keeps_attempt_run)

lemmas keeps_case = keeps_case_option keeps_case_sum keeps_case_prod

lemmas keeps_rules =
  keeps_ret keeps_fail keeps_panic keeps_lift keeps_bind keeps_attempt keeps_wrap_err keeps_if

end

section \<open>What a computation returns\<close>

definition yields :: "('a \<Rightarrow> bool) \<Rightarrow> ('s, 'e, 'a) eff \<Rightarrow> bool" where
  "yields P m \<longleftrightarrow> (\<forall>s x s'. m s = (Val x, s') \<longrightarrow> P x)"

lemma yieldsI: "(\<And>s x s'. m s = (Val x, s') \<Longrightarrow> P x) \<Longrightarrow> yields P m"
  by (auto simp: yields_def)

lemma yieldsD: "yields P m \<Longrightarrow> m s = (Val x, s') \<Longrightarrow> P x"
  by (auto simp: yields_def)

lemma yields_ret: "P x \<Longrightarrow> yields P (ret x)"
  by (auto simp: yields_def ret_def)

lemma yields_fail: "yields P (fail e)"
  by (auto simp: yields_def fail_def)

lemma yields_panic: "yields P (panic p)"
  by (auto simp: yields_def panic_def)

lemma yields_lift: "(\<And>x. m = Val x \<Longrightarrow> P x) \<Longrightarrow> yields P (lift m)"
  by (auto simp: yields_def lift_def)

lemma yields_bind: "(\<And>x. yields P (f x)) \<Longrightarrow> yields P (bind m f)"
  by (auto simp: yields_def bind_eq_Val)

lemma yields_attempt:
  "(\<And>e. yields P (h e)) \<Longrightarrow> (\<And>x. yields P (f x)) \<Longrightarrow> yields P (attempt m h f)"
  by (fastforce simp: yields_def attempt_def split: prod.splits outcome.splits)

lemma yields_if: "(b \<Longrightarrow> yields P m) \<Longrightarrow> (\<not> b \<Longrightarrow> yields P n) \<Longrightarrow> yields P (if b then m else n)"
  by simp

lemma yields_case_option:
  "(x = None \<Longrightarrow> yields P m) \<Longrightarrow> (\<And>y. x = Some y \<Longrightarrow> yields P (f y)) \<Longrightarrow>
    yields P (case x of None \<Rightarrow> m | Some y \<Rightarrow> f y)"
  by (cases x) auto

lemma yields_case_prod: "(\<And>a b. x = (a, b) \<Longrightarrow> yields P (f a b)) \<Longrightarrow> yields P (case x of (a, b) \<Rightarrow> f a b)"
  by (cases x) auto

lemmas yields_rules =
  yields_ret yields_fail yields_panic yields_lift yields_bind yields_attempt yields_if
  yields_case_option yields_case_prod

section \<open>Lists\<close>

lemma find_Some_mem: "find P xs = Some x \<Longrightarrow> x \<in> set xs \<and> P x"
  by (induction xs) (auto split: if_splits)

lemma find_None_all: "find P xs = None \<longleftrightarrow> (\<forall>x\<in>set xs. \<not> P x)"
  by (induction xs) auto

lemma find_isSome_ex: "(\<exists>x. find P xs = Some x) \<longleftrightarrow> (\<exists>x\<in>set xs. P x)"
  using find_None_all [of P xs] by (cases "find P xs") auto

lemma filter_length_less:
  assumes "\<And>x. x \<in> set xs \<Longrightarrow> P x \<Longrightarrow> Q x" and "y \<in> set xs" "Q y" "\<not> P y"
  shows "length (filter P xs) < length (filter Q xs)"
proof -
  have "filter P xs = filter P (filter Q xs)"
    using assms(1) by (induction xs) auto
  then show ?thesis using assms(2-4) length_filter_less [of y "filter Q xs" P] by simp
qed

lemma takeWhile_covers:
  "(\<And>x. x \<in> set (take k xs) \<Longrightarrow> P x) \<Longrightarrow> k \<le> length xs \<Longrightarrow> k \<le> length (takeWhile P xs)"
proof (induction xs arbitrary: k)
  case (Cons x xs)
  then show ?case by (cases k) auto
qed simp

lemma length_take_dropWhile: "length (takeWhile P xs) + length (dropWhile P xs) = length xs"
  by (metis length_append takeWhile_dropWhile_id)

section \<open>Repeated runs\<close>

text \<open>A measure that decreases until the goal is reached reaches it.\<close>

lemma measure_reaches:
  fixes f :: "nat \<Rightarrow> nat"
  assumes "\<And>i. i \<le> N \<Longrightarrow> done i \<or> f i \<noteq> 0" "\<And>i. i < N \<Longrightarrow> done i \<or> f (Suc i) < f i" "f 0 \<le> N"
  shows "\<exists>i\<le>N. done i"
proof (rule ccontr)
  assume nd: "\<not> (\<exists>i\<le>N. done i)"
  have "i \<le> N \<Longrightarrow> f i + i \<le> N" for i
  proof (induction i)
    case (Suc i)
    with assms(2) [of i] nd show ?case by fastforce
  qed (use assms(3) in simp)
  from this [of N] assms(1) [of N] nd show False by auto
qed

end
