(* ===== verification/GoStd.thy ===== *)
theory GoStd
  imports Prelude
begin

text \<open>
  The parts of the Go standard library the code relies on, as the Go library documents and
  implements them: \<open>strconv.FormatInt\<close> and \<open>strconv.ParseInt\<close> in base 10 with 64 bits
  (the revision annotation), and \<open>strings.Join\<close>, \<open>strings.Split\<close>, \<open>strings.Trim\<close> on a
  one-character separator (probe field paths, error texts). Strings are byte lists.
  The round trip \<open>ParseInt_FormatInt\<close> is what the engine's revision bookkeeping rests on.
\<close>

section \<open>64-bit integers\<close>

definition max_int64 :: int where "max_int64 = 2 ^ 63 - 1"
definition min_int64 :: int where "min_int64 = - (2 ^ 63)"
definition max_uint64 :: nat where "max_uint64 = 2 ^ 64 - 1"

definition in_int64 :: "int \<Rightarrow> bool" where
  "in_int64 i \<longleftrightarrow> min_int64 \<le> i \<and> i \<le> max_int64"

lemmas int64_defs = max_int64_def min_int64_def max_uint64_def in_int64_def

section \<open>strconv.FormatInt\<close>

definition digit_char :: "nat \<Rightarrow> char" where
  "digit_char d = char_of (48 + d)"

definition char_digit :: "char \<Rightarrow> nat option" where
  "char_digit c = (let n = of_char c :: nat in if 48 \<le> n \<and> n \<le> 57 then Some (n - 48) else None)"

fun format_nat :: "nat \<Rightarrow> string" where
  "format_nat n = (if n < 10 then [digit_char n] else format_nat (n div 10) @ [digit_char (n mod 10)])"

declare format_nat.simps [simp del]

definition FormatInt :: "int \<Rightarrow> string" where
  "FormatInt i = (if i < 0 then CHR ''-'' # format_nat (nat (- i)) else format_nat (nat i))"

section \<open>strconv.ParseInt\<close>

datatype num_error = ErrSyntax | ErrRange

text \<open>The digit loop of \<open>strconv.ParseUint\<close>: the syntax check of a character comes before the
  range check, and a range error stops the loop.\<close>

fun parse_digits :: "nat \<Rightarrow> string \<Rightarrow> num_error + nat" where
  "parse_digits n [] = Inr n"
| "parse_digits n (c # cs) =
    (case char_digit c of
       None \<Rightarrow> Inl ErrSyntax
     | Some d \<Rightarrow>
         if max_uint64 div 10 + 1 \<le> n then Inl ErrRange
         else if max_uint64 < n * 10 + d then Inl ErrRange
         else parse_digits (n * 10 + d) cs)"

definition ParseUint :: "string \<Rightarrow> num_error + nat" where
  "ParseUint s = (if s = [] then Inl ErrSyntax else parse_digits 0 s)"

definition ParseInt :: "string \<Rightarrow> num_error + int" where
  "ParseInt s =
    (if s = [] then Inl ErrSyntax
     else let neg = (hd s = CHR ''-'');
              body = (if hd s = CHR ''+'' \<or> hd s = CHR ''-'' then tl s else s)
          in case ParseUint body of
               Inl e \<Rightarrow> Inl e
             | Inr un \<Rightarrow>
                 if \<not> neg \<and> 2 ^ 63 \<le> un then Inl ErrRange
                 else if neg \<and> 2 ^ 63 < un then Inl ErrRange
                 else Inr (if neg then - int un else int un))"

subsection \<open>Round trip\<close>

lemma char_digit_digit_char [simp]: "d < 10 \<Longrightarrow> char_digit (digit_char d) = Some d"
  by (simp add: char_digit_def digit_char_def)

lemma digit_char_neq_sign: "d < 10 \<Longrightarrow> digit_char d \<noteq> CHR ''-'' \<and> digit_char d \<noteq> CHR ''+''"
  by (auto simp: digit_char_def char_of_eq_iff take_bit_eq_mod)

lemma format_nat_nonempty [simp]: "format_nat n \<noteq> []"
  by (subst format_nat.simps) simp

lemma hd_format_nat: "hd (format_nat n) \<noteq> CHR ''-'' \<and> hd (format_nat n) \<noteq> CHR ''+''"
proof (induction n rule: format_nat.induct)
  case (1 n)
  then show ?case
    using digit_char_neq_sign [of n] by (subst (1 2) format_nat.simps) (auto simp: hd_append)
qed

lemma parse_digits_append:
  "parse_digits k xs = Inr m \<Longrightarrow> parse_digits k (xs @ ys) = parse_digits m ys"
  by (induction k xs rule: parse_digits.induct) (auto split: option.splits if_splits)

lemma parse_digits_snoc:
  assumes "parse_digits k xs = Inr m" and "d < 10" and "m * 10 + d \<le> max_uint64"
  shows "parse_digits k (xs @ [digit_char d]) = Inr (m * 10 + d)"
proof -
  have "m < max_uint64 div 10 + 1" using assms(3) by (simp add: max_uint64_def)
  with assms show ?thesis by (simp add: parse_digits_append)
qed

lemma parse_digits_format_nat: "n \<le> max_uint64 \<Longrightarrow> parse_digits 0 (format_nat n) = Inr n"
proof (induction n rule: format_nat.induct)
  case (1 n)
  show ?case
  proof (cases "n < 10")
    case True
    with "1.prems" show ?thesis by (subst format_nat.simps) (simp add: max_uint64_def)
  next
    case False
    have IH: "parse_digits 0 (format_nat (n div 10)) = Inr (n div 10)"
      using "1.IH" "1.prems" False by simp
    have "parse_digits 0 (format_nat (n div 10) @ [digit_char (n mod 10)])
        = Inr (n div 10 * 10 + n mod 10)"
      using IH "1.prems" by (intro parse_digits_snoc) simp_all
    with False show ?thesis by (subst format_nat.simps) simp
  qed
qed

lemma ParseUint_format_nat: "n \<le> max_uint64 \<Longrightarrow> ParseUint (format_nat n) = Inr n"
  by (simp add: ParseUint_def parse_digits_format_nat)

lemma FormatInt_nonempty [simp]: "FormatInt i \<noteq> []"
  by (simp add: FormatInt_def)

lemma ParseInt_FormatInt: "in_int64 i \<Longrightarrow> ParseInt (FormatInt i) = Inr i"
proof (cases "i < 0")
  case True
  assume "in_int64 i"
  with True have "nat (- i) \<le> 2 ^ 63" by (simp add: int64_defs)
  with True show ?thesis
    by (simp add: ParseInt_def FormatInt_def ParseUint_format_nat max_uint64_def)
next
  case False
  assume "in_int64 i"
  with False have "nat i < 2 ^ 63" by (simp add: int64_defs)
  with False hd_format_nat [of "nat i"] show ?thesis
    by (simp add: ParseInt_def FormatInt_def ParseUint_format_nat max_uint64_def)
qed

text \<open>Whatever \<open>ParseInt\<close> accepts is in range, so the engine's comparisons of revisions are
  comparisons of 64-bit values.\<close>

lemma ParseInt_in_int64: "ParseInt s = Inr i \<Longrightarrow> in_int64 i"
  by (auto simp: ParseInt_def int64_defs Let_def split: if_splits sum.splits)

section \<open>package strings\<close>

fun Join :: "string list \<Rightarrow> string \<Rightarrow> string" where
  "Join [] sep = []"
| "Join [x] sep = x"
| "Join (x # y # ys) sep = x @ sep @ Join (y # ys) sep"

text \<open>\<open>strings.Split(s, sep)\<close> for a one-character separator: always at least one part.\<close>

fun Split :: "string \<Rightarrow> char \<Rightarrow> string list" where
  "Split [] sep = [[]]"
| "Split (c # cs) sep =
     (if c = sep then [] # Split cs sep
      else case Split cs sep of
             [] \<Rightarrow> [[c]]
           | p # ps \<Rightarrow> (c # p) # ps)"

text \<open>\<open>strings.Trim(s, cutset)\<close> for a one-character cutset.\<close>

definition Trim :: "string \<Rightarrow> char \<Rightarrow> string" where
  "Trim s c = rev (dropWhile (\<lambda>x. x = c) (rev (dropWhile (\<lambda>x. x = c) s)))"

lemma Split_nonempty [simp]: "Split s sep \<noteq> []"
  by (induction s) (auto split: list.splits)

lemma Split_no_sep: "\<forall>p\<in>set (Split s sep). sep \<notin> set p"
  by (induction s) (auto split: list.splits)

lemma Join_Cons: "Join ((c # p) # ps) sep = c # Join (p # ps) sep"
  by (cases ps) auto

lemma Join_Split: "Join (Split s sep) [sep] = s"
proof (induction s)
  case Nil
  then show ?case by simp
next
  case (Cons c cs)
  obtain p ps where P: "Split cs sep = p # ps" by (cases "Split cs sep") auto
  with Cons show ?case by (auto simp: Join_Cons)
qed

definition hex_char :: "nat \<Rightarrow> char" where
  "hex_char n = (if n < 10 then char_of (48 + n) else char_of (87 + n))"

section \<open>strconv.Quote\<close>

text \<open>The \<open>%q\<close> verb. Bytes above 127 are copied, as for printable UTF-8.\<close>

definition quote_char :: "char \<Rightarrow> string" where
  "quote_char c =
    (let n = of_char c :: nat; esc = (\<lambda>x. [CHR 0x5C, x]) in
     if c = CHR 0x22 \<or> c = CHR 0x5C then esc c
     else if n = 7 then esc (CHR ''a'')
     else if n = 8 then esc (CHR ''b'')
     else if n = 12 then esc (CHR ''f'')
     else if n = 10 then esc (CHR ''n'')
     else if n = 13 then esc (CHR ''r'')
     else if n = 9 then esc (CHR ''t'')
     else if n = 11 then esc (CHR ''v'')
     else if n < 32 \<or> n = 127 then [CHR 0x5C, CHR ''x'', hex_char (n div 16), hex_char (n mod 16)]
     else [c])"

definition Quote :: "string \<Rightarrow> string" where
  "Quote s = CHR 0x22 # concat (map quote_char s) @ [CHR 0x22]"

end
