(* ===== verification/Kube.thy ===== *)
theory Kube
  imports GoStd
begin

text \<open>
  The vocabulary all components share.

  \<^item> Kubernetes objects as the code sees them through \<open>client.Object\<close>: one record whose
    fields are the accessors (\<open>GetLabels obj\<close>; \<open>obj\<lparr>GetLabels := m\<rparr>\<close> is \<open>SetLabels\<close>).
    A nil Go map is \<open>None\<close>, a pointer to bool is a \<open>bool option\<close>. \<open>repr\<close> is the dynamic type the
    engine switches on. Objects are values here: \<open>DeepCopyObject\<close> is the identity, as for
    \<open>unstructured.Unstructured\<close>, whose accessors return copies.
  \<^item> errors: one constructor per error type of the code, with \<open>errors.As\<close> over the tree that
    \<open>Unwrap\<close> spans (\<open>fmt.Errorf\<close> with \<open>%w\<close>, \<open>errors.Join\<close>, the validation errors).
  \<^item> requests: what a \<open>client.Writer\<close> is asked to do. The cluster is a parameter: \<open>fetch\<close> answers
    reads and \<open>serve\<close> answers writes, from an arbitrary state of type \<open>'w\<close> that every call may
    change, so other actors and slow caches are included. Every write request is appended to
    the trace \<open>sent\<close>.
  \<^item> \<open>apimachinery\<close>: the functions of third-party packages the code calls, as parameters.
\<close>

section \<open>Values of unstructured objects\<close>

datatype json =
    JNull
  | JBool bool
  | JInt int
  | JFloat string
  | JString string
  | JList "json list"
  | JMap "(string \<times> json) list"

section \<open>Objects\<close>

record GroupVersionKind =
  Group :: string
  Version :: string
  Kind :: string

record GroupKind =
  gk_Group :: string
  gk_Kind :: string

record ObjectKey =
  Namespace :: string
  Name :: string

record OwnerReference =
  or_APIVersion :: string
  or_Kind :: string
  or_Name :: string
  or_UID :: string
  or_Controller :: "bool option"
  or_BlockOwnerDeletion :: "bool option"

record ManagedFieldsEntry =
  mf_Manager :: string
  mf_Operation :: string
  mf_Subresource :: string
  mf_FieldsV1 :: string

datatype object_repr = Unstructured | ApplyConfiguration | Structured

type_synonym string_map = "(string \<rightharpoonup> string) option"

record Object =
  repr :: object_repr
  GVK :: GroupVersionKind
  GetName :: string
  GetNamespace :: string
  GetGenerateName :: string
  GetUID :: string
  GetGeneration :: int
  GetResourceVersion :: string
  GetLabels :: string_map
  GetAnnotations :: string_map
  GetFinalizers :: "string list"
  GetOwnerReferences :: "OwnerReference list"
  GetManagedFields :: "ManagedFieldsEntry list"
  content :: json

definition emptyGVK :: GroupVersionKind where
  "emptyGVK = \<lparr>Group = [], Version = [], Kind = []\<rparr>"

definition GroupKind_of :: "GroupVersionKind \<Rightarrow> GroupKind" where
  "GroupKind_of g = \<lparr>gk_Group = Group g, gk_Kind = Kind g\<rparr>"

subsection \<open>Go maps that may be nil\<close>

text \<open>Reading a nil map finds nothing, \<open>delete\<close> on it does nothing, and the code replaces it
  by an empty map before it stores into it.\<close>

fun map_get :: "string_map \<Rightarrow> string \<Rightarrow> string option" where
  "map_get None k = None"
| "map_get (Some m) k = m k"

fun map_put :: "string_map \<Rightarrow> string \<Rightarrow> string \<Rightarrow> string_map" where
  "map_put None k v = Some [k \<mapsto> v]"
| "map_put (Some m) k v = Some (m(k \<mapsto> v))"

fun map_delete :: "string_map \<Rightarrow> string \<Rightarrow> string_map" where
  "map_delete None k = None"
| "map_delete (Some m) k = Some (m(k := None))"

text \<open>\<open>m[k]\<close> without the second result: the zero value for a missing key.\<close>

definition map_index :: "string_map \<Rightarrow> string \<Rightarrow> string" where
  "map_index m k = (case map_get m k of None \<Rightarrow> [] | Some v \<Rightarrow> v)"

lemma map_get_put [simp]: "map_get (map_put m k v) k' = (if k' = k then Some v else map_get m k')"
  by (cases m) auto

lemma map_get_delete [simp]: "map_get (map_delete m k) k' = (if k' = k then None else map_get m k')"
  by (cases m) auto

lemma map_put_not_nil [simp]: "map_put m k v \<noteq> None"
  by (cases m) auto

lemma map_index_put [simp]: "map_index (map_put m k v) k' = (if k' = k then v else map_index m k')"
  by (simp add: map_index_def)

section \<open>Object references\<close>

record ObjectRef =
  ref_GVK :: GroupVersionKind
  ref_Key :: ObjectKey

definition ObjectKeyFromObject :: "Object \<Rightarrow> ObjectKey" where
  "ObjectKeyFromObject obj = \<lparr>Namespace = GetNamespace obj, Name = GetName obj\<rparr>"

definition ToObjectRef :: "Object \<Rightarrow> ObjectRef" where
  "ToObjectRef obj = \<lparr>ref_GVK = GVK obj, ref_Key = ObjectKeyFromObject obj\<rparr>"

lemma ToObjectRef_eq_iff:
  "ToObjectRef a = ToObjectRef b \<longleftrightarrow>
    GVK a = GVK b \<and> GetNamespace a = GetNamespace b \<and> GetName a = GetName b"
  by (auto simp: ToObjectRef_def ObjectKeyFromObject_def)

section \<open>Errors\<close>

datatype go_error =
    StatusError string string
  | NoMatchError
  | PlainError string
  | RevisionEngineOptionsError string
  | ContextCanceled
  | DeadlineExceeded
  | NumError num_error
  | Wrap string go_error
  | WrapRef string ObjectRef go_error
  | JoinError "go_error list"
  | AlreadyOwnedError OwnerReference
  | CreateCollisionError Object go_error
  | UnsupportedApplyConfigurationError object_repr
  | FieldRequired string string
  | FieldForbidden string string
  | PhaseNameInvalidError string "string list"
  | PhaseObjectDuplicationError "string list"
  | MustBeNamespaceScopedResourceError
  | MustBeInNamespaceError string string
  | DryRunValidationError go_error
  | ErrObjectValidation ObjectValidationError
  | PtrObjectValidation ObjectValidationError
  | ErrPhaseValidation PhaseValidationError
  | PtrPhaseValidation PhaseValidationError
  | PtrRevisionValidation RevisionValidationError
and ObjectValidationError =
  ObjectValidationError (ov_ObjectRef: ObjectRef) (ov_Errors: "go_error list")
and PhaseValidationError =
  PhaseValidationError (pv_PhaseName: string) (pv_PhaseError: "go_error option")
    (pv_Objects: "ObjectValidationError list")
and RevisionValidationError =
  RevisionValidationError (rv_RevisionName: string) (rv_RevisionNumber: int)
    (rv_Phases: "PhaseValidationError list")

type_synonym 'a go = "(go_error, 'a) outcome"

subsection \<open>Unwrap and errors.As\<close>

definition ObjectValidationError_Unwrap :: "ObjectValidationError \<Rightarrow> go_error list" where
  "ObjectValidationError_Unwrap e = ov_Errors e"

definition PhaseValidationError_Unwrap :: "PhaseValidationError \<Rightarrow> go_error list" where
  "PhaseValidationError_Unwrap e =
    (case pv_PhaseError e of None \<Rightarrow> [] | Some pe \<Rightarrow> [pe]) @ map ErrObjectValidation (pv_Objects e)"

definition RevisionValidationError_Unwrap :: "RevisionValidationError \<Rightarrow> go_error list" where
  "RevisionValidationError_Unwrap e = map ErrPhaseValidation (rv_Phases e)"

fun Unwrap :: "go_error \<Rightarrow> go_error list" where
  "Unwrap (Wrap m e) = [e]"
| "Unwrap (WrapRef m r e) = [e]"
| "Unwrap (JoinError es) = es"
| "Unwrap (DryRunValidationError e) = [e]"
| "Unwrap (ErrObjectValidation v) = ObjectValidationError_Unwrap v"
| "Unwrap (PtrObjectValidation v) = ObjectValidationError_Unwrap v"
| "Unwrap (ErrPhaseValidation v) = PhaseValidationError_Unwrap v"
| "Unwrap (PtrPhaseValidation v) = PhaseValidationError_Unwrap v"
| "Unwrap (PtrRevisionValidation v) = RevisionValidationError_Unwrap v"
| "Unwrap _ = []"

lemma size_list_mem: "x \<in> set xs \<Longrightarrow> f x \<le> size_list f xs"
  by (induction xs) auto

lemma size_ObjectValidation_Unwrap:
  "c \<in> set (ObjectValidationError_Unwrap v) \<Longrightarrow> size c < size v"
  by (cases v) (auto simp: ObjectValidationError_Unwrap_def dest!: size_list_mem [of _ _ size])

lemma size_PhaseValidation_Unwrap:
  "c \<in> set (PhaseValidationError_Unwrap v) \<Longrightarrow> size c \<le> size v"
  by (cases v)
    (auto simp: PhaseValidationError_Unwrap_def split: option.splits
       dest!: size_list_mem [of _ _ size])

lemma size_RevisionValidation_Unwrap:
  "c \<in> set (RevisionValidationError_Unwrap v) \<Longrightarrow> size c \<le> size v"
  by (cases v)
    (auto simp: RevisionValidationError_Unwrap_def dest!: size_list_mem [of _ _ size])

lemma size_Unwrap: "c \<in> set (Unwrap e) \<Longrightarrow> size c < size e"
  by (cases e rule: Unwrap.cases)
    (auto simp: less_Suc_eq_le dest: size_ObjectValidation_Unwrap size_PhaseValidation_Unwrap
       size_RevisionValidation_Unwrap size_list_mem [of _ _ size] le_imp_less_Suc order.strict_implies_order)

fun first_Some :: "'a option list \<Rightarrow> 'a option" where
  "first_Some [] = None"
| "first_Some (None # xs) = first_Some xs"
| "first_Some (Some x # xs) = Some x"

function errors_As :: "(go_error \<Rightarrow> 'a option) \<Rightarrow> go_error \<Rightarrow> 'a option" where
  "errors_As sel e =
    (case sel e of Some x \<Rightarrow> Some x | None \<Rightarrow> first_Some (map (errors_As sel) (Unwrap e)))"
  by pat_completeness auto
termination
  by (relation "measure (\<lambda>(sel, e). size e)") (auto simp: size_Unwrap)

declare errors_As.simps [simp del]

lemma errors_As_hit: "sel e = Some x \<Longrightarrow> errors_As sel e = Some x"
  by (subst errors_As.simps) simp

lemma errors_As_leaf: "sel e = None \<Longrightarrow> Unwrap e = [] \<Longrightarrow> errors_As sel e = None"
  by (subst errors_As.simps) simp

fun as_PtrObjectValidation :: "go_error \<Rightarrow> ObjectValidationError option" where
  "as_PtrObjectValidation (PtrObjectValidation v) = Some v"
| "as_PtrObjectValidation _ = None"

fun as_PtrPhaseValidation :: "go_error \<Rightarrow> PhaseValidationError option" where
  "as_PtrPhaseValidation (PtrPhaseValidation v) = Some v"
| "as_PtrPhaseValidation _ = None"

fun as_PtrRevisionValidation :: "go_error \<Rightarrow> RevisionValidationError option" where
  "as_PtrRevisionValidation (PtrRevisionValidation v) = Some v"
| "as_PtrRevisionValidation _ = None"

fun as_DryRunValidation :: "go_error \<Rightarrow> go_error option" where
  "as_DryRunValidation (DryRunValidationError e) = Some e"
| "as_DryRunValidation _ = None"

fun as_PhaseObjectDuplication :: "go_error \<Rightarrow> string list option" where
  "as_PhaseObjectDuplication (PhaseObjectDuplicationError ps) = Some ps"
| "as_PhaseObjectDuplication _ = None"

fun as_StatusError :: "go_error \<Rightarrow> (string \<times> string) option" where
  "as_StatusError (StatusError r m) = Some (r, m)"
| "as_StatusError _ = None"

text \<open>\<open>errors.Is\<close> for a sentinel error.\<close>

definition errors_Is :: "go_error \<Rightarrow> go_error \<Rightarrow> bool" where
  "errors_Is err target \<longleftrightarrow> errors_As (\<lambda>e. if e = target then Some () else None) err \<noteq> None"

lemma errors_Is_refl [simp]: "errors_Is err err"
  by (simp add: errors_Is_def errors_As_hit)

text \<open>\<open>errors.Join\<close>: nil when every argument is nil.\<close>

definition errors_Join :: "go_error list \<Rightarrow> go_error option" where
  "errors_Join es = (if es = [] then None else Some (JoinError es))"

end
