(* ===== verification/Cluster.thy ===== *)
theory Cluster
  imports Kube
begin

text \<open>
  The cluster as the engines meet it: readers and writers are handles, a write is a \<open>request\<close>,
  and the parameter \<open>'w cluster\<close> says what the cluster answers. The trace \<open>sent\<close> of a state
  is the list of requests sent so far, oldest first; \<open>emits P\<close> relates two states when only
  requests satisfying \<open>P\<close> were sent in between, and is closed under composition
  (interpretation \<open>tr\<close>), which is how the write-safety properties of all three engines
  are proved.
\<close>

section \<open>Requests\<close>

datatype Reader = Reader nat

datatype Writer = Writer nat

datatype patch =
    MergeFrom Object
  | RawPatch string string

record WriteOptions =
  FieldOwner :: "string option"
  ForceOwnership :: bool
  DryRunAll :: bool

definition no_opts :: WriteOptions where
  "no_opts = \<lparr>FieldOwner = None, ForceOwnership = False, DryRunAll = False\<rparr>"

record Preconditions =
  pre_UID :: string
  pre_ResourceVersion :: string

datatype request =
    Create Object WriteOptions
  | Patch Object patch WriteOptions
  | Apply Object WriteOptions
  | Delete Object Preconditions

fun request_object :: "request \<Rightarrow> Object" where
  "request_object (Create obj opts) = obj"
| "request_object (Patch obj p opts) = obj"
| "request_object (Apply obj opts) = obj"
| "request_object (Delete obj pre) = obj"

fun is_dry_run :: "request \<Rightarrow> bool" where
  "is_dry_run (Create obj opts) = DryRunAll opts"
| "is_dry_run (Patch obj p opts) = DryRunAll opts"
| "is_dry_run (Apply obj opts) = DryRunAll opts"
| "is_dry_run (Delete obj pre) = False"

fun is_delete :: "request \<Rightarrow> bool" where
  "is_delete (Delete obj pre) = True"
| "is_delete _ = False"

section \<open>The cluster parameter and the state\<close>

text \<open>\<open>fetch r into w\<close> answers \<open>Get\<close> for the kind and key of \<open>into\<close>; \<open>serve w req\<close> answers a
  write with an optional error and the object as the client leaves it.\<close>

record 'w cluster =
  fetch :: "Reader \<Rightarrow> Object \<Rightarrow> 'w \<Rightarrow> (go_error + Object) \<times> 'w"
  serve :: "Writer \<Rightarrow> request \<Rightarrow> 'w \<Rightarrow> (go_error option \<times> Object) \<times> 'w"

record 'w st =
  world :: 'w
  sent :: "(Writer \<times> request) list"

type_synonym ('w, 'a) run = "('w st, go_error, 'a) eff"

definition read_object :: "'w cluster \<Rightarrow> Reader \<Rightarrow> Object \<Rightarrow> ('w, Object) run" where
  "read_object cl r into s =
    (case fetch cl r into (world s) of
       (Inl e, w) \<Rightarrow> (Fail e, s\<lparr>world := w\<rparr>)
     | (Inr obj, w) \<Rightarrow> (Val obj, s\<lparr>world := w\<rparr>))"

definition send_raw ::
  "'w cluster \<Rightarrow> Writer \<Rightarrow> request \<Rightarrow> ('w, go_error option \<times> Object) run" where
  "send_raw cl wr req s =
    (case serve cl wr req (world s) of
       (reply, w) \<Rightarrow> (Val reply, s\<lparr>world := w, sent := sent s @ [(wr, req)]\<rparr>))"

definition send :: "'w cluster \<Rightarrow> Writer \<Rightarrow> request \<Rightarrow> ('w, Object) run" where
  "send cl wr req =
    bind (send_raw cl wr req) (\<lambda>reply. case reply of
        (None, obj) \<Rightarrow> ret obj
      | (Some e, obj) \<Rightarrow> fail e)"

section \<open>What a computation sends\<close>

definition emits :: "(Writer \<times> request \<Rightarrow> bool) \<Rightarrow> 'w st \<Rightarrow> 'w st \<Rightarrow> bool" where
  "emits P s t \<longleftrightarrow> (\<exists>reqs. sent t = sent s @ reqs \<and> list_all P reqs)"

lemma emits_refl: "emits P s s"
  by (simp add: emits_def)

lemma emits_trans: "emits P s t \<Longrightarrow> emits P t u \<Longrightarrow> emits P s u"
  by (force simp: emits_def)

interpretation tr: effect_relation "emits P" for P
  by unfold_locales (rule emits_refl, erule (1) emits_trans)

lemma emits_mono: "emits P s t \<Longrightarrow> (\<And>r. P r \<Longrightarrow> Q r) \<Longrightarrow> emits Q s t"
  by (force simp: emits_def list_all_iff)

lemma keeps_mono: "tr.keeps P m \<Longrightarrow> (\<And>r. P r \<Longrightarrow> Q r) \<Longrightarrow> tr.keeps Q m"
  by (auto simp: tr.keeps_def intro: emits_mono)

lemma emits_sent_mono: "emits P s t \<Longrightarrow> set (sent s) \<subseteq> set (sent t)"
  by (auto simp: emits_def)

lemma emits_new: "emits P s t \<Longrightarrow> r \<in> set (drop (length (sent s)) (sent t)) \<Longrightarrow> P r"
  by (auto simp: emits_def list_all_iff)

lemma emits_nothing_iff: "emits (\<lambda>_. False) s t \<longleftrightarrow> sent t = sent s"
proof
  assume "emits (\<lambda>_. False) s t"
  then obtain reqs where "sent t = sent s @ reqs" and "list_all (\<lambda>_. False) reqs"
    by (auto simp: emits_def)
  then show "sent t = sent s" by (cases reqs) auto
qed (simp add: emits_def)

lemma keeps_read_object: "tr.keeps P (read_object cl r into)"
  by (rule tr.keepsI) (auto simp: read_object_def emits_def split: prod.splits sum.splits)

lemma keeps_send_raw: "P (wr, req) \<Longrightarrow> tr.keeps P (send_raw cl wr req)"
  by (rule tr.keepsI) (auto simp: send_raw_def emits_def split: prod.splits)

lemma keeps_send: "P (wr, req) \<Longrightarrow> tr.keeps P (send cl wr req)"
  unfolding send_def
  by (intro tr.keeps_bind keeps_send_raw) (auto split: prod.splits option.splits
        intro: tr.keeps_ret tr.keeps_fail)

lemmas keeps_calls = keeps_read_object keeps_send_raw keeps_send

lemma send_Val:
  "send cl wr req s = (Val obj, s') \<longleftrightarrow>
    (\<exists>w. serve cl wr req (world s) = ((None, obj), w) \<and>
         s' = s\<lparr>world := w, sent := sent s @ [(wr, req)]\<rparr>)"
  by (auto simp: send_def send_raw_def bind_def ret_def fail_def split: prod.splits option.splits)

lemma read_object_Val:
  "read_object cl r into s = (Val obj, s') \<longleftrightarrow>
    (\<exists>w. fetch cl r into (world s) = (Inr obj, w) \<and> s' = s\<lparr>world := w\<rparr>)"
  by (auto simp: read_object_def split: prod.splits sum.splits)

lemma bind_send_raw:
  "bind (send_raw cl wr req) f s =
    (case serve cl wr req (world s) of
       (reply, w) \<Rightarrow> f reply (s\<lparr>world := w, sent := sent s @ [(wr, req)]\<rparr>))"
  by (simp add: bind_def send_raw_def split: prod.splits)

text \<open>Documented behaviour of the client: an answer is about the object that was asked for, and a
  create that fails leaves the passed object alone.\<close>

definition well_behaved :: "'w cluster \<Rightarrow> bool" where
  "well_behaved cl \<longleftrightarrow>
    (\<forall>r into x obj x'. fetch cl r into x = (Inr obj, x') \<longrightarrow> ToObjectRef obj = ToObjectRef into) \<and>
    (\<forall>w req x err obj x'. serve cl w req x = ((err, obj), x') \<longrightarrow>
       ToObjectRef obj = ToObjectRef (request_object req)) \<and>
    (\<forall>w d opts x err d' x'. serve cl w (Create d opts) x = ((Some err, d'), x') \<longrightarrow> d' = d)"

lemma well_behavedD:
  assumes "well_behaved cl"
  shows "fetch cl r into x = (Inr obj, x') \<Longrightarrow> ToObjectRef obj = ToObjectRef into"
    and "serve cl w req x = ((err, obj), x') \<Longrightarrow> ToObjectRef obj = ToObjectRef (request_object req)"
    and "serve cl w (Create d opts) x = ((Some er, d'), x') \<Longrightarrow> d' = d"
  using assms unfolding well_behaved_def by blast+

lemma read_object_ref:
  "well_behaved cl \<Longrightarrow> read_object cl r into s = (Val obj, s') \<Longrightarrow> ToObjectRef obj = ToObjectRef into"
  by (auto simp: read_object_Val dest: well_behavedD)

lemma send_raw_ref:
  "well_behaved cl \<Longrightarrow> send_raw cl w req s = (Val (err, obj), s') \<Longrightarrow>
    ToObjectRef obj = ToObjectRef (request_object req)"
  by (auto simp: send_raw_def dest: well_behavedD split: prod.splits)

lemma send_raw_failed_create:
  "well_behaved cl \<Longrightarrow> send_raw cl w (Create d opts) s = (Val (Some err, d'), s') \<Longrightarrow> d' = d"
  by (auto simp: send_raw_def dest: well_behavedD split: prod.splits)

lemma send_ref:
  "well_behaved cl \<Longrightarrow> send cl w req s = (Val obj, s') \<Longrightarrow>
    ToObjectRef obj = ToObjectRef (request_object req)"
  by (auto simp: send_Val dest: well_behavedD)

section \<open>Third-party functions\<close>

text \<open>
  Functions of \<open>k8s.io/apimachinery\<close>, \<open>client-go\<close> and \<open>controller-runtime\<close>, as parameters.
  \<open>GVKForObject\<close> already has the scheme applied; \<open>UpgradeManagedFieldsPatch obj owner\<close> is the
  raw JSON patch, empty when nothing has to change.
\<close>

record apimachinery =
  GVKForObject :: "Object \<Rightarrow> go_error + GroupVersionKind"
  ParseGroupVersion :: "string \<Rightarrow> go_error + (string \<times> string)"
  GroupVersionString :: "GroupVersionKind \<Rightarrow> string"
  IsNotFound :: "go_error \<Rightarrow> bool"
  IsAlreadyExists :: "go_error \<Rightarrow> bool"
  IsTooManyRequests :: "go_error \<Rightarrow> bool"
  IsNoMatchError :: "go_error \<Rightarrow> bool"
  ContainsFinalizer :: "Object \<Rightarrow> string \<Rightarrow> bool"
  UpgradeManagedFieldsPatch :: "Object \<Rightarrow> string \<Rightarrow> go_error + string"

definition ensureGVKIsSet :: "apimachinery \<Rightarrow> Object \<Rightarrow> Object go" where
  "ensureGVKIsSet api obj =
    (if GVK obj \<noteq> emptyGVK then Val obj
     else case GVKForObject api obj of
            Inl e \<Rightarrow> Fail e
          | Inr gvk \<Rightarrow> Val (obj\<lparr>GVK := gvk\<rparr>))"

lemma ensureGVKIsSet_set [simp]: "GVK obj \<noteq> emptyGVK \<Longrightarrow> ensureGVKIsSet api obj = Val obj"
  by (simp add: ensureGVKIsSet_def)

lemma ensureGVKIsSet_no_panic: "\<not> is_panic (ensureGVKIsSet api obj)"
  by (simp add: ensureGVKIsSet_def split: sum.splits)

lemma ensureGVKIsSet_frame:
  "ensureGVKIsSet api obj = Val obj' \<Longrightarrow> \<exists>g. obj' = obj\<lparr>GVK := g\<rparr>"
  by (auto simp: ensureGVKIsSet_def split: if_splits sum.splits intro: exI [of _ "GVK obj"])

end
