(* ===== verification/CacheSource.thy ===== *)
theory CacheSource
  imports Cluster "HOL-Library.Sublist"
begin

text \<open>
  The event source shared by the managed caches, \<open>managedcache/cache_source.go\<close>: it remembers the
  event handlers of the controllers and the informers of the caches, and connects each handler with
  each informer, whichever of the two comes first. \<open>source.Informer.Start\<close>, which attaches one
  handler to one informer, is controller-runtime code and a parameter; the successful calls are
  logged in \<open>connected\<close>. Handlers, predicates, work queues and contexts are opaque handles.
\<close>

datatype Informer = Informer nat

type_synonym EventHandler = nat
type_synonym Predicate = nat
type_synonym WorkQueue = nat
type_synonym Context = nat

record cacheSettings =
  cs_handler :: EventHandler
  cs_predicates :: "Predicate list"

record eventHandler =
  eh_ctx :: Context
  eh_queue :: WorkQueue
  eh_handler :: EventHandler
  eh_predicates :: "Predicate list"

record cacheSource =
  handlers :: "eventHandler list"
  informers :: "Informer list"
  settings :: "cacheSettings list"

definition newCacheSource :: cacheSource where
  "newCacheSource = \<lparr>handlers = [], informers = [], settings = []\<rparr>"

record 'w source_api =
  IsStopped :: "Informer \<Rightarrow> 'w \<Rightarrow> bool"
  StartInformer :: "Informer \<Rightarrow> eventHandler \<Rightarrow> 'w \<Rightarrow> go_error option \<times> 'w"

record 'w source_st =
  cache_source :: cacheSource
  connected :: "(Informer \<times> eventHandler) list"
  outside :: 'w

definition source_Source ::
  "EventHandler option \<Rightarrow> Predicate list \<Rightarrow> ('w source_st, go_error, cacheSettings) eff" where
  "source_Source handler predicates =
    (case handler of
       None \<Rightarrow> panic ''handler is nil''
     | Some h \<Rightarrow>
         let s = \<lparr>cs_handler = h, cs_predicates = predicates\<rparr>
         in bind (modify (\<lambda>st. st\<lparr>cache_source :=
                (cache_source st)\<lparr>settings := settings (cache_source st) @ [s]\<rparr>\<rparr>)) (\<lambda>_. ret s))"

definition start_source ::
  "'w source_api \<Rightarrow> Informer \<Rightarrow> eventHandler \<Rightarrow> ('w source_st, go_error, unit) eff" where
  "start_source api i eh st =
    (case StartInformer api i eh (outside st) of
       (None, w) \<Rightarrow> (Val (), st\<lparr>outside := w, connected := connected st @ [(i, eh)]\<rparr>)
     | (Some err, w) \<Rightarrow> (Fail err, st\<lparr>outside := w\<rparr>))"

fun start_sources ::
  "'w source_api \<Rightarrow> (Informer \<times> eventHandler) list \<Rightarrow> ('w source_st, go_error, unit) eff" where
  "start_sources api [] = ret ()"
| "start_sources api ((i, eh) # ps) = bind (start_source api i eh) (\<lambda>_. start_sources api ps)"

definition handleNewEventHandlerStart ::
  "'w source_api \<Rightarrow> Context \<Rightarrow> WorkQueue \<Rightarrow> cacheSettings \<Rightarrow> ('w source_st, go_error, unit) eff" where
  "handleNewEventHandlerStart api ctx queue s =
    (let eh = \<lparr>eh_ctx = ctx, eh_queue = queue, eh_handler = cs_handler s, eh_predicates = cs_predicates s\<rparr>
     in bind (modify (\<lambda>st. st\<lparr>cache_source :=
            (cache_source st)\<lparr>handlers := handlers (cache_source st) @ [eh]\<rparr>\<rparr>)) (\<lambda>_.
        bind (gets (\<lambda>st. informers (cache_source st))) (\<lambda>is.
          start_sources api (map (\<lambda>i. (i, eh)) is))))"

definition cacheSettings_Start ::
  "'w source_api \<Rightarrow> cacheSettings \<Rightarrow> Context \<Rightarrow> WorkQueue \<Rightarrow> ('w source_st, go_error, unit) eff" where
  "cacheSettings_Start api s ctx queue = handleNewEventHandlerStart api ctx queue s"

definition handleNewInformer ::
  "'w source_api \<Rightarrow> Informer \<Rightarrow> ('w source_st, go_error, unit) eff" where
  "handleNewInformer api newInformer =
    bind (modify (\<lambda>st. st\<lparr>cache_source := (cache_source st)\<lparr>informers :=
        filter (\<lambda>i. \<not> IsStopped api i (outside st)) (informers (cache_source st)) @ [newInformer]\<rparr>\<rparr>)) (\<lambda>_.
    bind (gets (\<lambda>st. handlers (cache_source st))) (\<lambda>ehs.
      start_sources api (map (\<lambda>eh. (newInformer, eh)) ehs)))"

section \<open>Connections\<close>

text \<open>Attaching stops at the first error; what was attached before stays attached.\<close>

lemma start_sources_run:
  "start_sources api ps st = (r, st') \<Longrightarrow>
    \<exists>n. connected st' = connected st @ take n ps \<and> cache_source st' = cache_source st \<and> (r = Val () \<longrightarrow> length ps \<le> n)"
proof (induction ps arbitrary: st)
  case (Cons p ps)
  obtain i eh where p: "p = (i, eh)" by fastforce
  obtain err w where sv: "StartInformer api i eh (outside st) = (err, w)" by fastforce
  show ?case
  proof (cases err)
    case None
    with Cons.prems p sv have
      "start_sources api ps (st\<lparr>outside := w, connected := connected st @ [(i, eh)]\<rparr>) = (r, st')"
      by (simp add: bind_def start_source_def)
    from Cons.IH [OF this] obtain n where "connected st' = connected st @ (i, eh) # take n ps"
      "cache_source st' = cache_source st" "r = Val () \<longrightarrow> length ps \<le> n" by auto
    then show ?thesis using p by (intro exI [of _ "Suc n"]) simp
  next
    case (Some e)
    with Cons.prems p sv show ?thesis by (intro exI [of _ 0]) (auto simp: bind_def start_source_def)
  qed
qed (simp add: ret_def)

text \<open>The handlers an informer is connected with, in the order of the connection.\<close>

definition handlers_of :: "'w source_st \<Rightarrow> Informer \<Rightarrow> eventHandler list" where
  "handlers_of st i = map snd (filter (\<lambda>p. fst p = i) (connected st))"

text \<open>\<open>ok\<close> says that no registration has failed so far.\<close>

definition source_inv :: "bool \<Rightarrow> 'w source_st \<Rightarrow> bool" where
  "source_inv ok st \<longleftrightarrow> distinct (informers (cache_source st)) \<and>
    (\<forall>i\<in>set (informers (cache_source st)). subseq (handlers_of st i) (handlers (cache_source st)) \<and>
       (ok \<longrightarrow> handlers_of st i = handlers (cache_source st)))"

lemma filter_fst_pair:
  "filter (\<lambda>p. fst p = i) (map (\<lambda>eh. (j, eh)) ehs) = (if i = j then map (\<lambda>eh. (j, eh)) ehs else [])"
  by (induction ehs) auto

lemma filter_fst_distinct:
  "distinct is \<Longrightarrow> filter (\<lambda>p. fst p = i) (map (\<lambda>j. (j, eh)) is) = (if i \<in> set is then [(i, eh)] else [])"
  by (induction "is") auto

lemma handleNewEventHandlerStart_inv:
  assumes "handleNewEventHandlerStart api ctx queue s st = (r, st')" "source_inv ok st"
  shows "source_inv (ok \<and> r = Val ()) st'"
proof -
  let ?eh = "\<lparr>eh_ctx = ctx, eh_queue = queue, eh_handler = cs_handler s, eh_predicates = cs_predicates s\<rparr>"
  let ?is = "informers (cache_source st)"
  have "start_sources api (map (\<lambda>i. (i, ?eh)) ?is)
      (st\<lparr>cache_source := (cache_source st)\<lparr>handlers := handlers (cache_source st) @ [?eh]\<rparr>\<rparr>) = (r, st')"
    using assms(1) by (simp add: handleNewEventHandlerStart_def Let_def bind_def modify_def gets_def)
  from start_sources_run [OF this] obtain n where
    c: "connected st' = connected st @ map (\<lambda>i. (i, ?eh)) (take n ?is)"
    and s: "cache_source st' = (cache_source st)\<lparr>handlers := handlers (cache_source st) @ [?eh]\<rparr>"
    and all: "r = Val () \<longrightarrow> take n ?is = ?is" by (auto simp: take_map)
  have d: "distinct ?is" using assms(2) by (simp add: source_inv_def)
  then have "handlers_of st' i = handlers_of st i @ (if i \<in> set (take n ?is) then [?eh] else [])" for i
    by (simp add: handlers_of_def c filter_fst_distinct)
  moreover have "subseq (xs @ (if b then [?eh] else [])) (ys @ [?eh])" if "subseq xs ys" for xs ys b
    using that by (cases b) (simp_all add: list_emb_append_mono subseq_rev_drop_many)
  ultimately show ?thesis using assms(2) s d all by (simp add: source_inv_def)
qed

lemma handleNewInformer_inv:
  assumes "handleNewInformer api i st = (r, st')" "source_inv ok st"
    and "i \<notin> set (informers (cache_source st))" "i \<notin> fst ` set (connected st)"
  shows "source_inv (ok \<and> r = Val ()) st'"
proof -
  let ?hs = "handlers (cache_source st)"
  let ?src = "(cache_source st)\<lparr>informers :=
      filter (\<lambda>i. \<not> IsStopped api i (outside st)) (informers (cache_source st)) @ [i]\<rparr>"
  have "start_sources api (map (\<lambda>eh. (i, eh)) ?hs) (st\<lparr>cache_source := ?src\<rparr>) = (r, st')"
    using assms(1) by (simp add: handleNewInformer_def bind_def modify_def gets_def)
  from start_sources_run [OF this] obtain n where
    c: "connected st' = connected st @ map (\<lambda>eh. (i, eh)) (take n ?hs)"
    and s: "cache_source st' = ?src"
    and all: "r = Val () \<longrightarrow> take n ?hs = ?hs" by (auto simp: take_map)
  from assms(4) have "filter (\<lambda>p. fst p = i) (connected st) = []"
    by (auto simp: filter_empty_conv)
  moreover have "subseq (take n ?hs) ?hs" by (metis append_take_drop_id subseq_rev_drop_many subseq_order.refl)
  ultimately show ?thesis using c s all assms(2,3)
    by (auto simp: source_inv_def handlers_of_def filter_fst_pair comp_def)
qed

section \<open>Runs\<close>

text \<open>A run of registrations, with the caches stopping informers in between, and whether all of them
  succeeded. A registration that fails leaves its handler or informer in the source. Every
  informer the caches announce is a new one: client-go never restarts an informer.\<close>

inductive source_run :: "'w source_api \<Rightarrow> bool \<Rightarrow> 'w source_st \<Rightarrow> bool" for api where
  source_start: "source_run api True \<lparr>cache_source = newCacheSource, connected = [], outside = w\<rparr>"
| source_new: "source_run api ok st \<Longrightarrow> source_Source h preds st = (Val s, st') \<Longrightarrow> source_run api ok st'"
| source_handler: "source_run api ok st \<Longrightarrow> cacheSettings_Start api s ctx queue st = (r, st') \<Longrightarrow>
    source_run api (ok \<and> r = Val ()) st'"
| source_informer: "source_run api ok st \<Longrightarrow> i \<notin> set (informers (cache_source st)) \<Longrightarrow>
    i \<notin> fst ` set (connected st) \<Longrightarrow> handleNewInformer api i st = (r, st') \<Longrightarrow>
    source_run api (ok \<and> r = Val ()) st'"
| source_outside: "source_run api ok st \<Longrightarrow> source_run api ok (st\<lparr>outside := w\<rparr>)"

lemma source_run_inv: "source_run api ok st \<Longrightarrow> source_inv ok st"
proof (induction rule: source_run.induct)
  case (source_handler ok st s ctx queue r st')
  then show ?case by (auto simp: cacheSettings_Start_def intro: handleNewEventHandlerStart_inv)
next
  case (source_informer ok st i r st')
  then show ?case by (blast intro: handleNewInformer_inv)
qed (auto simp: source_inv_def newCacheSource_def handlers_of_def source_Source_def Let_def panic_def
    bind_def modify_def ret_def split: option.splits)

text \<open>C33: whichever comes first, handlers and informers are connected. In every run, with failed
  registrations or without, an informer the source holds is attached only to handlers that were
  started, to none more often than it was started, and in the order the handlers were started; and
  when all registrations up to now returned without an error, each such informer is attached to
  every event handler that was started. After a failed registration some of them may be missing.\<close>

theorem source_connects_all:
  assumes "source_run api ok st" "i \<in> set (informers (cache_source st))"
  shows "subseq (handlers_of st i) (handlers (cache_source st)) \<and>
    (ok \<longrightarrow> handlers_of st i = handlers (cache_source st))"
  using source_run_inv [OF assms(1)] assms(2) by (auto simp: source_inv_def)

definition sample_source_api :: "unit source_api" where
  "sample_source_api = \<lparr>IsStopped = (\<lambda>i w. False), StartInformer = (\<lambda>i eh w. (None, w))\<rparr>"

definition sample_source_st :: "unit source_st" where
  "sample_source_st =
    snd (bind (handleNewInformer sample_source_api (Informer 0)) (\<lambda>_.
         bind (cacheSettings_Start sample_source_api \<lparr>cs_handler = 1, cs_predicates = []\<rparr> 0 0) (\<lambda>_.
           handleNewInformer sample_source_api (Informer 1)))
      \<lparr>cache_source = newCacheSource, connected = [], outside = ()\<rparr>)"

lemma sample_source_run: "source_run sample_source_api True sample_source_st"
proof -
  let ?a = sample_source_api and ?s0 = "\<lparr>cache_source = newCacheSource, connected = [], outside = ()\<rparr>"
  let ?s1 = "snd (handleNewInformer ?a (Informer 0) ?s0)"
  let ?s2 = "snd (cacheSettings_Start ?a \<lparr>cs_handler = 1, cs_predicates = []\<rparr> 0 0 ?s1)"
  note defs = handleNewInformer_def cacheSettings_Start_def handleNewEventHandlerStart_def bind_def
    modify_def gets_def ret_def start_source_def sample_source_api_def newCacheSource_def Let_def
  have "source_run ?a (True \<and> Val () = (Val () :: (go_error, unit) outcome)) ?s1"
    by (rule source_informer [OF source_start, where i = "Informer 0"]) (simp_all add: defs)
  then have "source_run ?a True ?s1" by simp
  then have "source_run ?a (True \<and> Val () = (Val () :: (go_error, unit) outcome)) ?s2"
    by (rule source_handler [where s = "\<lparr>cs_handler = 1, cs_predicates = []\<rparr>" and ctx = 0 and queue = 0])
      (simp add: defs)
  then have "source_run ?a True ?s2" by simp
  then have "source_run ?a (True \<and> Val () = (Val () :: (go_error, unit) outcome)) (snd (handleNewInformer ?a (Informer 1) ?s2))"
    by (rule source_informer [where i = "Informer 1"]) (simp_all add: defs)
  then show ?thesis by (simp add: sample_source_st_def defs)
qed

theorem source_connects_all_witness:
  "handlers_of sample_source_st (Informer 0) = handlers (cache_source sample_source_st) \<and>
   length (handlers (cache_source sample_source_st)) = 1"
  using source_connects_all [OF sample_source_run, of "Informer 0"]
  by (simp add: sample_source_st_def handleNewInformer_def cacheSettings_Start_def
      handleNewEventHandlerStart_def bind_def modify_def gets_def ret_def start_source_def
      sample_source_api_def newCacheSource_def Let_def)

end
