(* ===== verification/TrackingCache.thy ===== *)
theory TrackingCache
  imports CacheSource "HOL-Library.AList"
begin

text \<open>
  The tracking cache, \<open>managedcache/trackingcache.go\<close>. One goroutine, the loop of \<open>Start\<close>, owns
  the bookkeeping: which informers exist, who waits for the first synchronisation of which of them,
  and which waits are in flight. Callers send it closures (\<open>gvkRequestCh\<close>) and wait for the answer
  on a channel of their own; a goroutine per unsynchronised informer reports back on
  \<open>informerSyncCh\<close>; reflectors report watch errors.

  The record \<open>trackingCache\<close> has the bookkeeping of the struct and, of the runtime, what is observable
  of it: the values sent on every error channel, the stop channels that were closed, and the
  goroutines that wait for a synchronisation. Every closure of the source is a definition, and
  \<open>tc_step\<close> is one turn of the loop. A set of the source is a distinct list, its iteration order the
  parameter \<open>c_order\<close>. The wrapped \<open>cache.Cache\<close>, the REST mapper and the status of API errors are
  controller-runtime and client-go code: parameters in \<open>tc_env\<close>.
\<close>

section \<open>State\<close>

record AccessManagerKey =
  amk_GVK :: GroupVersionKind
  amk_Key :: ObjectKey
  amk_UID :: string

definition toAccessManagerKey :: "Object \<Rightarrow> AccessManagerKey" where
  "toAccessManagerKey owner =
    \<lparr>amk_GVK = GVK owner, amk_Key = ObjectKeyFromObject owner, amk_UID = GetUID owner\<rparr>"

type_synonym gvk_set = "GroupVersionKind list"

record 'w trackingCache =
  knownInformers :: gvk_set
  waitingForSync :: "GroupVersionKind \<rightharpoonup> nat list"
  cacheWaitInFlight :: "GroupVersionKind \<rightharpoonup> nat"
  watchesByUser :: "(AccessManagerKey \<times> gvk_set) list"
  answers :: "nat \<Rightarrow> go_error option list"
  closedStops :: "nat list"
  syncWaits :: "(GroupVersionKind \<times> Informer \<times> nat) list"
  nextErrCh :: nat
  nextStopCh :: nat
  tc_world :: 'w

record 'w tc_env =
  c_GetInformer :: "Object \<Rightarrow> ('w, go_error, Informer) eff"
  c_GetInformerForKind :: "GroupVersionKind \<Rightarrow> ('w, go_error, Informer) eff"
  c_RemoveInformer :: "Object \<Rightarrow> ('w, go_error, unit) eff"
  c_Get :: "ObjectKey \<Rightarrow> Object \<Rightarrow> ('w, go_error, Object) eff"
  c_List :: "GroupVersionKind \<Rightarrow> ('w, go_error, Object list) eff"
  c_HasSynced :: "Informer \<Rightarrow> 'w \<Rightarrow> bool"
  c_handleNewInformer :: "Informer \<Rightarrow> ('w, go_error, unit) eff"
  c_KindsFor :: "string \<times> string \<Rightarrow> go_error + GroupVersionKind list"
  c_StatusDetails :: "go_error \<Rightarrow> (string \<times> string) option option"
  c_order :: "gvk_set \<Rightarrow> gvk_set"

type_synonym ('w, 'a) tc_run = "('w trackingCache, go_error, 'a) eff"

definition on_world :: "('w, go_error, 'a) eff \<Rightarrow> ('w, 'a) tc_run" where
  "on_world m s = (case m (tc_world s) of (r, w) \<Rightarrow> (r, s\<lparr>tc_world := w\<rparr>))"

definition unstructured_of :: "GroupVersionKind \<Rightarrow> Object" where
  "unstructured_of gvk =
    \<lparr>repr = Unstructured, GVK = gvk, GetName = [], GetNamespace = [], GetGenerateName = [],
     GetUID = [], GetGeneration = 0, GetResourceVersion = [], GetLabels = None,
     GetAnnotations = None, GetFinalizers = [], GetOwnerReferences = [], GetManagedFields = [],
     content = JNull\<rparr>"

definition set_insert :: "'a \<Rightarrow> 'a list \<Rightarrow> 'a list" where
  "set_insert x xs = (if x \<in> set xs then xs else xs @ [x])"

lemma set_insert_simps [simp]:
  "set (set_insert x xs) = insert x (set xs)" "distinct (set_insert x xs) = distinct xs"
  by (auto simp: set_insert_def)

definition newTrackingCache_state :: "'w \<Rightarrow> 'w trackingCache" where
  "newTrackingCache_state w =
    \<lparr>knownInformers = [], waitingForSync = Map.empty, cacheWaitInFlight = Map.empty,
     watchesByUser = [], answers = (\<lambda>_. []), closedStops = [], syncWaits = [],
     nextErrCh = 0, nextStopCh = 0, tc_world = w\<rparr>"

text \<open>\<open>newCache\<close> is \<open>cache.New\<close>. The watch error handler it is given forwards to
  \<open>cacheWatchErrorCh\<close> only API errors that have details.\<close>

definition newTrackingCache :: "(go_error + 'w) \<Rightarrow> 'w trackingCache go" where
  "newTrackingCache newCache =
    (case newCache of Inl err \<Rightarrow> Fail err | Inr w \<Rightarrow> Val (newTrackingCache_state w))"

definition forwards_watch_error :: "'w tc_env \<Rightarrow> go_error \<Rightarrow> bool" where
  "forwards_watch_error env err =
    (case c_StatusDetails env err of Some (Some d) \<Rightarrow> True | _ \<Rightarrow> False)"

section \<open>The control loop\<close>

text \<open>A send on an error channel. The channel has room for one value; that the room is there is
  part of the invariant below, so the loop never blocks on it.\<close>

definition send_answer :: "nat \<Rightarrow> go_error option \<Rightarrow> ('w, unit) tc_run" where
  "send_answer ch r = modify (\<lambda>s. s\<lparr>answers := (answers s)(ch := answers s ch @ [r])\<rparr>)"

fun answer_all :: "nat list \<Rightarrow> go_error option \<Rightarrow> ('w, unit) tc_run" where
  "answer_all [] r = ret ()"
| "answer_all (ch # chs) r = bind (send_answer ch r) (\<lambda>_. answer_all chs r)"

definition close_stop :: "nat \<Rightarrow> ('w, unit) tc_run" where
  "close_stop st s =
    (if st \<in> set (closedStops s) then (Panics ''close of closed channel'', s)
     else (Val (), s\<lparr>closedStops := st # closedStops s\<rparr>))"

definition waiters :: "'w trackingCache \<Rightarrow> GroupVersionKind \<Rightarrow> nat list" where
  "waiters s gvk = (case waitingForSync s gvk of None \<Rightarrow> [] | Some chs \<Rightarrow> chs)"

text \<open>The branch of \<open>Start\<close> that receives from \<open>informerSyncCh\<close>.\<close>

definition handle_sync :: "GroupVersionKind \<Rightarrow> go_error option \<Rightarrow> ('w, unit) tc_run" where
  "handle_sync gvk err =
    bind (gets (\<lambda>s. waiters s gvk)) (\<lambda>chs.
    bind (answer_all chs err) (\<lambda>_.
      modify (\<lambda>s. s\<lparr>waitingForSync := (waitingForSync s)(gvk := None),
                     cacheWaitInFlight := (cacheWaitInFlight s)(gvk := None)\<rparr>)))"

definition register_informer :: "'w tc_env \<Rightarrow> GroupVersionKind \<Rightarrow> Informer \<Rightarrow> ('w, unit) tc_run" where
  "register_informer env gvk i =
    bind (gets (\<lambda>s. gvk \<in> set (knownInformers s))) (\<lambda>known.
      if known then ret ()
      else bind (modify (\<lambda>s. s\<lparr>knownInformers := set_insert gvk (knownInformers s)\<rparr>)) (\<lambda>_.
             on_world (c_handleNewInformer env i)))"

definition wait_for_sync :: "GroupVersionKind \<Rightarrow> Informer \<Rightarrow> nat \<Rightarrow> ('w, unit) tc_run" where
  "wait_for_sync gvk i errCh =
    modify (\<lambda>s. s\<lparr>waitingForSync := (waitingForSync s)(gvk \<mapsto> [errCh]),
                   cacheWaitInFlight := (cacheWaitInFlight s)(gvk \<mapsto> nextStopCh s),
                   syncWaits := syncWaits s @ [(gvk, i, nextStopCh s)],
                   nextStopCh := Suc (nextStopCh s)\<rparr>)"

text \<open>The closure of \<open>ensureCacheSyncForGVK\<close>.\<close>

definition ensure_do :: "'w tc_env \<Rightarrow> GroupVersionKind \<Rightarrow> nat \<Rightarrow> ('w, unit) tc_run" where
  "ensure_do env gvk errCh =
    bind (gets (\<lambda>s. waitingForSync s gvk)) (\<lambda>waiting.
      case waiting of
        Some chs \<Rightarrow>
          modify (\<lambda>s. s\<lparr>waitingForSync := (waitingForSync s)(gvk \<mapsto> chs @ [errCh])\<rparr>)
      | None \<Rightarrow>
          attempt (on_world (c_GetInformer env (unstructured_of gvk)))
            (\<lambda>err. send_answer errCh (Some err))
            (\<lambda>i. attempt (register_informer env gvk i)
                    (\<lambda>err. send_answer errCh (Some err))
                    (\<lambda>_. bind (gets (\<lambda>s. c_HasSynced env i (tc_world s))) (\<lambda>synced.
                           if synced then send_answer errCh None
                           else wait_for_sync gvk i errCh))))"

definition stopInformer :: "'w tc_env \<Rightarrow> GroupVersionKind \<Rightarrow> go_error option \<Rightarrow> ('w, unit) tc_run" where
  "stopInformer env gvk cause =
    bind (on_world (c_RemoveInformer env (unstructured_of gvk))) (\<lambda>_.
    bind (gets (\<lambda>s. waiters s gvk)) (\<lambda>chs.
    bind (answer_all chs cause) (\<lambda>_.
    bind (modify (\<lambda>s. s\<lparr>waitingForSync := (waitingForSync s)(gvk := None)\<rparr>)) (\<lambda>_.
    bind (gets (\<lambda>s. cacheWaitInFlight s gvk)) (\<lambda>inFlight.
    bind (case inFlight of
            None \<Rightarrow> ret ()
          | Some st \<Rightarrow>
              bind (close_stop st) (\<lambda>_.
                modify (\<lambda>s. s\<lparr>cacheWaitInFlight := (cacheWaitInFlight s)(gvk := None)\<rparr>))) (\<lambda>_.
      modify (\<lambda>s. s\<lparr>knownInformers := removeAll gvk (knownInformers s)\<rparr>)))))))"

text \<open>The closure of \<open>RemoveInformer\<close>: the cause it passes on is the error it has just found to be
  nil.\<close>

definition removeInformer_do ::
  "'w tc_env \<Rightarrow> Object \<Rightarrow> GroupVersionKind \<Rightarrow> nat \<Rightarrow> ('w, unit) tc_run" where
  "removeInformer_do env obj gvk errCh =
    attempt (on_world (c_RemoveInformer env obj))
      (\<lambda>err. send_answer errCh (Some err))
      (\<lambda>_. attempt (stopInformer env gvk None)
             (\<lambda>err. send_answer errCh (Some err))
             (\<lambda>_. send_answer errCh None))"

text \<open>The loop and the closure of \<open>removeOtherInformers\<close>.\<close>

fun stop_informers :: "'w tc_env \<Rightarrow> GroupVersionKind list \<Rightarrow> go_error list \<Rightarrow> ('w, go_error list) tc_run" where
  "stop_informers env [] errs = ret errs"
| "stop_informers env (gvk # gvks) errs =
    attempt (bind (on_world (c_RemoveInformer env (unstructured_of gvk))) (\<lambda>_. stopInformer env gvk None))
      (\<lambda>err. stop_informers env gvks (errs @ [err]))
      (\<lambda>_. stop_informers env gvks errs)"

definition removeOther_do :: "'w tc_env \<Rightarrow> gvk_set \<Rightarrow> nat \<Rightarrow> ('w, unit) tc_run" where
  "removeOther_do env gvksToKeep errCh =
    bind (gets (\<lambda>s. c_order env (filter (\<lambda>g. g \<notin> set gvksToKeep) (knownInformers s)))) (\<lambda>gvksToStop.
    bind (stop_informers env gvksToStop []) (\<lambda>errs. send_answer errCh (errors_Join errs)))"

fun stop_all :: "'w tc_env \<Rightarrow> GroupVersionKind list \<Rightarrow> go_error option \<Rightarrow> ('w, unit) tc_run" where
  "stop_all env [] cause = ret ()"
| "stop_all env (gvk # gvks) cause =
    bind (stopInformer env gvk cause) (\<lambda>_. stop_all env gvks cause)"

definition handleCacheWatchError :: "'w tc_env \<Rightarrow> go_error \<Rightarrow> ('w, unit) tc_run" where
  "handleCacheWatchError env err =
    (case c_StatusDetails env err of
       None \<Rightarrow> ret ()
     | Some None \<Rightarrow> ret ()
     | Some (Some details) \<Rightarrow>
         (case c_KindsFor env details of
            Inl rmerr \<Rightarrow> fail rmerr
          | Inr errorGVKs \<Rightarrow> stop_all env errorGVKs (Some err)))"

section \<open>Turns of the loop\<close>

definition new_errCh :: "('w, nat) tc_run" where
  "new_errCh s = (Val (nextErrCh s), s\<lparr>nextErrCh := Suc (nextErrCh s)\<rparr>)"

text \<open>A request: the caller makes a channel and the loop runs the closure.\<close>

definition request_turn :: "(nat \<Rightarrow> ('w, unit) tc_run) \<Rightarrow> ('w, nat) tc_run" where
  "request_turn closure = bind new_errCh (\<lambda>ch. bind (closure ch) (\<lambda>_. ret ch))"

text \<open>A goroutine that waits for a synchronisation ends when the informer has synced or its stop
  channel is closed, and the loop receives what it reports.\<close>

definition end_wait ::
  "GroupVersionKind \<times> Informer \<times> nat \<Rightarrow> go_error option \<Rightarrow> ('w, unit) tc_run" where
  "end_wait g err =
    bind (modify (\<lambda>s. s\<lparr>syncWaits := remove1 g (syncWaits s)\<rparr>)) (\<lambda>_. handle_sync (fst g) err)"

inductive tc_step :: "'w tc_env \<Rightarrow> 'w trackingCache \<Rightarrow> 'w trackingCache \<Rightarrow> bool" for env where
  step_ensure: "request_turn (ensure_do env gvk) s = (Val ch, s') \<Longrightarrow> tc_step env s s'"
| step_remove: "request_turn (removeInformer_do env obj gvk) s = (Val ch, s') \<Longrightarrow> tc_step env s s'"
| step_remove_others: "request_turn (removeOther_do env gvks) s = (Val ch, s') \<Longrightarrow> tc_step env s s'"
| step_watch_error: "handleCacheWatchError env err s = (Val (), s') \<Longrightarrow> tc_step env s s'"
| step_synced: "(gvk, i, st) \<in> set (syncWaits s) \<Longrightarrow> c_HasSynced env i (tc_world s) \<Longrightarrow>
    end_wait (gvk, i, st) None s = (Val (), s') \<Longrightarrow> tc_step env s s'"
| step_canceled: "(gvk, i, st) \<in> set (syncWaits s) \<Longrightarrow> st \<in> set (closedStops s) \<Longrightarrow>
    end_wait (gvk, i, st) (Some ContextCanceled) s = (Val (), s') \<Longrightarrow> tc_step env s s'"
| step_watches: "tc_step env s (s\<lparr>watchesByUser := ws\<rparr>)"
| step_world: "tc_step env s (s\<lparr>tc_world := w\<rparr>)"

inductive tc_reachable :: "'w tc_env \<Rightarrow> 'w trackingCache \<Rightarrow> bool" for env where
  reach_start: "tc_reachable env (newTrackingCache_state w)"
| reach_step: "tc_reachable env s \<Longrightarrow> tc_step env s s' \<Longrightarrow> tc_reachable env s'"

section \<open>The callers\<close>

text \<open>What a caller does while it waits: other turns of the loop happen, until there is an answer on
  its channel or its context is done. It is the parameter \<open>await\<close>.\<close>

type_synonym 'w await = "nat \<Rightarrow> ('w, unit) tc_run"

definition request :: "'w await \<Rightarrow> (nat \<Rightarrow> ('w, unit) tc_run) \<Rightarrow> ('w, unit) tc_run" where
  "request await closure = bind (request_turn closure) await"

definition ensureCacheSyncForGVK ::
  "'w tc_env \<Rightarrow> 'w await \<Rightarrow> GroupVersionKind \<Rightarrow> ('w, unit) tc_run" where
  "ensureCacheSyncForGVK env await gvk = request await (ensure_do env gvk)"

definition ensureCacheSync ::
  "apimachinery \<Rightarrow> 'w tc_env \<Rightarrow> 'w await \<Rightarrow> Object \<Rightarrow> ('w, unit) tc_run" where
  "ensureCacheSync api env await obj =
    (case GVKForObject api obj of
       Inl err \<Rightarrow> fail err
     | Inr gvk \<Rightarrow> wrap_err (Wrap ''ensuring cache sync for GVK'') (ensureCacheSyncForGVK env await gvk))"

definition TrimSuffix :: "string \<Rightarrow> string \<Rightarrow> string" where
  "TrimSuffix s suf =
    (if suf = drop (length s - length suf) s then take (length s - length suf) s else s)"

definition ensureCacheSyncList ::
  "'w tc_env \<Rightarrow> 'w await \<Rightarrow> go_error + GroupVersionKind \<Rightarrow> ('w, unit) tc_run" where
  "ensureCacheSyncList env await listGVK =
    (case listGVK of
       Inl err \<Rightarrow> fail err
     | Inr gvk \<Rightarrow> wrap_err (Wrap ''ensuring cache sync for (list) GVK'')
         (ensureCacheSyncForGVK env await (gvk\<lparr>Kind := TrimSuffix (Kind gvk) ''List''\<rparr>)))"

definition TrackingCache_Get ::
  "apimachinery \<Rightarrow> 'w tc_env \<Rightarrow> 'w await \<Rightarrow> ObjectKey \<Rightarrow> Object \<Rightarrow> ('w, Object) tc_run" where
  "TrackingCache_Get api env await key obj =
    bind (ensureCacheSync api env await obj) (\<lambda>_.
      wrap_err (Wrap ''getting object'') (on_world (c_Get env key obj)))"

text \<open>\<open>listGVK\<close> is \<open>apiutil.GVKForObject\<close> of the list.\<close>

definition TrackingCache_List ::
  "'w tc_env \<Rightarrow> 'w await \<Rightarrow> go_error + GroupVersionKind \<Rightarrow> ('w, Object list) tc_run" where
  "TrackingCache_List env await listGVK =
    bind (ensureCacheSyncList env await listGVK) (\<lambda>_.
      case listGVK of Inl err \<Rightarrow> fail err | Inr gvk \<Rightarrow> on_world (c_List env gvk))"

definition TrackingCache_GetInformer ::
  "apimachinery \<Rightarrow> 'w tc_env \<Rightarrow> 'w await \<Rightarrow> Object \<Rightarrow> ('w, Informer) tc_run" where
  "TrackingCache_GetInformer api env await obj =
    bind (ensureCacheSync api env await obj) (\<lambda>_. on_world (c_GetInformer env obj))"

definition TrackingCache_GetInformerForKind ::
  "'w tc_env \<Rightarrow> 'w await \<Rightarrow> GroupVersionKind \<Rightarrow> ('w, Informer) tc_run" where
  "TrackingCache_GetInformerForKind env await gvk =
    bind (ensureCacheSyncForGVK env await gvk) (\<lambda>_. on_world (c_GetInformerForKind env gvk))"

definition TrackingCache_RemoveInformer ::
  "apimachinery \<Rightarrow> 'w tc_env \<Rightarrow> 'w await \<Rightarrow> Object \<Rightarrow> ('w, unit) tc_run" where
  "TrackingCache_RemoveInformer api env await obj =
    (case GVKForObject api obj of
       Inl err \<Rightarrow> fail err
     | Inr gvk \<Rightarrow> request await (removeInformer_do env obj gvk))"

definition removeOtherInformers :: "'w tc_env \<Rightarrow> 'w await \<Rightarrow> gvk_set \<Rightarrow> ('w, unit) tc_run" where
  "removeOtherInformers env await gvks = request await (removeOther_do env gvks)"

definition RemoveOtherInformers :: "'w tc_env \<Rightarrow> 'w await \<Rightarrow> gvk_set \<Rightarrow> ('w, unit) tc_run" where
  "RemoveOtherInformers env await gvks = removeOtherInformers env await gvks"

definition TrackingCache_GetGVKs :: "'w tc_env \<Rightarrow> 'w trackingCache \<Rightarrow> GroupVersionKind list" where
  "TrackingCache_GetGVKs env s = c_order env (knownInformers s)"

definition in_use :: "(AccessManagerKey \<times> gvk_set) list \<Rightarrow> gvk_set" where
  "in_use users = fold (\<lambda>(u, gvks) acc. fold set_insert gvks acc) users []"

definition gcUnusedGVK :: "'w tc_env \<Rightarrow> 'w await \<Rightarrow> ('w, unit) tc_run" where
  "gcUnusedGVK env await =
    bind (gets (\<lambda>s. in_use (watchesByUser s))) (\<lambda>gvksInUse. removeOtherInformers env await gvksInUse)"

text \<open>\<open>watch\<close> asks for every kind and waits for all answers; the error group reports one of the
  errors, here the first in the order of the requests.\<close>

fun watch :: "'w tc_env \<Rightarrow> 'w await \<Rightarrow> GroupVersionKind list \<Rightarrow> ('w, unit) tc_run" where
  "watch env await [] = ret ()"
| "watch env await (gvk # gvks) =
    attempt (ensureCacheSyncForGVK env await gvk)
      (\<lambda>err. attempt (watch env await gvks) (\<lambda>_. fail err) (\<lambda>_. fail err))
      (\<lambda>_. watch env await gvks)"

definition TrackingCache_Watch ::
  "'w tc_env \<Rightarrow> 'w await \<Rightarrow> Object \<Rightarrow> gvk_set \<Rightarrow> ('w, unit) tc_run" where
  "TrackingCache_Watch env await user gvks =
    bind (watch env await (c_order env gvks)) (\<lambda>_.
    bind (modify (\<lambda>s. s\<lparr>watchesByUser := AList.update (toAccessManagerKey user) gvks (watchesByUser s)\<rparr>)) (\<lambda>_.
      gcUnusedGVK env await))"

definition TrackingCache_Free :: "'w tc_env \<Rightarrow> 'w await \<Rightarrow> Object \<Rightarrow> ('w, unit) tc_run" where
  "TrackingCache_Free env await user =
    bind (modify (\<lambda>s. s\<lparr>watchesByUser := AList.delete (toAccessManagerKey user) (watchesByUser s)\<rparr>)) (\<lambda>_.
      gcUnusedGVK env await)"

fun count_objects ::
  "'w tc_env \<Rightarrow> GroupVersionKind list \<Rightarrow> (GroupVersionKind \<times> nat) list \<Rightarrow>
    ('w, (GroupVersionKind \<times> nat) list) tc_run" where
  "count_objects env [] objects = ret objects"
| "count_objects env (gvk # gvks) objects =
    bind (wrap_err (Wrap ''listing objects for GVK'')
            (on_world (c_List env (gvk\<lparr>Kind := Kind gvk @ ''List''\<rparr>)))) (\<lambda>items.
      count_objects env gvks (AList.update gvk (length items) objects))"

definition GetObjectsPerInformer :: "'w tc_env \<Rightarrow> ('w, (GroupVersionKind \<times> nat) list) tc_run" where
  "GetObjectsPerInformer env =
    bind (gets (\<lambda>s. c_order env (knownInformers s))) (\<lambda>gvks. count_objects env gvks [])"

section \<open>The invariant of the bookkeeping\<close>

text \<open>\<open>P\<close> are the channels whose request is being worked on: made, but neither queued nor answered.\<close>

definition answers_inv :: "nat set \<Rightarrow> 'w trackingCache \<Rightarrow> bool" where
  "answers_inv P s \<longleftrightarrow>
    (\<forall>ch. length (answers s ch) \<le> 1) \<and>
    (\<forall>ch. nextErrCh s \<le> ch \<or> ch \<in> P \<longrightarrow> answers s ch = []) \<and>
    (\<forall>ch\<in>P. ch < nextErrCh s) \<and>
    (\<forall>ch. ch < nextErrCh s \<longrightarrow> ch \<notin> P \<longrightarrow> answers s ch = [] \<longrightarrow> (\<exists>g. ch \<in> set (waiters s g)))"

definition queue_inv :: "nat set \<Rightarrow> 'w trackingCache \<Rightarrow> bool" where
  "queue_inv P s \<longleftrightarrow>
    (\<forall>g. distinct (waiters s g)) \<and>
    (\<forall>g ch. ch \<in> set (waiters s g) \<longrightarrow> ch < nextErrCh s \<and> answers s ch = [] \<and> ch \<notin> P) \<and>
    (\<forall>g g' ch. g \<noteq> g' \<longrightarrow> ch \<in> set (waiters s g) \<longrightarrow> ch \<notin> set (waiters s g'))"

definition informer_inv :: "'w trackingCache \<Rightarrow> bool" where
  "informer_inv s \<longleftrightarrow> distinct (knownInformers s) \<and>
    (\<forall>g. (waitingForSync s g = None) = (cacheWaitInFlight s g = None)) \<and>
    (\<forall>g st. cacheWaitInFlight s g = Some st \<longrightarrow> g \<in> set (knownInformers s))"

definition flight_inv :: "'w trackingCache \<Rightarrow> bool" where
  "flight_inv s \<longleftrightarrow>
    (\<forall>g st. cacheWaitInFlight s g = Some st \<longrightarrow>
       st < nextStopCh s \<and> st \<notin> set (closedStops s) \<and> (\<exists>i. (g, i, st) \<in> set (syncWaits s))) \<and>
    inj_on (cacheWaitInFlight s) (dom (cacheWaitInFlight s)) \<and>
    (\<forall>st\<in>set (closedStops s). st < nextStopCh s)"

definition tc_inv :: "nat set \<Rightarrow> 'w trackingCache \<Rightarrow> bool" where
  "tc_inv P s \<longleftrightarrow> answers_inv P s \<and> queue_inv P s \<and> informer_inv s \<and> flight_inv s"

lemmas tc_inv_defs = tc_inv_def answers_inv_def queue_inv_def informer_inv_def flight_inv_def

lemma tc_inv_world [simp]: "tc_inv P (s\<lparr>tc_world := w\<rparr>) = tc_inv P s"
  by (simp add: tc_inv_defs waiters_def)

lemma tc_inv_watches [simp]: "tc_inv P (s\<lparr>watchesByUser := ws\<rparr>) = tc_inv P s"
  by (simp add: tc_inv_defs waiters_def)

lemma tc_inv_start: "tc_inv {} (newTrackingCache_state w)"
  by (simp add: tc_inv_defs newTrackingCache_state_def waiters_def)

lemma on_world_Val: "on_world m s = (Val x, s') \<Longrightarrow> \<exists>w. m (tc_world s) = (Val x, w) \<and> s' = s\<lparr>tc_world := w\<rparr>"
  by (auto simp: on_world_def split: prod.splits)

lemma on_world_cases:
  obtains w r where "on_world m s = (r, s\<lparr>tc_world := w\<rparr>)" "m (tc_world s) = (r, w)"
  by (cases "m (tc_world s)") (auto simp: on_world_def)

lemma answer_all_eq:
  "distinct chs \<Longrightarrow> answer_all chs r s =
    (Val (), s\<lparr>answers := (\<lambda>ch. answers s ch @ (if ch \<in> set chs then [r] else []))\<rparr>)"
  by (induction chs arbitrary: s) (auto simp: ret_def bind_def send_answer_def modify_def fun_eq_iff)

text \<open>Answering the queue of one kind and forgetting it.\<close>

definition flush :: "GroupVersionKind \<Rightarrow> go_error option \<Rightarrow> 'w trackingCache \<Rightarrow> 'w trackingCache" where
  "flush gvk r s =
    s\<lparr>answers := (\<lambda>ch. answers s ch @ (if ch \<in> set (waiters s gvk) then [r] else [])),
      waitingForSync := (waitingForSync s)(gvk := None),
      cacheWaitInFlight := (cacheWaitInFlight s)(gvk := None)\<rparr>"

lemma waiters_flush [simp]: "waiters (flush gvk r s) g = (if g = gvk then [] else waiters s g)"
  by (simp add: waiters_def flush_def)

lemma flush_frame [simp]:
  "nextErrCh (flush gvk r s) = nextErrCh s" "nextStopCh (flush gvk r s) = nextStopCh s"
  "knownInformers (flush gvk r s) = knownInformers s" "syncWaits (flush gvk r s) = syncWaits s"
  "closedStops (flush gvk r s) = closedStops s" "watchesByUser (flush gvk r s) = watchesByUser s"
  "waitingForSync (flush gvk r s) = (waitingForSync s)(gvk := None)"
  "cacheWaitInFlight (flush gvk r s) = (cacheWaitInFlight s)(gvk := None)"
  "tc_world (flush gvk r s) = tc_world s"
  by (simp_all add: flush_def)

lemma flush_answers: "tc_inv P s \<Longrightarrow> answers (flush gvk r s) ch = (if ch \<in> set (waiters s gvk) then [r] else answers s ch)"
  by (auto simp: flush_def tc_inv_defs)

lemma tc_inv_flush: "tc_inv P s \<Longrightarrow> tc_inv P (flush gvk r s)"
proof -
  assume inv: "tc_inv P s"
  note a = flush_answers [OF inv]
  have "answers_inv P (flush gvk r s)"
    unfolding answers_inv_def a waiters_flush flush_frame
  proof (intro conjI allI impI)
    fix ch
    assume "ch < nextErrCh s" "ch \<notin> P" "(if ch \<in> set (waiters s gvk) then [r] else answers s ch) = []"
    with inv obtain g where "ch \<in> set (waiters s g)" "ch \<notin> set (waiters s gvk)"
      by (auto simp: tc_inv_def answers_inv_def split: if_splits)
    then show "\<exists>g. ch \<in> set (if g = gvk then [] else waiters s g)"
      by (intro exI [of _ g]) auto
  qed (use inv in \<open>auto simp: tc_inv_defs dest: leD\<close>)
  moreover have "ch \<notin> set (waiters s gvk)" if "ch \<in> set (waiters s g)" "g \<noteq> gvk" for g ch
    using inv that by (auto simp: tc_inv_def queue_inv_def)
  then have "queue_inv P (flush gvk r s)"
    using inv unfolding queue_inv_def a by (auto simp: tc_inv_def queue_inv_def)
  moreover have "informer_inv (flush gvk r s)"
    using inv by (auto simp: tc_inv_def informer_inv_def)
  moreover have "flight_inv (flush gvk r s)"
    using inv by (auto simp: tc_inv_def flight_inv_def inj_on_def)
  ultimately show ?thesis by (simp add: tc_inv_def)
qed

lemma tc_inv_distinct: "tc_inv P s \<Longrightarrow> distinct (waiters s gvk)"
  by (simp add: tc_inv_defs)

lemma handle_sync_eq:
  assumes "tc_inv P s"
  shows "handle_sync gvk r s = (Val (), flush gvk r s)"
  using tc_inv_distinct [OF assms, of gvk]
  by (simp add: handle_sync_def bind_def gets_def modify_def answer_all_eq flush_def)

text \<open>The effect of \<open>stopInformer\<close> when the wrapped cache lets go of the informer.\<close>

definition stopped ::
  "GroupVersionKind \<Rightarrow> go_error option \<Rightarrow> 'w \<Rightarrow> 'w trackingCache \<Rightarrow> 'w trackingCache" where
  "stopped gvk cause w s = (flush gvk cause s)\<lparr>tc_world := w,
     closedStops := (case cacheWaitInFlight s gvk of None \<Rightarrow> [] | Some st \<Rightarrow> [st]) @ closedStops s,
     knownInformers := removeAll gvk (knownInformers s)\<rparr>"

lemma stopInformer_eq:
  assumes "tc_inv P s" and rm: "c_RemoveInformer env (unstructured_of gvk) (tc_world s) = (Val (), w)"
  shows "stopInformer env gvk cause s = (Val (), stopped gvk cause w s)"
proof -
  have d: "distinct (waiters s gvk)" and w: "waiters (s\<lparr>tc_world := w\<rparr>) gvk = waiters s gvk"
    using assms(1) by (simp_all add: tc_inv_defs waiters_def)
  show ?thesis
  proof (cases "cacheWaitInFlight s gvk")
    case None
    then have "(cacheWaitInFlight s)(gvk := None) = cacheWaitInFlight s" by auto
    with None show ?thesis
      by (simp add: stopInformer_def bind_def gets_def modify_def ret_def on_world_def rm w
          answer_all_eq [OF d] stopped_def flush_def)
  next
    case (Some st)
    with assms(1) have "st \<notin> set (closedStops s)" by (auto simp: tc_inv_defs)
    with Some show ?thesis
      by (simp add: stopInformer_def bind_def gets_def modify_def ret_def on_world_def rm w
          answer_all_eq [OF d] stopped_def flush_def close_stop_def)
  qed
qed

lemma tc_inv_stopped:
  assumes "tc_inv P s"
  shows "tc_inv P (stopped gvk cause w s)"
proof -
  have f: "tc_inv P (flush gvk cause s)" by (rule tc_inv_flush [OF assms])
  have "flight_inv (stopped gvk cause w s)"
  proof (cases "cacheWaitInFlight s gvk")
    case None
    with f show ?thesis by (simp add: tc_inv_def flight_inv_def stopped_def)
  next
    case (Some st)
    with assms have "cacheWaitInFlight s g \<noteq> Some st" if "g \<noteq> gvk" for g
      using that inj_onD [of "cacheWaitInFlight s" "dom (cacheWaitInFlight s)" g gvk]
      by (auto simp: tc_inv_def flight_inv_def)
    with assms f Some show ?thesis
      by (simp add: tc_inv_def flight_inv_def stopped_def) blast
  qed
  moreover have "informer_inv (stopped gvk cause w s)"
    using f by (auto simp: tc_inv_def informer_inv_def stopped_def distinct_removeAll)
  moreover have "waiters (stopped gvk cause w s) = waiters (flush gvk cause s)"
    by (simp add: stopped_def waiters_def fun_eq_iff)
  then have "answers_inv P (stopped gvk cause w s)" "queue_inv P (stopped gvk cause w s)"
    using f by (auto simp: tc_inv_def answers_inv_def queue_inv_def stopped_def)
  ultimately show ?thesis by (simp add: tc_inv_def)
qed

lemma stopInformer_cases:
  assumes "tc_inv P s" "stopInformer env gvk cause s = (r, s')"
  obtains (stopped) w where "c_RemoveInformer env (unstructured_of gvk) (tc_world s) = (Val (), w)"
      "r = Val ()" "s' = stopped gvk cause w s"
  | (failed) w where "c_RemoveInformer env (unstructured_of gvk) (tc_world s) = (r, w)"
      "r \<noteq> Val ()" "s' = s\<lparr>tc_world := w\<rparr>"
proof (cases "c_RemoveInformer env (unstructured_of gvk) (tc_world s)")
  case (Pair q w)
  show ?thesis
  proof (cases "q = Val ()")
    case True
    with Pair stopInformer_eq [OF assms(1), of env gvk w cause] assms(2) stopped show ?thesis by auto
  next
    case False
    with Pair assms(2) failed show ?thesis
      by (cases q) (auto simp: stopInformer_def bind_def on_world_def)
  qed
qed

lemma stopInformer_inv:
  assumes "tc_inv P s" "stopInformer env gvk cause s = (r, s')"
  shows "tc_inv P s'"
  using assms by (rule stopInformer_cases) (simp_all add: assms(1) tc_inv_stopped)

lemma send_answer_inv:
  assumes "tc_inv (insert ch P) s" "ch \<notin> P" "send_answer ch r s = (q, s')"
  shows "q = Val () \<and> tc_inv P s'"
proof -
  from assms(3) have q: "q = Val ()" and s': "s' = s\<lparr>answers := (answers s)(ch := answers s ch @ [r])\<rparr>"
    by (simp_all add: send_answer_def modify_def)
  have w: "waiters s' = waiters s" by (simp add: s' waiters_def fun_eq_iff)
  have "answers_inv P s'" "queue_inv P s'"
    using assms(1,2) unfolding answers_inv_def queue_inv_def w by (auto simp: tc_inv_defs s')
  moreover have "informer_inv s'" "flight_inv s'"
    using assms(1) by (auto simp: tc_inv_def informer_inv_def flight_inv_def s')
  ultimately show ?thesis by (simp add: tc_inv_def q)
qed

lemma send_last_answer_inv:
  "tc_inv {ch} s \<Longrightarrow> send_answer ch r s = (q, s') \<Longrightarrow> q = Val () \<and> tc_inv {} s'"
  using send_answer_inv [where P = "{}"] by blast

lemma new_errCh_inv:
  assumes "tc_inv {} s"
  shows "tc_inv {nextErrCh s} (s\<lparr>nextErrCh := Suc (nextErrCh s)\<rparr>)"
proof -
  let ?s = "s\<lparr>nextErrCh := Suc (nextErrCh s)\<rparr>"
  have w: "waiters ?s = waiters s" by (simp add: waiters_def fun_eq_iff)
  have "answers_inv {nextErrCh s} ?s" "queue_inv {nextErrCh s} ?s"
    using assms unfolding answers_inv_def queue_inv_def w
    by (auto simp: tc_inv_defs less_Suc_eq)
  moreover have "informer_inv ?s" "flight_inv ?s"
    using assms by (auto simp: tc_inv_def informer_inv_def flight_inv_def)
  ultimately show ?thesis by (simp add: tc_inv_def)
qed

lemma register_informer_inv:
  assumes "tc_inv P s" "register_informer env gvk i s = (r, s')"
  shows "tc_inv P s' \<and> waitingForSync s' = waitingForSync s \<and> gvk \<in> set (knownInformers s')"
proof (cases "gvk \<in> set (knownInformers s)")
  case True
  with assms show ?thesis by (simp add: register_informer_def bind_def gets_def ret_def)
next
  case False
  let ?s = "s\<lparr>knownInformers := knownInformers s @ [gvk]\<rparr>"
  have "waiters ?s = waiters s" by (simp add: waiters_def fun_eq_iff)
  with assms(1) False have "tc_inv P ?s" by (auto simp: tc_inv_defs)
  moreover obtain w where "s' = ?s\<lparr>tc_world := w\<rparr>"
    using assms(2) False
    by (auto simp: register_informer_def bind_def gets_def modify_def set_insert_def on_world_def
        split: prod.splits)
  ultimately show ?thesis by simp
qed

lemma wait_for_sync_inv:
  assumes "tc_inv (insert ch P) s" "ch \<notin> P" "waitingForSync s gvk = None" "gvk \<in> set (knownInformers s)"
    and "wait_for_sync gvk i ch s = (r, s')"
  shows "r = Val () \<and> tc_inv P s'"
proof -
  let ?st = "nextStopCh s"
  from assms(5) have r: "r = Val ()" and s': "s' = s\<lparr>waitingForSync := (waitingForSync s)(gvk \<mapsto> [ch]),
      cacheWaitInFlight := (cacheWaitInFlight s)(gvk \<mapsto> ?st),
      syncWaits := syncWaits s @ [(gvk, i, ?st)], nextStopCh := Suc ?st\<rparr>"
    by (simp_all add: wait_for_sync_def modify_def)
  have w: "waiters s' g = (if g = gvk then [ch] else waiters s g)" for g
    by (simp add: s' waiters_def)
  have "ch \<notin> set (waiters s g)" for g
    using assms(1) by (auto simp: tc_inv_def queue_inv_def)
  then have "queue_inv P s'"
    using assms(1,2) unfolding queue_inv_def w by (auto simp: tc_inv_defs s')
  moreover have "answers_inv P s'"
    unfolding answers_inv_def w
  proof (intro conjI allI impI)
    fix c
    assume "c < nextErrCh s'" "c \<notin> P" "answers s' c = []"
    with assms(1) have "c = ch \<or> (\<exists>g. c \<in> set (waiters s g))"
      by (auto simp: tc_inv_def answers_inv_def s')
    moreover have "waiters s gvk = []" using assms(3) by (simp add: waiters_def)
    ultimately show "\<exists>g. c \<in> set (if g = gvk then [ch] else waiters s g)"
      by (metis empty_iff empty_set list.set_intros(1))
  qed (use assms(1) in \<open>auto simp: tc_inv_defs s'\<close>)
  moreover have "informer_inv s'"
    using assms(1,4) by (auto simp: tc_inv_def informer_inv_def s')
  moreover have "cacheWaitInFlight s g \<noteq> Some ?st" for g
    using assms(1) by (force simp: tc_inv_def flight_inv_def)
  then have "flight_inv s'"
    using assms(1) by (fastforce simp: tc_inv_def flight_inv_def s' inj_on_def less_Suc_eq)
  ultimately show ?thesis by (simp add: tc_inv_def r)
qed

lemma queue_up_inv:
  assumes "tc_inv (insert ch P) s" "ch \<notin> P" "waitingForSync s gvk = Some chs"
  shows "tc_inv P (s\<lparr>waitingForSync := (waitingForSync s)(gvk \<mapsto> chs @ [ch])\<rparr>)"
proof -
  let ?s = "s\<lparr>waitingForSync := (waitingForSync s)(gvk \<mapsto> chs @ [ch])\<rparr>"
  have w: "waiters ?s g = (if g = gvk then waiters s g @ [ch] else waiters s g)" for g
    using assms(3) by (simp add: waiters_def)
  have "ch \<notin> set (waiters s g)" for g
    using assms(1) by (auto simp: tc_inv_def queue_inv_def)
  then have "queue_inv P ?s"
    using assms(1,2) unfolding queue_inv_def w by (auto simp: tc_inv_defs)
  moreover have "answers_inv P ?s"
    unfolding answers_inv_def w
  proof (intro conjI allI impI)
    fix c
    assume "c < nextErrCh ?s" "c \<notin> P" "answers ?s c = []"
    with assms(1) have "c = ch \<or> (\<exists>g. c \<in> set (waiters s g))"
      by (auto simp: tc_inv_def answers_inv_def)
    then show "\<exists>g. c \<in> set (if g = gvk then waiters s g @ [ch] else waiters s g)"
      by (metis Un_iff list.set_intros(1) set_append)
  qed (use assms(1) in \<open>auto simp: tc_inv_defs\<close>)
  moreover have "cacheWaitInFlight s gvk \<noteq> None"
    using assms(1,3) unfolding tc_inv_def informer_inv_def by (metis option.distinct(1))
  then have "informer_inv ?s" "flight_inv ?s"
    using assms(1) by (auto simp: tc_inv_def informer_inv_def flight_inv_def)
  ultimately show ?thesis by (simp add: tc_inv_def)
qed

text \<open>The calls into controller-runtime return; they do not panic.\<close>

definition env_calm :: "'w tc_env \<Rightarrow> bool" where
  "env_calm env \<longleftrightarrow>
    (\<forall>obj w. \<not> is_panic (fst (c_GetInformer env obj w))) \<and>
    (\<forall>obj w. \<not> is_panic (fst (c_RemoveInformer env obj w))) \<and>
    (\<forall>i w. \<not> is_panic (fst (c_handleNewInformer env i w)))"

lemma on_world_inv:
  "tc_inv P s \<Longrightarrow> on_world m s = (r, s') \<Longrightarrow> tc_inv P s' \<and> waitingForSync s' = waitingForSync s \<and>
    knownInformers s' = knownInformers s \<and> r = fst (m (tc_world s))"
  by (auto simp: on_world_def split: prod.splits)

lemma ensure_do_inv:
  assumes calm: "env_calm env" and inv: "tc_inv {ch} s" and run: "ensure_do env gvk ch s = (r, s')"
  shows "r = Val () \<and> tc_inv {} s'"
proof (cases "waitingForSync s gvk")
  case (Some chs)
  with run have "r = Val ()" "s' = s\<lparr>waitingForSync := (waitingForSync s)(gvk \<mapsto> chs @ [ch])\<rparr>"
    by (simp_all add: ensure_do_def bind_def gets_def modify_def)
  with queue_up_inv [OF inv _ Some] show ?thesis by simp
next
  case None
  obtain q s1 where q: "on_world (c_GetInformer env (unstructured_of gvk)) s = (q, s1)" by fastforce
  note s1 = on_world_inv [OF inv q]
  show ?thesis
  proof (cases q)
    case (Fail err)
    with run None q have "send_answer ch (Some err) s1 = (r, s')"
      by (simp add: ensure_do_def bind_def gets_def attempt_def)
    with s1 show ?thesis by (blast dest: send_last_answer_inv)
  next
    case (Panics m)
    moreover from calm have "\<not> is_panic (fst (c_GetInformer env (unstructured_of gvk) (tc_world s)))"
      by (simp add: env_calm_def)
    ultimately show ?thesis using s1 by auto
  next
    case (Val i)
    obtain q2 s2 where q2: "register_informer env gvk i s1 = (q2, s2)" by fastforce
    note s2 = register_informer_inv [OF conjunct1 [OF s1] q2]
    have "\<not> is_panic q2"
      using q2 calm by (auto simp: register_informer_def bind_def gets_def modify_def ret_def on_world_def
          env_calm_def split: if_splits prod.splits) (metis fst_conv)
    moreover have "tc_inv {} s' \<and> r = Val ()" if "q2 = Val ()"
    proof (cases "c_HasSynced env i (tc_world s2)")
      case True
      with run None q Val q2 that have "send_answer ch None s2 = (r, s')"
        by (simp add: ensure_do_def bind_def gets_def attempt_def)
      with s2 show ?thesis by (blast dest: send_last_answer_inv)
    next
      case False
      with run None q Val q2 that have "wait_for_sync gvk i ch s2 = (r, s')"
        by (simp add: ensure_do_def bind_def gets_def attempt_def)
      from wait_for_sync_inv [OF _ _ _ _ this, where P = "{}"] s1 s2 None show ?thesis by auto
    qed
    moreover have "tc_inv {} s' \<and> r = Val ()" if "q2 = Fail err" for err
    proof -
      from run None q Val q2 that have "send_answer ch (Some err) s2 = (r, s')"
        by (simp add: ensure_do_def bind_def gets_def attempt_def)
      with s2 show ?thesis by (blast dest: send_last_answer_inv)
    qed
    ultimately show ?thesis by (cases q2) auto
  qed
qed

lemma stopInformer_calm:
  assumes "env_calm env" "tc_inv P s" "stopInformer env gvk cause s = (r, s')"
  shows "\<not> is_panic r"
  using assms(2,3)
proof (cases rule: stopInformer_cases)
  case (failed w)
  with assms(1) show ?thesis by (auto simp: env_calm_def) (metis fst_conv)
qed simp

lemma remove_then_stop_inv:
  assumes "env_calm env" "tc_inv P s"
    and "bind (on_world (c_RemoveInformer env obj)) (\<lambda>_. stopInformer env gvk cause) s = (r, s')"
  shows "tc_inv P s' \<and> \<not> is_panic r"
proof -
  obtain q s1 where q: "on_world (c_RemoveInformer env obj) s = (q, s1)" by fastforce
  from on_world_inv [OF assms(2) q] have s1: "tc_inv P s1" and "q = fst (c_RemoveInformer env obj (tc_world s))"
    by auto
  with assms(1) have "\<not> is_panic q" by (simp add: env_calm_def)
  with q assms(3) s1 stopInformer_inv [OF s1] stopInformer_calm [OF assms(1) s1] show ?thesis
    by (cases q) (auto simp: bind_def)
qed

lemma removeInformer_do_inv:
  assumes calm: "env_calm env" and inv: "tc_inv {ch} s" and run: "removeInformer_do env obj gvk ch s = (r, s')"
  shows "r = Val () \<and> tc_inv {} s'"
proof -
  obtain q s1 where q: "bind (on_world (c_RemoveInformer env obj)) (\<lambda>_. stopInformer env gvk None) s = (q, s1)"
    by fastforce
  from remove_then_stop_inv [OF calm inv q] have s1: "tc_inv {ch} s1" "\<not> is_panic q" by auto
  have "send_answer ch (case q of Val u \<Rightarrow> None | Fail e \<Rightarrow> Some e) s1 = (r, s')" if "\<not> is_panic q"
    using q run that
    by (auto simp: removeInformer_do_def bind_def attempt_def split: prod.splits outcome.splits)
  with s1 show ?thesis by (blast dest: send_last_answer_inv)
qed

lemma stop_informers_inv:
  assumes "env_calm env" "tc_inv P s" "stop_informers env gvks errs s = (r, s')"
  shows "tc_inv P s' \<and> (\<exists>errs'. r = Val errs')"
  using assms(2,3)
proof (induction gvks arbitrary: s errs)
  case (Cons gvk gvks)
  obtain q s1 where q: "bind (on_world (c_RemoveInformer env (unstructured_of gvk)))
      (\<lambda>_. stopInformer env gvk None) s = (q, s1)" by fastforce
  from remove_then_stop_inv [OF assms(1) Cons.prems(1) q] have "tc_inv P s1" "\<not> is_panic q" by auto
  with Cons q show ?case by (cases q) (auto simp: attempt_def)
qed (auto simp: ret_def)

lemma removeOther_do_inv:
  assumes "env_calm env" "tc_inv {ch} s" "removeOther_do env gvks ch s = (r, s')"
  shows "r = Val () \<and> tc_inv {} s'"
proof -
  let ?stop = "c_order env (filter (\<lambda>g. g \<notin> set gvks) (knownInformers s))"
  obtain q s1 where q: "stop_informers env ?stop [] s = (q, s1)" by fastforce
  from stop_informers_inv [OF assms(1,2) q] obtain errs where "tc_inv {ch} s1" "q = Val errs" by auto
  moreover from this assms(3) q have "send_answer ch (errors_Join errs) s1 = (r, s')"
    by (simp add: removeOther_do_def bind_def gets_def)
  ultimately show ?thesis by (blast dest: send_last_answer_inv)
qed

lemma stop_all_inv:
  "tc_inv P s \<Longrightarrow> stop_all env gvks cause s = (r, s') \<Longrightarrow> tc_inv P s'"
proof (induction gvks arbitrary: s)
  case (Cons gvk gvks)
  obtain q s1 where q: "stopInformer env gvk cause s = (q, s1)" by fastforce
  from stopInformer_inv [OF Cons.prems(1) q] Cons q show ?case by (cases q) (auto simp: bind_def)
qed (simp add: ret_def)

lemma handleCacheWatchError_inv:
  "tc_inv P s \<Longrightarrow> handleCacheWatchError env err s = (r, s') \<Longrightarrow> tc_inv P s'"
  by (auto simp: handleCacheWatchError_def ret_def fail_def split: option.splits sum.splits
      intro: stop_all_inv)

lemma tc_inv_forget_wait:
  assumes "tc_inv P s"
  shows "tc_inv P (flush gvk r (s\<lparr>syncWaits := remove1 (gvk, i, st) (syncWaits s)\<rparr>))"
proof -
  let ?s = "s\<lparr>syncWaits := remove1 (gvk, i, st) (syncWaits s)\<rparr>"
  have eq: "flush gvk r ?s = (flush gvk r s)\<lparr>syncWaits := remove1 (gvk, i, st) (syncWaits s)\<rparr>"
    by (simp add: flush_def waiters_def)
  have f: "tc_inv P (flush gvk r s)" by (rule tc_inv_flush [OF assms])
  have "waiters (flush gvk r ?s) = waiters (flush gvk r s)"
    unfolding eq by (simp add: waiters_def fun_eq_iff)
  with f have "answers_inv P (flush gvk r ?s)" "queue_inv P (flush gvk r ?s)" "informer_inv (flush gvk r ?s)"
    unfolding eq by (auto simp: tc_inv_defs)
  moreover have "flight_inv (flush gvk r ?s)"
    using f by (auto simp: tc_inv_def flight_inv_def)
  ultimately show ?thesis by (simp add: tc_inv_def)
qed

lemma end_wait_eq:
  assumes "tc_inv P s"
  shows "end_wait (gvk, i, st) r s =
    (Val (), flush gvk r (s\<lparr>syncWaits := remove1 (gvk, i, st) (syncWaits s)\<rparr>))"
proof -
  have "distinct (waiters (s\<lparr>syncWaits := remove1 (gvk, i, st) (syncWaits s)\<rparr>) gvk)"
    using tc_inv_distinct [OF assms, of gvk] by (simp add: waiters_def)
  then show ?thesis
    by (simp add: end_wait_def handle_sync_def bind_def gets_def modify_def answer_all_eq flush_def)
qed

lemma request_turn_inv:
  assumes closure: "\<And>ch s r s'. tc_inv {ch} s \<Longrightarrow> closure ch s = (r, s') \<Longrightarrow> r = Val () \<and> tc_inv {} s'"
    and "tc_inv {} s"
  shows "\<exists>s'. request_turn closure s = (Val (nextErrCh s), s') \<and> tc_inv {} s'"
proof -
  obtain r s' where run: "closure (nextErrCh s) (s\<lparr>nextErrCh := Suc (nextErrCh s)\<rparr>) = (r, s')" by fastforce
  from closure [OF new_errCh_inv [OF assms(2)] run] run show ?thesis
    by (simp add: request_turn_def new_errCh_def bind_def ret_def)
qed

lemma ensure_turn:
  assumes "env_calm env" "tc_inv {} s"
  shows "\<exists>s'. request_turn (ensure_do env gvk) s = (Val (nextErrCh s), s') \<and> tc_inv {} s'"
  by (rule request_turn_inv [OF _ assms(2)]) (rule ensure_do_inv [OF assms(1)])

lemma remove_turn:
  assumes "env_calm env" "tc_inv {} s"
  shows "\<exists>s'. request_turn (removeInformer_do env obj gvk) s = (Val (nextErrCh s), s') \<and> tc_inv {} s'"
  by (rule request_turn_inv [OF _ assms(2)]) (rule removeInformer_do_inv [OF assms(1)])

lemma remove_others_turn:
  assumes "env_calm env" "tc_inv {} s"
  shows "\<exists>s'. request_turn (removeOther_do env gvks) s = (Val (nextErrCh s), s') \<and> tc_inv {} s'"
  by (rule request_turn_inv [OF _ assms(2)]) (rule removeOther_do_inv [OF assms(1)])

lemmas turn_invs = ensure_turn remove_turn remove_others_turn

lemma tc_step_inv:
  assumes "tc_step env s s'" "env_calm env" "tc_inv {} s"
  shows "tc_inv {} s'"
  using assms
proof (induction rule: tc_step.induct)
  case (step_ensure gvk s ch s')
  with ensure_turn [of env s gvk] show ?case by auto
next
  case (step_remove obj gvk s ch s')
  with remove_turn [of env s obj gvk] show ?case by auto
next
  case (step_remove_others gvks s ch s')
  with remove_others_turn [of env s gvks] show ?case by auto
next
  case (step_watch_error err s s')
  then show ?case by (blast intro: handleCacheWatchError_inv)
next
  case (step_synced gvk i st s s')
  then show ?case by (auto simp: end_wait_eq intro: tc_inv_forget_wait)
next
  case (step_canceled gvk i st s s')
  then show ?case by (auto simp: end_wait_eq intro: tc_inv_forget_wait)
qed simp_all

lemma tc_reachable_inv:
  assumes "tc_reachable env s" "env_calm env"
  shows "tc_inv {} s"
  using assms by (induction rule: tc_reachable.induct) (auto simp: tc_inv_start intro: tc_step_inv)

lemma tc_inv_waiting:
  assumes "tc_inv {} s" "ch \<in> set (waiters s gvk)"
  shows "\<exists>i st. gvk \<in> set (knownInformers s) \<and> cacheWaitInFlight s gvk = Some st \<and>
    st \<notin> set (closedStops s) \<and> (gvk, i, st) \<in> set (syncWaits s) \<and> answers s ch = []"
proof -
  from assms(2) have "waitingForSync s gvk \<noteq> None"
    by (cases "waitingForSync s gvk") (auto simp: waiters_def)
  with assms(1) have "cacheWaitInFlight s gvk \<noteq> None" by (simp add: tc_inv_def informer_inv_def)
  then obtain st where st: "cacheWaitInFlight s gvk = Some st" by blast
  moreover from assms(1) st have "gvk \<in> set (knownInformers s)" "st \<notin> set (closedStops s)"
    "\<exists>i. (gvk, i, st) \<in> set (syncWaits s)"
    by (auto simp: tc_inv_def informer_inv_def flight_inv_def)
  moreover from assms have "answers s ch = []" by (auto simp: tc_inv_def queue_inv_def)
  ultimately show ?thesis by blast
qed

section \<open>Every request is answered once\<close>

text \<open>C5: no request to the loop is lost and none is answered twice. A request that has no answer yet
  is queued for exactly one kind whose informer is tracked, and a goroutine waits for that informer
  with a stop channel that is still open. So a send on an answer channel, which has room for one
  value, never blocks the loop.\<close>

theorem tracking_requests_answered_once:
  assumes "tc_reachable env s" "env_calm env" "ch < nextErrCh s"
  shows "(\<exists>r. answers s ch = [r] \<and> (\<forall>gvk. ch \<notin> set (waiters s gvk))) \<or>
    (answers s ch = [] \<and> (\<exists>!gvk. ch \<in> set (waiters s gvk)) \<and>
     (\<forall>gvk. ch \<in> set (waiters s gvk) \<longrightarrow> gvk \<in> set (knownInformers s) \<and>
       (\<exists>i st. cacheWaitInFlight s gvk = Some st \<and> st \<notin> set (closedStops s) \<and>
          (gvk, i, st) \<in> set (syncWaits s))))"
proof -
  have inv: "tc_inv {} s" by (rule tc_reachable_inv [OF assms(1,2)])
  show ?thesis
  proof (cases "answers s ch")
    case Nil
    with inv assms(3) obtain gvk where gvk: "ch \<in> set (waiters s gvk)"
      by (auto simp: tc_inv_def answers_inv_def)
    moreover have "g = gvk" if "ch \<in> set (waiters s g)" for g
      using inv gvk that unfolding tc_inv_def queue_inv_def by metis
    ultimately show ?thesis using Nil tc_inv_waiting [OF inv] by blast
  next
    case (Cons r rs)
    have "length (answers s ch) \<le> 1" using inv by (simp add: tc_inv_def answers_inv_def)
    with Cons have "answers s ch = [r]" by simp
    moreover have "ch \<notin> set (waiters s gvk)" for gvk
      using inv Cons by (auto simp: tc_inv_def queue_inv_def)
    ultimately show ?thesis by blast
  qed
qed

text \<open>C30: the loop itself never panics, whatever it is asked and whatever the reflectors report: in
  particular it never closes a stop channel twice.\<close>

theorem tracking_loop_never_panics:
  assumes "tc_reachable env s" "env_calm env"
  shows "(\<exists>s'. request_turn (ensure_do env gvk) s = (Val (nextErrCh s), s')) \<and>
    (\<exists>s'. request_turn (removeInformer_do env obj gvk) s = (Val (nextErrCh s), s')) \<and>
    (\<exists>s'. request_turn (removeOther_do env gvks) s = (Val (nextErrCh s), s')) \<and>
    \<not> is_panic (fst (handleCacheWatchError env err s)) \<and>
    (\<exists>s'. end_wait (gvk, i, st) r s = (Val (), s'))"
proof -
  have inv: "tc_inv {} s" by (rule tc_reachable_inv [OF assms])
  have "\<not> is_panic (fst (stop_all env gvks' cause t))" if "tc_inv {} t" for gvks' cause t
    using that
  proof (induction gvks' arbitrary: t)
    case (Cons g gs)
    obtain q t' where q: "stopInformer env g cause t = (q, t')" by fastforce
    from Cons.IH stopInformer_inv [OF Cons.prems q] stopInformer_calm [OF assms(2) Cons.prems q] q
    show ?case by (cases q) (auto simp: bind_def)
  qed (simp add: ret_def)
  then have "\<not> is_panic (fst (handleCacheWatchError env err s))"
    using inv by (auto simp: handleCacheWatchError_def ret_def fail_def split: option.splits sum.splits)
  then show ?thesis
    using turn_invs [OF assms(2) inv] end_wait_eq [OF inv] by metis
qed

text \<open>C16: who waits is served: once the informers of a kind have synced, the loop has a turn that
  answers all requests queued for the kind with success.\<close>

theorem tracking_sync_serves_waiters:
  assumes "tc_reachable env s" "env_calm env" "ch \<in> set (waiters s gvk)"
    and "\<forall>i st. (gvk, i, st) \<in> set (syncWaits s) \<longrightarrow> c_HasSynced env i (tc_world s)"
  shows "\<exists>s'. tc_step env s s' \<and> (\<forall>c\<in>set (waiters s gvk). answers s' c = [None]) \<and> waiters s' gvk = []"
proof -
  have inv: "tc_inv {} s" by (rule tc_reachable_inv [OF assms(1,2)])
  from tc_inv_waiting [OF inv assms(3)] obtain i st where w: "(gvk, i, st) \<in> set (syncWaits s)" by blast
  let ?s = "s\<lparr>syncWaits := remove1 (gvk, i, st) (syncWaits s)\<rparr>"
  have "tc_step env s (flush gvk None ?s)"
    using step_synced [OF w] assms(4) w end_wait_eq [OF inv] by blast
  moreover have "waiters ?s gvk = waiters s gvk" by (simp add: waiters_def)
  with inv have "\<forall>c\<in>set (waiters s gvk). answers (flush gvk None ?s) c = [None]"
    by (auto simp: flush_def tc_inv_def queue_inv_def)
  ultimately show ?thesis by (intro exI [of _ "flush gvk None ?s"]) simp
qed

section \<open>A sample run\<close>

text \<open>A wrapped cache whose world says whether its informers have synced.\<close>

definition sample_tc_env :: "bool tc_env" where
  "sample_tc_env =
    \<lparr>c_GetInformer = (\<lambda>obj w. (Val (Informer 0), w)), c_GetInformerForKind = (\<lambda>gvk w. (Val (Informer 0), w)),
     c_RemoveInformer = (\<lambda>obj w. (Val (), w)), c_Get = (\<lambda>key obj w. (Val obj, w)),
     c_List = (\<lambda>gvk w. (Val [], w)), c_HasSynced = (\<lambda>i w. w), c_handleNewInformer = (\<lambda>i w. (Val (), w)),
     c_KindsFor = (\<lambda>gr. Inr []), c_StatusDetails = (\<lambda>err. None), c_order = (\<lambda>gvks. gvks)\<rparr>"

definition sample_gvk :: GroupVersionKind where
  "sample_gvk = \<lparr>Group = [], Version = ''v1'', Kind = ''ConfigMap''\<rparr>"

lemma sample_tc_env_calm: "env_calm sample_tc_env"
  by (simp add: env_calm_def sample_tc_env_def)

lemmas tc_run_simps = request_turn_def new_errCh_def ensure_do_def removeOther_do_def stopInformer_def
  bind_def gets_def attempt_def on_world_def register_informer_def modify_def send_answer_def ret_def
  wait_for_sync_def waiters_def close_stop_def set_insert_def errors_Join_def sample_tc_env_def

definition sample_tc1 :: "bool trackingCache" where
  "sample_tc1 = (newTrackingCache_state False)
     \<lparr>knownInformers := [sample_gvk], waitingForSync := [sample_gvk \<mapsto> [0]],
      cacheWaitInFlight := [sample_gvk \<mapsto> 0], syncWaits := [(sample_gvk, Informer 0, 0)],
      nextErrCh := 1, nextStopCh := 1\<rparr>"

lemma sample_tc1_reachable: "tc_reachable sample_tc_env sample_tc1"
  by (rule reach_step [OF reach_start [of _ False] step_ensure [where gvk = sample_gvk and ch = 0]])
    (simp add: tc_run_simps newTrackingCache_state_def sample_tc1_def)

lemma sample_tc1_waiters: "waiters sample_tc1 sample_gvk = [0]"
  by (simp add: sample_tc1_def waiters_def)

theorem tracking_requests_answered_once_witness:
  "0 < nextErrCh sample_tc1 \<and> (\<exists>!gvk. (0::nat) \<in> set (waiters sample_tc1 gvk))"
  using tracking_requests_answered_once [OF sample_tc1_reachable sample_tc_env_calm, of 0]
  by (simp add: sample_tc1_def newTrackingCache_state_def)

theorem tracking_loop_never_panics_witness:
  "\<not> is_panic (fst (handleCacheWatchError sample_tc_env (StatusError ''Forbidden'' []) sample_tc1))"
  using tracking_loop_never_panics [OF sample_tc1_reachable sample_tc_env_calm, of undefined undefined undefined
      "StatusError ''Forbidden'' []"]
  by blast

theorem tracking_sync_serves_waiters_witness:
  "\<exists>s'. tc_step sample_tc_env (sample_tc1\<lparr>tc_world := True\<rparr>) s' \<and> answers s' 0 = [None]"
proof -
  have "tc_reachable sample_tc_env (sample_tc1\<lparr>tc_world := True\<rparr>)"
    by (rule reach_step [OF sample_tc1_reachable step_world])
  moreover have w: "waiters (sample_tc1\<lparr>tc_world := True\<rparr>) sample_gvk = [0]"
    by (simp add: sample_tc1_def waiters_def)
  ultimately show ?thesis
    using tracking_sync_serves_waiters [OF _ sample_tc_env_calm, of "sample_tc1\<lparr>tc_world := True\<rparr>" 0 sample_gvk]
    by (auto simp: sample_tc_env_def)
qed

end
