(* ===== verification/TrackingUse.thy ===== *)
theory TrackingUse
  imports TrackingCache
begin

text \<open>
  What the callers of the tracking cache can rely on: which informers a removal stops, that the
  cache runs exactly the informers its users watch, and two situations in which a caller gets a
  wrong answer.
\<close>

section \<open>Removing informers\<close>

definition order_permutes :: "'w tc_env \<Rightarrow> bool" where
  "order_permutes env \<longleftrightarrow> (\<forall>xs. set (c_order env xs) = set xs \<and> (distinct xs \<longrightarrow> distinct (c_order env xs)))"

text \<open>A turn leaves the kinds outside \<open>G\<close> alone.\<close>

definition leaves_others :: "GroupVersionKind set \<Rightarrow> 'w trackingCache \<Rightarrow> 'w trackingCache \<Rightarrow> bool" where
  "leaves_others G s s' \<longleftrightarrow> watchesByUser s' = watchesByUser s \<and>
    (\<forall>g. g \<notin> G \<longrightarrow> waiters s' g = waiters s g \<and> cacheWaitInFlight s' g = cacheWaitInFlight s g \<and>
       (g \<in> set (knownInformers s')) = (g \<in> set (knownInformers s)))"

lemma leaves_others_trans:
  "leaves_others G s t \<Longrightarrow> leaves_others G t u \<Longrightarrow> leaves_others G s u"
  by (simp add: leaves_others_def)

lemma leaves_others_mono: "leaves_others G s t \<Longrightarrow> G \<subseteq> H \<Longrightarrow> leaves_others H s t"
  by (auto simp: leaves_others_def)

lemma remove_then_stop:
  assumes "tc_inv P s" "env_calm env"
    and run: "bind (on_world (c_RemoveInformer env obj)) (\<lambda>_. stopInformer env gvk cause) s = (r, s')"
  shows "leaves_others {gvk} s s' \<and>
    (r = Val () \<and> gvk \<notin> set (knownInformers s') \<or>
     (\<exists>e. r = Fail e) \<and> knownInformers s' = knownInformers s)"
proof -
  obtain q s1 where q: "on_world (c_RemoveInformer env obj) s = (q, s1)" by fastforce
  then obtain w where s1: "s1 = s\<lparr>tc_world := w\<rparr>" "q = fst (c_RemoveInformer env obj (tc_world s))"
    by (auto simp: on_world_def split: prod.splits)
  have inv1: "tc_inv P s1" using assms(1) s1 by simp
  from assms(2) s1 have "\<not> is_panic q" by (simp add: env_calm_def)
  then consider (go) "stopInformer env gvk cause s1 = (r, s')" | (stay) e where "r = Fail e" "s' = s1"
    using q run by (cases q) (auto simp: bind_def)
  then show ?thesis
  proof cases
    case go
    then show ?thesis
    proof (rule stopInformer_cases [OF inv1])
      fix w' assume "s' = stopped gvk cause w' s1" "r = Val ()"
      then show ?thesis by (auto simp: s1 stopped_def leaves_others_def waiters_def)
    next
      fix w' assume "s' = s1\<lparr>tc_world := w'\<rparr>" "r \<noteq> Val ()"
      moreover from stopInformer_calm [OF assms(2) inv1 go] have "\<not> is_panic r" .
      ultimately show ?thesis by (cases r) (auto simp: s1 leaves_others_def waiters_def)
    qed
  next
    case stay
    then show ?thesis by (auto simp: s1 leaves_others_def waiters_def)
  qed
qed

lemma stop_informers_result:
  assumes "env_calm env" "tc_inv P s" "distinct gvks" "stop_informers env gvks errs s = (Val errs', s')"
  shows "\<exists>F new. errs' = errs @ new \<and> (new = []) = (F = {}) \<and> F \<subseteq> set gvks \<and>
    leaves_others (set gvks) s s' \<and>
    (\<forall>g\<in>set gvks. (g \<in> set (knownInformers s')) = (g \<in> F \<and> g \<in> set (knownInformers s)))"
  using assms(2,3,4)
proof (induction gvks arbitrary: s errs)
  case Nil
  then show ?case by (auto simp: ret_def leaves_others_def)
next
  case (Cons gvk gvks)
  obtain q s1 where q: "bind (on_world (c_RemoveInformer env (unstructured_of gvk)))
      (\<lambda>_. stopInformer env gvk None) s = (q, s1)" by fastforce
  note one = remove_then_stop [OF Cons.prems(1) assms(1) q]
  have inv1: "tc_inv P s1" using remove_then_stop_inv [OF assms(1) Cons.prems(1) q] by simp
  have frame: "g \<in> set gvks \<Longrightarrow> (g \<in> set (knownInformers s1)) = (g \<in> set (knownInformers s))" for g
    using one Cons.prems(2) by (auto simp: leaves_others_def)
  from one consider (ok) "q = Val ()" "gvk \<notin> set (knownInformers s1)"
    | (failed) e where "q = Fail e" "knownInformers s1 = knownInformers s" by auto
  then show ?case
  proof cases
    case ok
    with Cons.prems(3) q have "stop_informers env gvks errs s1 = (Val errs', s')"
      by (simp add: attempt_def)
    from Cons.IH [OF inv1 _ this] Cons.prems(2) obtain F new where
      IH: "errs' = errs @ new" "(new = []) = (F = {})" "F \<subseteq> set gvks" "leaves_others (set gvks) s1 s'"
      "\<forall>g\<in>set gvks. (g \<in> set (knownInformers s')) = (g \<in> F \<and> g \<in> set (knownInformers s1))" by auto
    moreover have "leaves_others (set (gvk # gvks)) s s'"
      using one IH(4) by (meson leaves_others_trans leaves_others_mono list.set_intros(1)
          set_subset_Cons empty_subsetI insert_subset)
    moreover have "gvk \<notin> set (knownInformers s')" "gvk \<notin> F"
      using IH(3,4) ok(2) Cons.prems(2) by (auto simp: leaves_others_def)
    ultimately show ?thesis using frame by (intro exI [of _ F] exI [of _ new]) auto
  next
    case failed
    with Cons.prems(3) q have "stop_informers env gvks (errs @ [e]) s1 = (Val errs', s')"
      by (simp add: attempt_def)
    from Cons.IH [OF inv1 _ this] Cons.prems(2) obtain F new where
      IH: "errs' = (errs @ [e]) @ new" "F \<subseteq> set gvks" "leaves_others (set gvks) s1 s'"
      "\<forall>g\<in>set gvks. (g \<in> set (knownInformers s')) = (g \<in> F \<and> g \<in> set (knownInformers s1))" by auto
    moreover have "leaves_others (set (gvk # gvks)) s s'"
      using one IH(3) by (meson leaves_others_trans leaves_others_mono list.set_intros(1)
          set_subset_Cons empty_subsetI insert_subset)
    moreover have "(gvk \<in> set (knownInformers s')) = (gvk \<in> set (knownInformers s))" "gvk \<notin> F"
      using IH(2,3) failed(2) Cons.prems(2) by (auto simp: leaves_others_def)
    ultimately show ?thesis using frame Cons.prems(2)
      by (intro exI [of _ "insert gvk F"] exI [of _ "e # new"]) auto
  qed
qed

lemma removeOther_turn_result:
  assumes "env_calm env" "order_permutes env" "tc_inv {} s"
    and "request_turn (removeOther_do env keep) s = (Val ch, s')"
  shows "leaves_others (- set keep) s s' \<and> set (knownInformers s') \<subseteq> set (knownInformers s) \<and>
    (\<exists>r. answers s' ch = [r] \<and> (r = None) = (set (knownInformers s') \<subseteq> set keep))"
proof -
  let ?s = "s\<lparr>nextErrCh := Suc (nextErrCh s)\<rparr>"
  let ?stop = "c_order env (filter (\<lambda>g. g \<notin> set keep) (knownInformers s))"
  have inv: "tc_inv {nextErrCh s} ?s" by (rule new_errCh_inv [OF assms(3)])
  obtain q s1 where q: "stop_informers env ?stop [] ?s = (q, s1)" by fastforce
  from stop_informers_inv [OF assms(1) inv q] obtain errs where errs: "q = Val errs"
    and inv1: "tc_inv {nextErrCh s} s1" by auto
  have d: "distinct ?stop" and stop: "set ?stop = set (knownInformers s) - set keep"
    using assms(2,3) by (auto simp: order_permutes_def tc_inv_def informer_inv_def)
  from stop_informers_result [OF assms(1) inv d q [unfolded errs]] obtain F where
    F: "(errs = []) = (F = {})" "F \<subseteq> set (knownInformers s) - set keep"
      "leaves_others (set (knownInformers s) - set keep) ?s s1"
      "\<forall>g\<in>set (knownInformers s) - set keep.
         (g \<in> set (knownInformers s1)) = (g \<in> F \<and> g \<in> set (knownInformers ?s))"
    unfolding stop append_Nil by blast
  from assms(4) q errs have ch: "ch = nextErrCh s"
    and s': "s' = s1\<lparr>answers := (answers s1)(ch := answers s1 ch @ [errors_Join errs])\<rparr>"
    by (auto simp: request_turn_def new_errCh_def removeOther_do_def bind_def gets_def ret_def
        send_answer_def modify_def)
  have "answers s' ch = [errors_Join errs]"
    using inv1 by (simp add: s' ch tc_inv_def answers_inv_def)
  moreover have "leaves_others (set (knownInformers s) - set keep) s s'"
    using F(3) by (simp add: leaves_others_def s' waiters_def)
  moreover from this have "leaves_others (- set keep) s s'" by (rule leaves_others_mono) auto
  moreover have known: "g \<in> set (knownInformers s') \<longleftrightarrow>
      (if g \<in> set (knownInformers s) - set keep then g \<in> F else g \<in> set (knownInformers s))" for g
    using F(3,4) by (auto simp: leaves_others_def s')
  moreover have "(set (knownInformers s') \<subseteq> set keep) = (F = {})"
  proof
    assume sub: "set (knownInformers s') \<subseteq> set keep"
    have "x \<notin> F" for x using known [of x] F(2) sub by (cases "x \<in> F") auto
    then show "F = {}" by blast
  next
    assume "F = {}"
    with known show "set (knownInformers s') \<subseteq> set keep" by (metis DiffI empty_iff subsetI)
  qed
  then have "(errors_Join errs = None) = (set (knownInformers s') \<subseteq> set keep)"
    using F(1) by (simp add: errors_Join_def)
  moreover have "set (knownInformers s') \<subseteq> set (knownInformers s)"
    using known F(2) by (metis Diff_iff subsetD subsetI)
  ultimately show ?thesis by (intro conjI exI [of _ "errors_Join errs"])
qed

text \<open>Removing the informers of all kinds but those to keep. Kinds to keep are not touched, with
  everything that waits for them; no informer is added; and the caller is told success exactly when
  every informer of another kind is gone.\<close>

theorem removeOtherInformers_exact:
  assumes "tc_reachable env s" "env_calm env" "order_permutes env"
    and "request_turn (removeOther_do env keep) s = (Val ch, s')"
  shows "set (knownInformers s) \<inter> set keep \<subseteq> set (knownInformers s') \<and>
    set (knownInformers s') \<subseteq> set (knownInformers s) \<and>
    (\<forall>g\<in>set keep. waiters s' g = waiters s g \<and> cacheWaitInFlight s' g = cacheWaitInFlight s g) \<and>
    (\<exists>r. answers s' ch = [r] \<and>
      (r = None \<longleftrightarrow> set (knownInformers s') = set (knownInformers s) \<inter> set keep))"
proof -
  have inv: "tc_inv {} s" by (rule tc_reachable_inv [OF assms(1,2)])
  note res = removeOther_turn_result [OF assms(2,3) inv assms(4)]
  then have "set (knownInformers s) \<inter> set keep \<subseteq> set (knownInformers s')"
    by (auto simp: leaves_others_def)
  with res show ?thesis by (auto simp: leaves_others_def)
qed

section \<open>Watch and Free\<close>

text \<open>While a caller waits undisturbed, informers synchronise and nothing else happens to the
  bookkeeping: no watch error, no removal by somebody else.\<close>

inductive sync_step :: "'w tc_env \<Rightarrow> 'w trackingCache \<Rightarrow> 'w trackingCache \<Rightarrow> bool" for env where
  sync_done: "(gvk, i, st) \<in> set (syncWaits s) \<Longrightarrow> c_HasSynced env i (tc_world s) \<Longrightarrow>
    end_wait (gvk, i, st) None s = (Val (), s') \<Longrightarrow> sync_step env s s'"
| sync_world: "sync_step env s (s\<lparr>tc_world := w\<rparr>)"

definition awaits_undisturbed :: "'w tc_env \<Rightarrow> 'w await \<Rightarrow> bool" where
  "awaits_undisturbed env await \<longleftrightarrow> (\<forall>ch s r s'. await ch s = (r, s') \<longrightarrow>
    (sync_step env)\<^sup>*\<^sup>* s s' \<and> (r = Val () \<longrightarrow> answers s' ch = [None]))"

lemma sync_step_is_step: "sync_step env s s' \<Longrightarrow> tc_step env s s'"
  by (induction rule: sync_step.induct) (auto intro: tc_step.intros)

lemma sync_step_frame:
  assumes "(sync_step env)\<^sup>*\<^sup>* s s'" "env_calm env" "tc_inv {} s"
  shows "tc_inv {} s' \<and> knownInformers s' = knownInformers s \<and> watchesByUser s' = watchesByUser s \<and>
    (\<forall>ch r. answers s ch = [r] \<longrightarrow> answers s' ch = [r])"
  using assms(1)
proof (induction rule: rtranclp_induct)
  case (step t u)
  then have inv: "tc_inv {} t" by simp
  from step(2) have "knownInformers u = knownInformers t \<and> watchesByUser u = watchesByUser t \<and>
      (\<forall>ch r. answers t ch = [r] \<longrightarrow> answers u ch = [r])"
  proof cases
    case (sync_done gvk i st)
    moreover have "answers t ch = [] \<or> ch \<notin> set (waiters t gvk)" for ch
      using inv by (auto simp: tc_inv_def queue_inv_def)
    ultimately show ?thesis using inv
      by (auto simp: end_wait_eq flush_def waiters_def)
        (metis list.distinct(1))
  qed simp
  moreover from tc_step_inv [OF sync_step_is_step [OF step(2)] assms(2) inv] have "tc_inv {} u" .
  ultimately show ?case using step(3) by auto
qed (simp add: assms(3))

lemma ensure_turn_known:
  assumes "env_calm env" "tc_inv {} s" "request_turn (ensure_do env gvk) s = (Val ch, s')"
  shows "watchesByUser s' = watchesByUser s \<and>
    (set (knownInformers s') = insert gvk (set (knownInformers s)) \<or>
     knownInformers s' = knownInformers s \<and> (\<exists>err. answers s' ch = [Some err]))"
proof -
  let ?s = "s\<lparr>nextErrCh := Suc (nextErrCh s)\<rparr>"
  have fresh: "answers s (nextErrCh s) = []"
    using assms(2) by (simp add: tc_inv_def answers_inv_def)
  have run: "ch = nextErrCh s" "ensure_do env gvk ch ?s = (Val (), s')"
    using assms(3) by (auto simp: request_turn_def new_errCh_def bind_def ret_def
        split: prod.splits outcome.splits)
  show ?thesis
  proof (cases "waitingForSync s gvk")
    case (Some chs)
    then have "cacheWaitInFlight s gvk \<noteq> None"
      using assms(2) unfolding tc_inv_def informer_inv_def by (metis option.distinct(1))
    then have "gvk \<in> set (knownInformers s)"
      using assms(2) by (auto simp: tc_inv_def informer_inv_def)
    with Some run(2) show ?thesis by (auto simp: ensure_do_def bind_def gets_def modify_def)
  next
    case None
    with run fresh show ?thesis
      by (auto simp: ensure_do_def bind_def gets_def modify_def attempt_def on_world_def send_answer_def
          register_informer_def ret_def wait_for_sync_def split: prod.splits outcome.splits if_splits)
  qed
qed

lemma watch_known:
  assumes "env_calm env" "awaits_undisturbed env await" "tc_inv {} s"
    and "watch env await gvks s = (Val (), s')"
  shows "tc_inv {} s' \<and> watchesByUser s' = watchesByUser s \<and>
    set (knownInformers s') = set gvks \<union> set (knownInformers s)"
  using assms(3,4)
proof (induction gvks arbitrary: s)
  case (Cons gvk gvks)
  obtain s1 where t: "request_turn (ensure_do env gvk) s = (Val (nextErrCh s), s1)" and inv1: "tc_inv {} s1"
    using ensure_turn [OF assms(1) Cons.prems(1)] by blast
  obtain q s2 where a: "await (nextErrCh s) s1 = (q, s2)" by fastforce
  with assms(2) have steps: "(sync_step env)\<^sup>*\<^sup>* s1 s2" "q = Val () \<Longrightarrow> answers s2 (nextErrCh s) = [None]"
    by (auto simp: awaits_undisturbed_def)
  note frame = sync_step_frame [OF steps(1) assms(1) inv1]
  have run: "ensureCacheSyncForGVK env await gvk s = (q, s2)"
    by (simp add: ensureCacheSyncForGVK_def request_def bind_def t a)
  have q: "q = Val ()"
  proof (cases q)
    case (Fail e)
    with Cons.prems(2) run show ?thesis
      by (auto simp: attempt_def fail_def split: prod.splits outcome.splits)
  next
    case (Panics p)
    with Cons.prems(2) run show ?thesis by (simp add: attempt_def)
  qed simp
  with Cons.prems(2) run have rest: "watch env await gvks s2 = (Val (), s')" by (simp add: attempt_def)
  from ensure_turn_known [OF assms(1) Cons.prems(1) t] frame steps(2) [OF q]
  have "set (knownInformers s2) = insert gvk (set (knownInformers s))" "watchesByUser s2 = watchesByUser s"
    by auto
  with Cons.IH [OF _ rest] frame show ?case by auto
qed (simp add: ret_def)

lemma gcUnusedGVK_known:
  assumes "env_calm env" "order_permutes env" "awaits_undisturbed env await" "tc_inv {} s"
    and "gcUnusedGVK env await s = (Val (), s')"
  shows "tc_inv {} s' \<and> watchesByUser s' = watchesByUser s \<and>
    set (knownInformers s') = set (knownInformers s) \<inter> set (in_use (watchesByUser s))"
proof -
  let ?keep = "in_use (watchesByUser s)"
  obtain s1 where t: "request_turn (removeOther_do env ?keep) s = (Val (nextErrCh s), s1)"
    and inv1: "tc_inv {} s1"
    using remove_others_turn [OF assms(1,4)] by blast
  obtain q s2 where a: "await (nextErrCh s) s1 = (q, s2)" by fastforce
  have "q = Val ()" "s2 = s'"
    using assms(5) by (simp_all add: gcUnusedGVK_def removeOtherInformers_def request_def bind_def gets_def t a)
  with assms(3) a have steps: "(sync_step env)\<^sup>*\<^sup>* s1 s'" "answers s' (nextErrCh s) = [None]"
    by (auto simp: awaits_undisturbed_def)
  note frame = sync_step_frame [OF steps(1) assms(1) inv1]
  note res = removeOther_turn_result [OF assms(1,2,4) t]
  from res frame steps(2) have "set (knownInformers s1) \<subseteq> set ?keep" by auto
  moreover from res have "set (knownInformers s) \<inter> set ?keep \<subseteq> set (knownInformers s1)"
    by (auto simp: leaves_others_def)
  ultimately show ?thesis using res frame by (auto simp: leaves_others_def)
qed

lemma set_fold_insert: "set (fold set_insert xs acc) = set xs \<union> set acc"
  by (induction xs arbitrary: acc) auto

lemma set_in_use_acc:
  "set (fold (\<lambda>(u, gvks) acc. fold set_insert gvks acc) users acc) = (\<Union>p\<in>set users. set (snd p)) \<union> set acc"
  by (induction users arbitrary: acc) (auto simp: set_fold_insert)

lemma set_in_use: "set (in_use users) = (\<Union>p\<in>set users. set (snd p))"
  by (simp add: in_use_def set_in_use_acc)

lemma set_in_use_ran:
  "distinct (map fst users) \<Longrightarrow> set (in_use users) = (\<Union>gvks\<in>ran (map_of users). set gvks)"
  by (simp add: set_in_use ran_distinct)

text \<open>The abstract state of the cache: which kinds each user watches. The cache runs exactly the
  informers of the kinds that someone watches.\<close>

definition watch_spec :: "(AccessManagerKey \<rightharpoonup> gvk_set) \<Rightarrow> 'w trackingCache \<Rightarrow> bool" where
  "watch_spec m s \<longleftrightarrow> distinct (map fst (watchesByUser s)) \<and> map_of (watchesByUser s) = m \<and>
    set (knownInformers s) = (\<Union>gvks\<in>ran m. set gvks)"

lemma watch_spec_iff:
  "watch_spec m s \<longleftrightarrow> distinct (map fst (watchesByUser s)) \<and> map_of (watchesByUser s) = m \<and>
    set (knownInformers s) = set (in_use (watchesByUser s))"
  unfolding watch_spec_def using set_in_use_ran [of "watchesByUser s"] by metis

lemma Watch_refines:
  assumes "env_calm env" "order_permutes env" "awaits_undisturbed env await" "tc_inv {} s" "watch_spec m s"
    and run: "TrackingCache_Watch env await user gvks s = (Val (), s')"
  shows "watch_spec (m(toAccessManagerKey user \<mapsto> gvks)) s'"
proof -
  let ?k = "toAccessManagerKey user"
  let ?ws = "AList.update ?k gvks (watchesByUser s)"
  have spec: "distinct (map fst (watchesByUser s))" "map_of (watchesByUser s) = m"
    using assms(5) by (auto simp: watch_spec_def)
  obtain s1 where s1: "watch env await (c_order env gvks) s = (Val (), s1)"
    and gc: "gcUnusedGVK env await (s1\<lparr>watchesByUser := AList.update ?k gvks (watchesByUser s1)\<rparr>) = (Val (), s')"
    using run by (auto simp: TrackingCache_Watch_def bind_eq_Val modify_def)
  from watch_known [OF assms(1,3,4) s1] assms(2) have
    w: "tc_inv {} s1" "watchesByUser s1 = watchesByUser s"
    "set (knownInformers s1) = set gvks \<union> set (knownInformers s)"
    by (auto simp: order_permutes_def)
  note g = gcUnusedGVK_known [OF assms(1,2,3) _ gc]
  have ws: "distinct (map fst ?ws)" "map_of ?ws = m(?k \<mapsto> gvks)"
    using spec by (simp_all add: distinct_update update_conv')
  have "set (in_use ?ws) \<subseteq> set gvks \<union> set (in_use (watchesByUser s))"
    unfolding set_in_use_ran [OF ws(1)] set_in_use_ran [OF spec(1)] ws(2) spec(2)
    by (auto simp: ran_def)
  with g w assms(5) have "set (knownInformers s') = set (in_use (watchesByUser s'))"
    by (auto simp: watch_spec_iff)
  with g w ws show ?thesis by (simp add: watch_spec_iff)
qed

lemma Free_refines:
  assumes "env_calm env" "order_permutes env" "awaits_undisturbed env await" "tc_inv {} s" "watch_spec m s"
    and run: "TrackingCache_Free env await user s = (Val (), s')"
  shows "watch_spec (m(toAccessManagerKey user := None)) s'"
proof -
  let ?k = "toAccessManagerKey user"
  let ?ws = "AList.delete ?k (watchesByUser s)"
  have spec: "distinct (map fst (watchesByUser s))" "map_of (watchesByUser s) = m"
    using assms(5) by (auto simp: watch_spec_def)
  from run have gc: "gcUnusedGVK env await (s\<lparr>watchesByUser := ?ws\<rparr>) = (Val (), s')"
    by (simp add: TrackingCache_Free_def bind_def modify_def)
  note g = gcUnusedGVK_known [OF assms(1,2,3) _ gc]
  have ws: "distinct (map fst ?ws)" "map_of ?ws = m(?k := None)"
    using spec by (simp_all add: distinct_delete delete_conv')
  have "set (in_use ?ws) \<subseteq> set (in_use (watchesByUser s))"
    unfolding set_in_use_ran [OF ws(1)] set_in_use_ran [OF spec(1)] ws(2) spec(2)
    by (auto simp: ran_def)
  with g assms(4,5) have "set (knownInformers s') = set (in_use (watchesByUser s'))"
    by (auto simp: watch_spec_iff)
  with g assms(4) ws show ?thesis by (simp add: watch_spec_iff)
qed

text \<open>C15: the cache implements its abstract specification, for callers that are not disturbed. Take a
  reachable state in which exactly the informers of the watched kinds are known, controller-runtime
  calls that do not panic, and callers that wait undisturbed: from the request to the answer only
  informers finish their synchronisation, there is no watch error and no request of somebody else.
  When Watch then returns without an error, the user watches the given kinds and nothing else; when
  Free does, it watches nothing; the other users are not affected; and again exactly the informers
  of the watched kinds are known.\<close>

theorem tracking_cache_refines_watches:
  assumes "env_calm env" "order_permutes env" "awaits_undisturbed env await"
    and "tc_reachable env s" "watch_spec m s"
  shows "(TrackingCache_Watch env await user gvks s = (Val (), s') \<longrightarrow>
      watch_spec (m(toAccessManagerKey user \<mapsto> gvks)) s') \<and>
    (TrackingCache_Free env await user s = (Val (), s') \<longrightarrow>
      watch_spec (m(toAccessManagerKey user := None)) s')"
  using assms tc_reachable_inv [OF assms(4,1)] Watch_refines Free_refines by blast

section \<open>Wrong answers\<close>

text \<open>C39: an answer can be meant for somebody else. When an informer is stopped and its kind is
  requested again before the goroutine that waited for the old informer has reported, its report
  is taken for the new wait: the new request is told that it was canceled, although its own wait
  goes on, its stop channel open; and the loop forgets that stop channel.\<close>

theorem stale_wait_cancels_new_request:
  assumes "tc_reachable env s" "env_calm env"
    and "(gvk, i, old) \<in> set (syncWaits s)" "old \<in> set (closedStops s)" "ch \<in> set (waiters s gvk)"
  shows "\<exists>s' j st. tc_step env s s' \<and> answers s' ch = [Some ContextCanceled] \<and>
    cacheWaitInFlight s gvk = Some st \<and> st \<notin> set (closedStops s') \<and> (gvk, j, st) \<in> set (syncWaits s') \<and>
    cacheWaitInFlight s' gvk = None \<and> gvk \<in> set (knownInformers s')"
proof -
  let ?s = "s\<lparr>syncWaits := remove1 (gvk, i, old) (syncWaits s)\<rparr>"
  let ?s' = "flush gvk (Some ContextCanceled) ?s"
  have inv: "tc_inv {} s" by (rule tc_reachable_inv [OF assms(1,2)])
  from tc_inv_waiting [OF inv assms(5)] obtain j st where w: "gvk \<in> set (knownInformers s)"
    "cacheWaitInFlight s gvk = Some st" "st \<notin> set (closedStops s)" "(gvk, j, st) \<in> set (syncWaits s)"
    "answers s ch = []" by blast
  have "tc_step env s ?s'"
    using step_canceled [OF assms(3,4)] end_wait_eq [OF inv] by blast
  moreover have "(gvk, j, st) \<in> set (syncWaits ?s')" 
  proof -
    from w(3) assms(4) have "st \<noteq> old" by auto
    then have "(gvk, j, st) \<noteq> (gvk, i, old)" by simp
    from in_set_remove1 [OF this] w(4) show ?thesis by simp
  qed
  moreover have "answers ?s' ch = [Some ContextCanceled]"
    using assms(5) w(5) by (simp add: flush_def waiters_def)
  ultimately show ?thesis using w by (intro exI [of _ ?s'] exI [of _ j] exI [of _ st]) simp
qed

text \<open>A failure to attach the event handlers is forgotten. The request that meets it is answered
  with the error, but the kind counts as known from then on: the next request for it is answered
  with success, and nothing attaches the handlers to its informer.\<close>

theorem failed_registration_is_forgotten:
  assumes "tc_reachable env s" "env_calm env" "gvk \<notin> set (knownInformers s)"
    and "\<And>w. c_GetInformer env (unstructured_of gvk) w = (Val i, w)"
    and "c_handleNewInformer env i (tc_world s) = (Fail err, w')" "c_HasSynced env i w'"
  shows "\<exists>ch s1 ch' s2. request_turn (ensure_do env gvk) s = (Val ch, s1) \<and> answers s1 ch = [Some err] \<and>
    request_turn (ensure_do env gvk) s1 = (Val ch', s2) \<and> answers s2 ch' = [None] \<and>
    tc_world s1 = w' \<and> tc_world s2 = w'"
proof -
  have inv: "tc_inv {} s" by (rule tc_reachable_inv [OF assms(1,2)])
  have "waitingForSync s gvk = None"
    using inv assms(3) unfolding tc_inv_def informer_inv_def by (metis option.exhaust)
  moreover have "answers s (nextErrCh s) = []" "answers s (Suc (nextErrCh s)) = []"
    using inv by (simp_all add: tc_inv_def answers_inv_def)
  ultimately show ?thesis
    using assms(3-6)
    by (simp add: request_turn_def new_errCh_def ensure_do_def bind_def gets_def attempt_def on_world_def
        register_informer_def modify_def send_answer_def ret_def)
qed

section \<open>Sample runs\<close>

lemma sample_order_permutes: "order_permutes sample_tc_env"
  by (simp add: order_permutes_def sample_tc_env_def)

definition sample_tc2 :: "bool trackingCache" where
  "sample_tc2 = snd (request_turn (removeOther_do sample_tc_env []) sample_tc1)"

lemma sample_tc2_run:
  "request_turn (removeOther_do sample_tc_env []) sample_tc1 = (Val 1, sample_tc2)"
  by (simp add: sample_tc2_def sample_tc1_def tc_run_simps newTrackingCache_state_def)

theorem removeOtherInformers_exact_witness:
  "set (knownInformers sample_tc2) \<subseteq> {sample_gvk} \<and> (\<exists>r. answers sample_tc2 1 = [r])"
  using removeOtherInformers_exact [OF sample_tc1_reachable sample_tc_env_calm sample_order_permutes
      sample_tc2_run]
  by (auto simp: sample_tc1_def newTrackingCache_state_def)

definition sample_await :: "bool await" where
  "sample_await ch s = (if answers s ch = [None] then (Val (), s) else (Fail ContextCanceled, s))"

lemma sample_await_undisturbed: "awaits_undisturbed sample_tc_env sample_await"
  by (auto simp: awaits_undisturbed_def sample_await_def)

definition sample_user :: Object where
  "sample_user = (unstructured_of sample_gvk)\<lparr>GetUID := ''user''\<rparr>"

theorem tracking_cache_refines_watches_witness:
  "\<exists>s'. TrackingCache_Watch sample_tc_env sample_await sample_user [sample_gvk] (newTrackingCache_state True) =
      (Val (), s') \<and> watch_spec [toAccessManagerKey sample_user \<mapsto> [sample_gvk]] s' \<and>
    knownInformers s' = [sample_gvk]"
proof -
  let ?run = "TrackingCache_Watch sample_tc_env sample_await sample_user [sample_gvk] (newTrackingCache_state True)"
  have run: "fst ?run = Val ()" "knownInformers (snd ?run) = [sample_gvk]"
    by (simp_all add: TrackingCache_Watch_def ensureCacheSyncForGVK_def request_def gcUnusedGVK_def
        removeOtherInformers_def in_use_def sample_await_def tc_run_simps newTrackingCache_state_def)
  have "watch_spec Map.empty (newTrackingCache_state True)"
    by (simp add: watch_spec_def newTrackingCache_state_def)
  with tracking_cache_refines_watches [OF sample_tc_env_calm sample_order_permutes sample_await_undisturbed
      reach_start, of Map.empty True sample_user "[sample_gvk]" "snd ?run"] run
  show ?thesis by (metis prod.collapse)
qed

definition sample_tc3 :: "bool trackingCache" where
  "sample_tc3 = snd (request_turn (ensure_do sample_tc_env sample_gvk) sample_tc2)"

lemma sample_tc3_reachable: "tc_reachable sample_tc_env sample_tc3"
proof -
  have "tc_reachable sample_tc_env sample_tc2"
    by (rule reach_step [OF sample_tc1_reachable step_remove_others [OF sample_tc2_run]])
  moreover have "request_turn (ensure_do sample_tc_env sample_gvk) sample_tc2 = (Val 2, sample_tc3)"
    by (simp add: sample_tc3_def sample_tc2_def sample_tc1_def tc_run_simps newTrackingCache_state_def)
  ultimately show ?thesis by (blast intro: reach_step step_ensure)
qed

theorem stale_wait_cancels_new_request_witness:
  "\<exists>s'. tc_step sample_tc_env sample_tc3 s' \<and> answers s' 2 = [Some ContextCanceled]"
proof -
  have "(sample_gvk, Informer 0, 0) \<in> set (syncWaits sample_tc3)" "0 \<in> set (closedStops sample_tc3)"
    "2 \<in> set (waiters sample_tc3 sample_gvk)"
    by (simp_all add: sample_tc3_def sample_tc2_def sample_tc1_def tc_run_simps newTrackingCache_state_def)
  from stale_wait_cancels_new_request [OF sample_tc3_reachable sample_tc_env_calm this]
  show ?thesis by blast
qed

theorem failed_registration_is_forgotten_witness:
  "\<exists>ch s1 ch' s2. let env = sample_tc_env\<lparr>c_handleNewInformer := (\<lambda>i w. (Fail DeadlineExceeded, w))\<rparr> in
    request_turn (ensure_do env sample_gvk) (newTrackingCache_state True) = (Val ch, s1) \<and>
    answers s1 ch = [Some DeadlineExceeded] \<and>
    request_turn (ensure_do env sample_gvk) s1 = (Val ch', s2) \<and> answers s2 ch' = [None]"
  using failed_registration_is_forgotten [OF reach_start,
      of "sample_tc_env\<lparr>c_handleNewInformer := (\<lambda>i w. (Fail DeadlineExceeded, w))\<rparr>" sample_gvk True
        "Informer 0" DeadlineExceeded True]
  by (auto simp: env_calm_def sample_tc_env_def newTrackingCache_state_def Let_def)

end
