(* ===== verification/AccessManager.thy ===== *)
theory AccessManager
  imports TrackingUse
begin

text \<open>
  The object-bound access manager, \<open>managedcache/objectboundaccess.go\<close>: one tracking cache and client
  per owner object, shared by the users that registered with it and closed when the last user has
  gone. Its state belongs to the loop of \<open>Start\<close>, which handles requests, stops and the end of the
  goroutines that run the caches one at a time; the handlers are the definitions below and \<open>am_step\<close>
  is one turn of the loop.

  An accessor is a handle; what the caches behind the handles do is reached through \<open>am_env\<close>, whose
  laws are the locale \<open>accessor_ops\<close>, interpreted on the tracking cache at the end. \<open>mapConfig\<close> is the
  caller's function, \<open>newClient\<close> is controller-runtime's; a configuration is an opaque handle. The
  association lists stand for Go maps, their order for the order of an iteration.

  \<open>runningCaches\<close> holds the caches whose goroutine was started and whose report on \<open>doneCh\<close>, an
  unbuffered channel, the loop has not received yet. The model has no step between the end of
  \<open>ctrlcache.Start\<close> and that report, so a cache that has crashed and not yet reported is still in the
  list: what the manager knows of its caches, not what they do by themselves.
\<close>

section \<open>State\<close>

record accessorEntry =
  ae_accessor :: nat
  ae_users :: "(AccessManagerKey \<times> gvk_set) list"

record 'w accessManager =
  accessors :: "(AccessManagerKey \<times> accessorEntry) list"
  runningCaches :: "(AccessManagerKey \<times> nat) list"
  canceledCaches :: "nat list"
  nextAccessor :: nat
  am_world :: 'w

record 'w am_env =
  mapConfig :: "Object \<Rightarrow> ('w, go_error, nat) eff"
  am_newTrackingCache :: "nat \<Rightarrow> nat \<Rightarrow> ('w, go_error, unit) eff"
  am_newClient :: "nat \<Rightarrow> ('w, go_error, unit) eff"
  am_RemoveOtherInformers :: "nat \<Rightarrow> gvk_set \<Rightarrow> ('w, go_error, unit) eff"
  am_GetGVKs :: "nat \<Rightarrow> 'w \<Rightarrow> GroupVersionKind list"
  am_GetObjectsPerInformer :: "nat \<Rightarrow> ('w, go_error, (GroupVersionKind \<times> nat) list) eff"

type_synonym ('w, 'a) am_run = "('w accessManager, go_error, 'a) eff"

definition on_am_world :: "('w, go_error, 'a) eff \<Rightarrow> ('w, 'a) am_run" where
  "on_am_world m s = (case m (am_world s) of (r, w) \<Rightarrow> (r, s\<lparr>am_world := w\<rparr>))"

definition newAccessManager :: "'w \<Rightarrow> 'w accessManager" where
  "newAccessManager w =
    \<lparr>accessors = [], runningCaches = [], canceledCaches = [], nextAccessor = 0, am_world = w\<rparr>"

definition entry_of :: "'w accessManager \<Rightarrow> AccessManagerKey \<Rightarrow> accessorEntry option" where
  "entry_of s key = map_of (accessors s) key"

section \<open>The handlers of the loop\<close>

definition handleCacheDone :: "AccessManagerKey \<Rightarrow> go_error option \<Rightarrow> ('w, unit) am_run" where
  "handleCacheDone key err =
    bind (modify (\<lambda>s. s\<lparr>accessors := AList.delete key (accessors s)\<rparr>)) (\<lambda>_.
      case err of
        Some e \<Rightarrow> if \<not> errors_Is e ContextCanceled then fail (Wrap ''cache crashed'' e) else ret ()
      | None \<Rightarrow> ret ())"

definition gcCache :: "'w am_env \<Rightarrow> Object \<Rightarrow> ('w, unit) am_run" where
  "gcCache env owner =
    (let key = toAccessManagerKey owner
     in bind (gets (\<lambda>s. entry_of s key)) (\<lambda>entry.
          case entry of
            None \<Rightarrow> ret ()
          | Some e \<Rightarrow>
              if ae_users e = []
              then modify (\<lambda>s. s\<lparr>canceledCaches := ae_accessor e # canceledCaches s,
                                  accessors := AList.delete key (accessors s)\<rparr>)
              else on_am_world (am_RemoveOtherInformers env (ae_accessor e) (in_use (ae_users e)))))"

definition set_users ::
  "AccessManagerKey \<Rightarrow> ((AccessManagerKey \<times> gvk_set) list \<Rightarrow> (AccessManagerKey \<times> gvk_set) list) \<Rightarrow>
    ('w, unit) am_run" where
  "set_users key f = modify (\<lambda>s. case entry_of s key of
       None \<Rightarrow> s
     | Some e \<Rightarrow> s\<lparr>accessors := AList.update key (e\<lparr>ae_users := f (ae_users e)\<rparr>) (accessors s)\<rparr>)"

definition handleAccessorStop :: "'w am_env \<Rightarrow> Object \<Rightarrow> Object option \<Rightarrow> ('w, unit) am_run" where
  "handleAccessorStop env owner user =
    (let key = toAccessManagerKey owner
     in bind (gets (\<lambda>s. entry_of s key)) (\<lambda>entry.
          case entry of
            None \<Rightarrow> ret ()
          | Some e \<Rightarrow>
              bind (case user of
                      None \<Rightarrow> ret ()
                    | Some u \<Rightarrow> set_users key (AList.delete (toAccessManagerKey u))) (\<lambda>_.
                gcCache env owner)))"

definition start_cache ::
  "AccessManagerKey \<Rightarrow> nat \<Rightarrow> Object option \<Rightarrow> gvk_set \<Rightarrow> ('w, unit) am_run" where
  "start_cache key a user gvks =
    modify (\<lambda>s. s\<lparr>accessors := AList.update key
          \<lparr>ae_accessor = a,
           ae_users = (case user of None \<Rightarrow> [] | Some u \<Rightarrow> [(toAccessManagerKey u, gvks)])\<rparr> (accessors s),
        runningCaches := runningCaches s @ [(key, a)],
        nextAccessor := Suc a\<rparr>)"

text \<open>The response: an accessor and an error, either of which may be missing.\<close>

definition handleAccessorRequest ::
  "'w am_env \<Rightarrow> Object \<Rightarrow> Object option \<Rightarrow> gvk_set \<Rightarrow> ('w, nat option \<times> go_error option) am_run" where
  "handleAccessorRequest env owner user gvks =
    (let key = toAccessManagerKey owner
     in bind (gets (\<lambda>s. entry_of s key)) (\<lambda>entry.
          case entry of
            Some e \<Rightarrow>
              bind (case user of
                      None \<Rightarrow> ret ()
                    | Some u \<Rightarrow> set_users key (AList.update (toAccessManagerKey u) gvks)) (\<lambda>_.
                attempt (gcCache env owner)
                  (\<lambda>err. ret (Some (ae_accessor e), Some err))
                  (\<lambda>_. ret (Some (ae_accessor e), None)))
          | None \<Rightarrow>
              bind (gets nextAccessor) (\<lambda>a.
              attempt (on_am_world (mapConfig env owner))
                (\<lambda>err. ret (None, Some (Wrap ''mapping rest.Config and cache.Options'' err)))
                (\<lambda>config.
              attempt (on_am_world (am_newTrackingCache env config a))
                (\<lambda>err. ret (None, Some (Wrap ''creating new Cache'' err)))
                (\<lambda>_.
              attempt (on_am_world (am_newClient env config))
                (\<lambda>err. ret (None, Some (Wrap ''creating new Client'' err)))
                (\<lambda>_. bind (start_cache key a user gvks) (\<lambda>_. ret (Some a, None))))))))"

section \<open>The callers\<close>

text \<open>Which branch of the two \<open>select\<close> statements of \<open>request\<close> is taken: the loop serves the request
  and the caller gets the response, or the context of the caller is done before or after the loop
  took the request.\<close>

datatype select = Served | DoneBefore go_error | DoneAfter go_error

definition am_request ::
  "select \<Rightarrow> Object option \<Rightarrow> Object option \<Rightarrow> (Object \<Rightarrow> ('w, nat option \<times> go_error option) am_run) \<Rightarrow>
    ('w, nat option \<times> go_error option) am_run" where
  "am_request sel owner user handle =
    (case owner of
       None \<Rightarrow> panic ''nil owner provided''
     | Some ow \<Rightarrow>
         if GetUID ow = [] then panic ''owner without UID set''
         else if (case user of None \<Rightarrow> False | Some u \<Rightarrow> GetUID u = []) then panic ''user without UID set''
         else case sel of
                DoneBefore err \<Rightarrow> ret (None, Some err)
              | DoneAfter err \<Rightarrow> bind (handle ow) (\<lambda>_. ret (None, Some err))
              | Served \<Rightarrow> handle ow)"

fun used_gvks :: "apimachinery \<Rightarrow> Object list \<Rightarrow> gvk_set \<Rightarrow> gvk_set go" where
  "used_gvks api [] gvks = Val gvks"
| "used_gvks api (obj # objs) gvks =
    (case GVKForObject api obj of
       Inl err \<Rightarrow> Fail err
     | Inr gvk \<Rightarrow> used_gvks api objs (set_insert gvk gvks))"

definition GetWithUser ::
  "apimachinery \<Rightarrow> 'w am_env \<Rightarrow> select \<Rightarrow> Object option \<Rightarrow> Object option \<Rightarrow> Object list \<Rightarrow>
    ('w, nat option \<times> go_error option) am_run" where
  "GetWithUser api env sel owner user usedFor =
    attempt (lift (used_gvks api usedFor []))
      (\<lambda>err. ret (None, Some err))
      (\<lambda>gvks. am_request sel owner user (\<lambda>ow. handleAccessorRequest env ow user gvks))"

definition AccessManager_Get ::
  "apimachinery \<Rightarrow> 'w am_env \<Rightarrow> select \<Rightarrow> Object option \<Rightarrow> ('w, nat option \<times> go_error option) am_run" where
  "AccessManager_Get api env sel owner = GetWithUser api env sel owner None []"

definition FreeWithUser ::
  "'w am_env \<Rightarrow> select \<Rightarrow> Object option \<Rightarrow> Object option \<Rightarrow> ('w, go_error option) am_run" where
  "FreeWithUser env sel owner user =
    bind (am_request sel owner user (\<lambda>ow.
        attempt (handleAccessorStop env ow user) (\<lambda>err. ret (None, Some err)) (\<lambda>_. ret (None, None))))
      (\<lambda>(_, err). ret err)"

definition AccessManager_Free ::
  "'w am_env \<Rightarrow> select \<Rightarrow> Object option \<Rightarrow> ('w, go_error option) am_run" where
  "AccessManager_Free env sel owner = FreeWithUser env sel owner None"

definition GetWatchersForGVK :: "'w am_env \<Rightarrow> 'w accessManager \<Rightarrow> GroupVersionKind \<Rightarrow> AccessManagerKey list" where
  "GetWatchersForGVK env s gvk =
    concat (map (\<lambda>(k, e). if gvk \<in> set (am_GetGVKs env (ae_accessor e) (am_world s))
                           then k # map fst (ae_users e) else []) (accessors s))"

fun collect_metrics ::
  "'w am_env \<Rightarrow> (AccessManagerKey \<times> accessorEntry) list \<Rightarrow>
    (AccessManagerKey \<times> (GroupVersionKind \<times> nat) list) list \<Rightarrow>
    ('w, (AccessManagerKey \<times> (GroupVersionKind \<times> nat) list) list) am_run" where
  "collect_metrics env [] metrics = ret metrics"
| "collect_metrics env ((k, e) # es) metrics =
    bind (wrap_err (Wrap ''getting objects per informer'')
            (on_am_world (am_GetObjectsPerInformer env (ae_accessor e)))) (\<lambda>objects.
      collect_metrics env es (AList.update k objects metrics))"

definition CollectMetrics ::
  "'w am_env \<Rightarrow> ('w, (AccessManagerKey \<times> (GroupVersionKind \<times> nat) list) list) am_run" where
  "CollectMetrics env = bind (gets accessors) (\<lambda>es. collect_metrics env es [])"

section \<open>Turns of the loop\<close>

inductive am_step :: "'w am_env \<Rightarrow> 'w accessManager \<Rightarrow> 'w accessManager \<Rightarrow> bool" for env where
  step_request: "handleAccessorRequest env owner user gvks s = (Val r, s') \<Longrightarrow> am_step env s s'"
| step_stop: "handleAccessorStop env owner user s = (r, s') \<Longrightarrow> \<not> is_panic r \<Longrightarrow> am_step env s s'"
| step_done: "(key, a) \<in> set (runningCaches s) \<Longrightarrow>
    handleCacheDone key err (s\<lparr>runningCaches := remove1 (key, a) (runningCaches s)\<rparr>) = (Val (), s') \<Longrightarrow>
    am_step env s s'"
| step_am_world: "am_step env s (s\<lparr>am_world := w\<rparr>)"

inductive am_reachable :: "'w am_env \<Rightarrow> 'w accessManager \<Rightarrow> bool" for env where
  am_start: "am_reachable env (newAccessManager w)"
| am_next: "am_reachable env s \<Longrightarrow> am_step env s s' \<Longrightarrow> am_reachable env s'"

section \<open>Invariant\<close>

text \<open>There is one cache per owner; the cache of every entry runs and was not canceled.\<close>

definition am_inv :: "'w accessManager \<Rightarrow> bool" where
  "am_inv s \<longleftrightarrow> distinct (map fst (accessors s)) \<and>
    (\<forall>k e. entry_of s k = Some e \<longrightarrow>
       (k, ae_accessor e) \<in> set (runningCaches s) \<and> ae_accessor e \<notin> set (canceledCaches s) \<and>
       distinct (map fst (ae_users e))) \<and>
    (\<forall>k k' a. k \<noteq> k' \<longrightarrow> (k, a) \<in> set (runningCaches s) \<longrightarrow> (k', a) \<notin> set (runningCaches s)) \<and>
    (\<forall>k a. (k, a) \<in> set (runningCaches s) \<longrightarrow> a < nextAccessor s) \<and>
    (\<forall>a\<in>set (canceledCaches s). a < nextAccessor s)"

lemma entry_of_delete [simp]:
  "entry_of (s\<lparr>accessors := AList.delete k (accessors s)\<rparr>) k' = (if k' = k then None else entry_of s k')"
  by (simp add: entry_of_def delete_conv')

lemma entry_of_update [simp]:
  "entry_of (s\<lparr>accessors := AList.update k e (accessors s)\<rparr>) k' = (if k' = k then Some e else entry_of s k')"
  by (simp add: entry_of_def update_conv')

lemma entry_of_frame [simp]:
  "entry_of (s\<lparr>am_world := w\<rparr>) = entry_of s" "entry_of (s\<lparr>runningCaches := rs\<rparr>) = entry_of s"
  "entry_of (s\<lparr>canceledCaches := cs\<rparr>) = entry_of s" "entry_of (s\<lparr>nextAccessor := n\<rparr>) = entry_of s"
  by (simp_all add: entry_of_def fun_eq_iff)

lemma am_inv_world [simp]: "am_inv (s\<lparr>am_world := w\<rparr>) = am_inv s"
  by (simp add: am_inv_def)

lemma am_inv_start: "am_inv (newAccessManager w)"
  by (simp add: am_inv_def newAccessManager_def entry_of_def)

lemma am_inv_entry:
  assumes "am_inv s" "entry_of s k = Some e"
  shows "(k, ae_accessor e) \<in> set (runningCaches s)" "ae_accessor e \<notin> set (canceledCaches s)"
    "distinct (map fst (ae_users e))" "ae_accessor e < nextAccessor s"
  using assms unfolding am_inv_def by blast+

lemma am_inv_close:
  assumes "am_inv s" "entry_of s key = Some e"
  shows "am_inv (s\<lparr>canceledCaches := ae_accessor e # canceledCaches s,
    accessors := AList.delete key (accessors s)\<rparr>)"
proof -
  have "ae_accessor e' \<noteq> ae_accessor e" if "entry_of s k = Some e'" "k \<noteq> key" for k e'
    using am_inv_entry [OF assms] am_inv_entry [OF assms(1) that(1)] assms(1) that(2)
    by (auto simp: am_inv_def)
  moreover have "entry_of (s\<lparr>canceledCaches := ae_accessor e # canceledCaches s,
      accessors := AList.delete key (accessors s)\<rparr>) k = (if k = key then None else entry_of s k)" for k
    by (simp add: entry_of_def delete_conv')
  ultimately show ?thesis
    using assms(1) am_inv_entry [OF assms] by (auto simp: am_inv_def distinct_delete split: if_splits)
qed

lemma gcCache_cases:
  assumes "gcCache env owner s = (r, s')"
  obtains (absent) "entry_of s (toAccessManagerKey owner) = None" "r = Val ()" "s' = s"
  | (closed) e where "entry_of s (toAccessManagerKey owner) = Some e" "ae_users e = []" "r = Val ()"
      "s' = s\<lparr>canceledCaches := ae_accessor e # canceledCaches s,
        accessors := AList.delete (toAccessManagerKey owner) (accessors s)\<rparr>"
  | (trimmed) e w where "entry_of s (toAccessManagerKey owner) = Some e" "ae_users e \<noteq> []"
      "am_RemoveOtherInformers env (ae_accessor e) (in_use (ae_users e)) (am_world s) = (r, w)"
      "s' = s\<lparr>am_world := w\<rparr>"
  using assms
  by (cases "entry_of s (toAccessManagerKey owner)")
    (auto simp: gcCache_def Let_def bind_def gets_def ret_def modify_def on_am_world_def
      split: if_splits prod.splits)

lemma gcCache_inv:
  assumes "am_inv s" "gcCache env owner s = (r, s')"
  shows "am_inv s'"
  using assms(2) by (rule gcCache_cases) (use assms(1) am_inv_close in auto)

lemma set_users_eq:
  "entry_of s key = Some e \<Longrightarrow> set_users key f s =
    (Val (), s\<lparr>accessors := AList.update key (e\<lparr>ae_users := f (ae_users e)\<rparr>) (accessors s)\<rparr>)"
  by (simp add: set_users_def modify_def)

lemma am_inv_users:
  assumes "am_inv s" "entry_of s key = Some e" "distinct (map fst us)"
  shows "am_inv (s\<lparr>accessors := AList.update key (e\<lparr>ae_users := us\<rparr>) (accessors s)\<rparr>)"
  using assms am_inv_entry [OF assms(1,2)]
  by (auto simp: am_inv_def distinct_update)

lemma handleAccessorStop_inv:
  assumes "am_inv s" "handleAccessorStop env owner user s = (r, s')"
  shows "am_inv s'"
proof (cases "entry_of s (toAccessManagerKey owner)")
  case None
  with assms show ?thesis by (simp add: handleAccessorStop_def Let_def bind_def gets_def ret_def)
next
  case (Some e)
  note dis = am_inv_entry(3) [OF assms(1) Some]
  show ?thesis
  proof (cases user)
    case None
    with assms Some show ?thesis
      by (auto simp: handleAccessorStop_def Let_def bind_def gets_def ret_def intro: gcCache_inv)
  next
    case (Some u)
    with assms(2) \<open>entry_of s (toAccessManagerKey owner) = Some e\<close>
    have "gcCache env owner (s\<lparr>accessors := AList.update (toAccessManagerKey owner)
        (e\<lparr>ae_users := AList.delete (toAccessManagerKey u) (ae_users e)\<rparr>) (accessors s)\<rparr>) = (r, s')"
      by (simp add: handleAccessorStop_def Let_def bind_def gets_def set_users_eq)
    from gcCache_inv [OF am_inv_users this] assms(1) \<open>entry_of s (toAccessManagerKey owner) = Some e\<close> dis
    show ?thesis by (simp add: distinct_delete)
  qed
qed

lemma start_cache_inv:
  assumes "am_inv s" "start_cache key (nextAccessor s) user gvks s = (r, s')"
  shows "am_inv s'"
proof -
  let ?e = "\<lparr>ae_accessor = nextAccessor s,
    ae_users = (case user of None \<Rightarrow> [] | Some u \<Rightarrow> [(toAccessManagerKey u, gvks)])\<rparr>"
  from assms(2) have s': "s' = s\<lparr>accessors := AList.update key ?e (accessors s),
      runningCaches := runningCaches s @ [(key, nextAccessor s)], nextAccessor := Suc (nextAccessor s)\<rparr>"
    by (simp add: start_cache_def modify_def)
  have "entry_of s' k = (if k = key then Some ?e else entry_of s k)" for k
    by (simp add: s' entry_of_def update_conv')
  moreover have "nextAccessor s \<notin> set (canceledCaches s)" "(k, nextAccessor s) \<notin> set (runningCaches s)" for k
    using assms(1) by (auto simp: am_inv_def)
  moreover have "distinct (map fst (ae_users ?e))" by (simp split: option.splits)
  ultimately show ?thesis
    using assms(1) by (auto simp: am_inv_def s' distinct_update less_Suc_eq split: if_splits)
qed

text \<open>The entry of an owner after a user has registered.\<close>

definition add_user :: "Object option \<Rightarrow> gvk_set \<Rightarrow> accessorEntry \<Rightarrow> accessorEntry" where
  "add_user user gvks e = (case user of
     None \<Rightarrow> e | Some u \<Rightarrow> e\<lparr>ae_users := AList.update (toAccessManagerKey u) gvks (ae_users e)\<rparr>)"

lemma handleAccessorRequest_cases:
  assumes "handleAccessorRequest env owner user gvks s = (Val (a, err), s')" "am_inv s"
  obtains (reused) e q s1 where "entry_of s (toAccessManagerKey owner) = Some e" "a = Some (ae_accessor e)"
      "am_inv s1" "entry_of s1 (toAccessManagerKey owner) = Some (add_user user gvks e)"
      "am_world s1 = am_world s" "runningCaches s1 = runningCaches s" "canceledCaches s1 = canceledCaches s"
      "gcCache env owner s1 = (q, s')" "q = (case err of None \<Rightarrow> Val () | Some er \<Rightarrow> Fail er)"
  | (refused) w er where "a = None" "err = Some er" "s' = s\<lparr>am_world := w\<rparr>"
  | (started) w where "entry_of s (toAccessManagerKey owner) = None" "a = Some (nextAccessor s)" "err = None"
      "start_cache (toAccessManagerKey owner) (nextAccessor s) user gvks (s\<lparr>am_world := w\<rparr>) = (Val (), s')"
proof (cases "entry_of s (toAccessManagerKey owner)")
  case (Some e)
  let ?k = "toAccessManagerKey owner"
  obtain s1 where s1: "(case user of None \<Rightarrow> ret () | Some u \<Rightarrow> set_users ?k (AList.update (toAccessManagerKey u) gvks)) s
      = (Val (), s1)" "am_inv s1" "entry_of s1 ?k = Some (add_user user gvks e)"
    "am_world s1 = am_world s" "runningCaches s1 = runningCaches s" "canceledCaches s1 = canceledCaches s"
  proof (cases user)
    case None
    with that [of s] Some assms(2) show ?thesis by (simp add: ret_def add_user_def)
  next
    case u: (Some u)
    let ?us = "AList.update (toAccessManagerKey u) gvks (ae_users e)"
    from am_inv_users [OF assms(2) Some, of ?us] am_inv_entry(3) [OF assms(2) Some]
    have "am_inv (s\<lparr>accessors := AList.update ?k (e\<lparr>ae_users := ?us\<rparr>) (accessors s)\<rparr>)"
      by (simp add: distinct_update)
    with that u Some show ?thesis by (simp add: set_users_eq add_user_def)
  qed
  obtain q t where q: "gcCache env owner s1 = (q, t)" by fastforce
  with assms(1) Some s1(1) have "a = Some (ae_accessor e)" "t = s'"
    "q = (case err of None \<Rightarrow> Val () | Some er \<Rightarrow> Fail er)"
    by (auto simp: handleAccessorRequest_def Let_def bind_def gets_def attempt_def ret_def
        split: outcome.splits)
  with Some s1 q reused show ?thesis by simp
next
  case None
  have "a = None \<and> (\<exists>er w. err = Some er \<and> s' = s\<lparr>am_world := w\<rparr>) \<or> a = Some (nextAccessor s) \<and> err = None \<and>
      (\<exists>w. start_cache (toAccessManagerKey owner) (nextAccessor s) user gvks (s\<lparr>am_world := w\<rparr>) = (Val (), s'))"
    using assms(1) None
    by (auto simp: handleAccessorRequest_def Let_def bind_def gets_def attempt_def ret_def on_am_world_def
        start_cache_def modify_def split: outcome.splits prod.splits)
  with refused started None show ?thesis by blast
qed

lemma handleAccessorRequest_inv:
  assumes "am_inv s" "handleAccessorRequest env owner user gvks s = (Val r, s')"
  shows "am_inv s'"
proof -
  obtain a err where r: "r = (a, err)" by fastforce
  from assms(2) [unfolded r] assms(1) show ?thesis
  proof (cases rule: handleAccessorRequest_cases)
    case (reused e q s1)
    then show ?thesis by (blast intro: gcCache_inv)
  next
    case (refused w er)
    with assms(1) show ?thesis by simp
  next
    case (started w)
    then show ?thesis using start_cache_inv [of "s\<lparr>am_world := w\<rparr>"] assms(1) by simp
  qed
qed

lemma handleCacheDone_inv:
  assumes "am_inv s" "(key, a) \<in> set (runningCaches s)"
    and "handleCacheDone key err (s\<lparr>runningCaches := remove1 (key, a) (runningCaches s)\<rparr>) = (r, s')"
  shows "am_inv s'"
proof -
  have s': "s' = s\<lparr>runningCaches := remove1 (key, a) (runningCaches s),
      accessors := AList.delete key (accessors s)\<rparr>"
    using assms(3)
    by (auto simp: handleCacheDone_def bind_def modify_def ret_def fail_def split: option.splits if_splits)
  have "entry_of s' k = (if k = key then None else entry_of s k)" for k
    by (simp add: s' entry_of_def delete_conv')
  moreover have "(k, b) \<in> set (runningCaches s')" if "(k, b) \<in> set (runningCaches s)" "k \<noteq> key" for k b
    using that by (simp add: s')
  moreover have "(k, b) \<in> set (runningCaches s)" if "(k, b) \<in> set (runningCaches s')" for k b
    using that set_remove1_subset [of "(key, a)" "runningCaches s"] by (auto simp: s')
  moreover have "canceledCaches s' = canceledCaches s" "nextAccessor s' = nextAccessor s"
    "accessors s' = AList.delete key (accessors s)" by (simp_all add: s')
  ultimately show ?thesis
    using assms(1) unfolding am_inv_def
    by (simp add: distinct_delete) blast
qed

lemma am_reachable_inv: "am_reachable env s \<Longrightarrow> am_inv s"
proof (induction rule: am_reachable.induct)
  case (am_next s s')
  from am_next(2,3) show ?case
    by cases (auto intro: handleAccessorRequest_inv handleAccessorStop_inv handleCacheDone_inv)
qed (simp add: am_inv_start)

section \<open>What users can rely on\<close>

lemma request_registers:
  assumes inv: "am_inv s"
    and run: "handleAccessorRequest env owner (Some user) gvks s = (Val (Some a, None), s')"
  shows "\<exists>e. entry_of s' (toAccessManagerKey owner) = Some e \<and> ae_accessor e = a \<and>
    map_of (ae_users e) (toAccessManagerKey user) = Some gvks"
  using run inv
proof (cases rule: handleAccessorRequest_cases)
  case (reused e q s1)
  have m: "map_of (ae_users (add_user (Some user) gvks e)) (toAccessManagerKey user) = Some gvks"
    by (simp add: add_user_def update_conv')
  then have "ae_users (add_user (Some user) gvks e) \<noteq> []" by auto
  with reused(8) reused(4) have "entry_of s' (toAccessManagerKey owner) = Some (add_user (Some user) gvks e)"
    by (auto elim!: gcCache_cases)
  with m reused(2) show ?thesis by (simp add: add_user_def)
next
  case (started w)
  then show ?thesis by (auto simp: start_cache_def modify_def entry_of_def update_conv')
qed simp

lemma am_inv_own_caches:
  assumes "am_inv s" "entry_of s k = Some e" "entry_of s k' = Some e'" "ae_accessor e = ae_accessor e'"
  shows "k = k'"
  using am_inv_entry(1) [OF assms(1,2)] am_inv_entry(1) [OF assms(1,3)] assms(1,4)
  unfolding am_inv_def by metis

text \<open>C6: the manager hands out caches it keeps. In every reachable state its table has at most one
  cache per owner and no two owners share one, and each of these caches was started, has not reported its
  end to the manager and was not canceled by it (a cache that failed but whose report the manager has
  not received counts as not ended). When in such a state a request with a user is answered
  with an accessor and no error, all this still holds after the request, the accessor is the cache
  of the owner, and the user is registered with the kinds it asked for.\<close>

theorem access_manager_serves_live_cache:
  assumes "am_reachable env s"
  shows "distinct (map fst (accessors s)) \<and>
    (\<forall>k e. entry_of s k = Some e \<longrightarrow>
       (k, ae_accessor e) \<in> set (runningCaches s) \<and> ae_accessor e \<notin> set (canceledCaches s)) \<and>
    (\<forall>k k' e e'. entry_of s k = Some e \<longrightarrow> entry_of s k' = Some e' \<longrightarrow> ae_accessor e = ae_accessor e' \<longrightarrow> k = k') \<and>
    (\<forall>owner user gvks a s'. handleAccessorRequest env owner (Some user) gvks s = (Val (Some a, None), s') \<longrightarrow>
       am_reachable env s' \<and>
       (toAccessManagerKey owner, a) \<in> set (runningCaches s') \<and> a \<notin> set (canceledCaches s') \<and>
       (\<exists>e. entry_of s' (toAccessManagerKey owner) = Some e \<and> ae_accessor e = a \<and>
          map_of (ae_users e) (toAccessManagerKey user) = Some gvks))"
proof (intro conjI allI impI)
  have inv: "am_inv s" by (rule am_reachable_inv [OF assms])
  then show "distinct (map fst (accessors s))" by (simp add: am_inv_def)
  show "(k, ae_accessor e) \<in> set (runningCaches s)" "ae_accessor e \<notin> set (canceledCaches s)"
    if "entry_of s k = Some e" for k e
    using am_inv_entry [OF inv that] by simp_all
  show "k = k'" if "entry_of s k = Some e" "entry_of s k' = Some e'" "ae_accessor e = ae_accessor e'" for k k' e e'
    by (rule am_inv_own_caches [OF inv that])
  fix owner user gvks a s'
  assume run: "handleAccessorRequest env owner (Some user) gvks s = (Val (Some a, None), s')"
  show "am_reachable env s'" by (rule am_next [OF assms step_request [OF run]])
  note inv' = handleAccessorRequest_inv [OF inv run]
  show e: "\<exists>e. entry_of s' (toAccessManagerKey owner) = Some e \<and> ae_accessor e = a \<and>
      map_of (ae_users e) (toAccessManagerKey user) = Some gvks"
    by (rule request_registers [OF inv run])
  with am_inv_entry [OF inv'] show "(toAccessManagerKey owner, a) \<in> set (runningCaches s')"
    "a \<notin> set (canceledCaches s')" by auto
qed

section \<open>The caches behind the accessors\<close>

text \<open>What the manager relies on: asking a cache to keep only some kinds, when it succeeds, leaves
  it with informers of these kinds, and never touches another cache. \<open>wf\<close> is the condition on the
  caches that makes this so, and it is kept.\<close>

locale accessor_ops =
  fixes env :: "'w am_env" and wf :: "'w \<Rightarrow> bool"
  assumes trims: "wf w \<Longrightarrow> am_RemoveOtherInformers env a keep w = (Val (), w') \<Longrightarrow>
      set (am_GetGVKs env a w') = set (am_GetGVKs env a w) \<inter> set keep"
    and others: "wf w \<Longrightarrow> am_RemoveOtherInformers env a keep w = (r, w') \<Longrightarrow> b \<noteq> a \<Longrightarrow>
      am_GetGVKs env b w' = am_GetGVKs env b w"
    and keeps_wf: "wf w \<Longrightarrow> am_RemoveOtherInformers env a keep w = (r, w') \<Longrightarrow> wf w'"
begin

lemma stop_trims:
  assumes "am_inv s" "wf (am_world s)" "entry_of s (toAccessManagerKey owner) = Some e"
    and "handleAccessorStop env owner (Some user) s = (Val (), s')"
  defines "us \<equiv> AList.delete (toAccessManagerKey user) (ae_users e)"
  shows "if us = [] then entry_of s' (toAccessManagerKey owner) = None \<and> ae_accessor e \<in> set (canceledCaches s')
    else entry_of s' (toAccessManagerKey owner) = Some (e\<lparr>ae_users := us\<rparr>) \<and>
      set (am_GetGVKs env (ae_accessor e) (am_world s')) =
        set (am_GetGVKs env (ae_accessor e) (am_world s)) \<inter> (\<Union>gvks\<in>ran (map_of us). set gvks)"
proof -
  let ?k = "toAccessManagerKey owner"
  let ?s = "s\<lparr>accessors := AList.update ?k (e\<lparr>ae_users := us\<rparr>) (accessors s)\<rparr>"
  have "distinct (map fst us)"
    using am_inv_entry(3) [OF assms(1,3)] by (simp add: us_def distinct_delete)
  then have use: "set (in_use us) = (\<Union>gvks\<in>ran (map_of us). set gvks)" by (rule set_in_use_ran)
  have "gcCache env owner ?s = (Val (), s')"
    using assms(3,4) by (simp add: us_def handleAccessorStop_def Let_def bind_def gets_def set_users_eq)
  then show ?thesis
  proof (rule gcCache_cases)
    fix e' w
    assume "entry_of ?s ?k = Some e'" "ae_users e' \<noteq> []" "s' = ?s\<lparr>am_world := w\<rparr>"
      and run: "am_RemoveOtherInformers env (ae_accessor e') (in_use (ae_users e')) (am_world ?s) = (Val (), w)"
    moreover from this trims [of "am_world s" "ae_accessor e" "in_use us" w] assms(2)
    have "set (am_GetGVKs env (ae_accessor e) w) =
        set (am_GetGVKs env (ae_accessor e) (am_world s)) \<inter> set (in_use us)" by auto
    ultimately show ?thesis by (auto simp: use)
  qed (auto simp: entry_of_def delete_conv' update_conv')
qed

end

text \<open>The caches as tracking caches, one per handle.\<close>

definition on_cache :: "nat \<Rightarrow> ('v, 'a) tc_run \<Rightarrow> (nat \<Rightarrow> 'v trackingCache, go_error, 'a) eff" where
  "on_cache a m w = (case m (w a) of (r, c) \<Rightarrow> (r, w(a := c)))"

definition caches_env ::
  "'v tc_env \<Rightarrow> 'v await \<Rightarrow> (Object \<Rightarrow> go_error + nat) \<Rightarrow> (nat \<Rightarrow> go_error + 'v) \<Rightarrow> (nat \<Rightarrow> go_error option) \<Rightarrow>
    (nat \<Rightarrow> 'v trackingCache) am_env" where
  "caches_env tenv await mapCfg newCache newClient =
    \<lparr>mapConfig = (\<lambda>owner w. (case mapCfg owner of Inl e \<Rightarrow> Fail e | Inr c \<Rightarrow> Val c, w)),
     am_newTrackingCache = (\<lambda>config a w. (case newTrackingCache (newCache config) of
         Val c \<Rightarrow> (Val (), w(a := c)) | Fail e \<Rightarrow> (Fail e, w) | Panics p \<Rightarrow> (Panics p, w))),
     am_newClient = (\<lambda>config w. (case newClient config of None \<Rightarrow> Val () | Some e \<Rightarrow> Fail e, w)),
     am_RemoveOtherInformers = (\<lambda>a keep. on_cache a (RemoveOtherInformers tenv await keep)),
     am_GetGVKs = (\<lambda>a w. TrackingCache_GetGVKs tenv (w a)),
     am_GetObjectsPerInformer = (\<lambda>a. on_cache a (GetObjectsPerInformer tenv))\<rparr>"

definition caches_wf :: "'v tc_env \<Rightarrow> 'v await \<Rightarrow> (nat \<Rightarrow> 'v trackingCache) \<Rightarrow> bool" where
  "caches_wf tenv await w \<longleftrightarrow> env_calm tenv \<and> order_permutes tenv \<and> awaits_undisturbed tenv await \<and>
    (\<forall>a. tc_inv {} (w a))"

lemma RemoveOtherInformers_known:
  assumes "env_calm env" "order_permutes env" "awaits_undisturbed env await" "tc_inv {} s"
    and "RemoveOtherInformers env await keep s = (r, s')"
  shows "tc_inv {} s' \<and> (r = Val () \<longrightarrow> set (knownInformers s') = set (knownInformers s) \<inter> set keep)"
proof -
  obtain s1 where t: "request_turn (removeOther_do env keep) s = (Val (nextErrCh s), s1)"
    and inv1: "tc_inv {} s1"
    using remove_others_turn [OF assms(1,4)] by blast
  have a: "await (nextErrCh s) s1 = (r, s')"
    using assms(5) by (simp add: RemoveOtherInformers_def removeOtherInformers_def request_def bind_def t)
  then have steps: "(sync_step env)\<^sup>*\<^sup>* s1 s'" "r = Val () \<Longrightarrow> answers s' (nextErrCh s) = [None]"
    using assms(3) by (auto simp: awaits_undisturbed_def)
  note frame = sync_step_frame [OF steps(1) assms(1) inv1]
  note res = removeOther_turn_result [OF assms(1,2,4) t]
  have "set (knownInformers s1) = set (knownInformers s) \<inter> set keep" if "r = Val ()"
  proof -
    from res frame steps(2) [OF that] have "set (knownInformers s1) \<subseteq> set keep" by auto
    moreover from res have "set (knownInformers s) \<inter> set keep \<subseteq> set (knownInformers s1)"
      by (auto simp: leaves_others_def)
    ultimately show ?thesis using res by auto
  qed
  with frame show ?thesis by auto
qed

interpretation caches: accessor_ops "caches_env tenv await mapCfg newCache newClient" "caches_wf tenv await"
  for tenv await mapCfg newCache newClient
proof unfold_locales
  let ?e = "caches_env tenv await mapCfg newCache newClient"
  have known: "set (am_GetGVKs ?e a w) = set (knownInformers (w a))" if "caches_wf tenv await w" for a w
    using that by (simp add: caches_env_def TrackingCache_GetGVKs_def caches_wf_def order_permutes_def)
  fix w a keep r w' b
  assume wf: "caches_wf tenv await w"
  then have laws: "env_calm tenv" "order_permutes tenv" "awaits_undisturbed tenv await" "tc_inv {} (w a)"
    by (auto simp: caches_wf_def)
  {
    assume "am_RemoveOtherInformers ?e a keep w = (r, w')"
    then obtain c where c: "RemoveOtherInformers tenv await keep (w a) = (r, c)" "w' = w(a := c)"
      by (auto simp: caches_env_def on_cache_def split: prod.splits)
    with RemoveOtherInformers_known [OF laws c(1)] wf show wf': "caches_wf tenv await w'"
      by (auto simp: caches_wf_def)
    from c(2) show "b \<noteq> a \<Longrightarrow> am_GetGVKs ?e b w' = am_GetGVKs ?e b w"
      by (simp add: caches_env_def)
  }
  assume run: "am_RemoveOtherInformers ?e a keep w = (Val (), w')"
  then obtain c where c: "RemoveOtherInformers tenv await keep (w a) = (Val (), c)" "w' = w(a := c)"
    by (auto simp: caches_env_def on_cache_def split: prod.splits)
  with RemoveOtherInformers_known [OF laws c(1)] wf known [of w a] known [of w' a]
  show "set (am_GetGVKs ?e a w') = set (am_GetGVKs ?e a w) \<inter> set keep"
    by (auto simp: caches_wf_def)
qed

section \<open>Freeing\<close>

text \<open>C31: when a user is freed, the cache of the owner is closed if nobody else uses it; otherwise it
  keeps running for the users that are left, with the informers it had for the kinds they use and
  no others. The caches are tracking caches, whose callers wait undisturbed.\<close>

theorem FreeWithUser_closes_or_trims:
  assumes "am_reachable (caches_env tenv await mapCfg newCache newClient) s" "caches_wf tenv await (am_world s)"
    and "entry_of s (toAccessManagerKey owner) = Some e"
    and "handleAccessorStop (caches_env tenv await mapCfg newCache newClient) owner (Some user) s = (Val (), s')"
    and "us = AList.delete (toAccessManagerKey user) (ae_users e)"
  shows "if us = [] then entry_of s' (toAccessManagerKey owner) = None \<and> ae_accessor e \<in> set (canceledCaches s')
    else entry_of s' (toAccessManagerKey owner) = Some (e\<lparr>ae_users := us\<rparr>) \<and>
      set (knownInformers (am_world s' (ae_accessor e))) =
        set (knownInformers (am_world s (ae_accessor e))) \<inter> (\<Union>gvks\<in>ran (map_of us). set gvks)"
proof -
  have g: "set (am_GetGVKs (caches_env tenv await mapCfg newCache newClient) a w) = set (knownInformers (w a))" for a w
    using assms(2) by (simp add: caches_env_def TrackingCache_GetGVKs_def caches_wf_def order_permutes_def)
  from caches.stop_trims [OF am_reachable_inv [OF assms(1)] assms(2,3,4), folded assms(5)]
  show ?thesis by (simp only: g)
qed

text \<open>Free does not stop a cache that has users. It is documented to stop and remove the cache of
  the owner; with users registered it only trims the informers.\<close>

theorem Free_keeps_cache_with_users:
  assumes "am_reachable env s" "entry_of s (toAccessManagerKey owner) = Some e" "ae_users e \<noteq> []"
    and "GetUID owner \<noteq> []" "AccessManager_Free env Served (Some owner) s = (Val err, s')"
  shows "entry_of s' (toAccessManagerKey owner) = Some e \<and> ae_accessor e \<notin> set (canceledCaches s')"
proof -
  obtain q s1 where q: "gcCache env owner s = (q, s1)" by fastforce
  then have stop: "handleAccessorStop env owner None s = (q, s1)"
    using assms(2) by (simp add: handleAccessorStop_def Let_def bind_def gets_def ret_def)
  have "s1 = s'"
    using assms(4,5) stop
    by (auto simp: AccessManager_Free_def FreeWithUser_def am_request_def bind_def attempt_def ret_def
        split: outcome.splits)
  moreover have "entry_of s1 (toAccessManagerKey owner) = Some e \<and> canceledCaches s1 = canceledCaches s"
    using q assms(2,3) by (auto elim!: gcCache_cases)
  ultimately show ?thesis using am_inv_entry(2) [OF am_reachable_inv [OF assms(1)] assms(2)] by simp
qed

section \<open>Caches that are lost\<close>

text \<open>C40: asking twice for a cache without registering a user returns a dead cache. The second Get
  finds the cache of the first, sees that it has no users, cancels it and hands it out without an
  error.\<close>

theorem second_Get_returns_canceled_cache:
  assumes "am_reachable env s" "entry_of s (toAccessManagerKey owner) = Some e" "ae_users e = []"
    and "GetUID owner \<noteq> []"
  shows "\<exists>s'. AccessManager_Get api env Served (Some owner) s = (Val (Some (ae_accessor e), None), s') \<and>
    ae_accessor e \<in> set (canceledCaches s') \<and> entry_of s' (toAccessManagerKey owner) = None"
  using assms(2,3,4)
  by (simp add: AccessManager_Get_def GetWithUser_def attempt_def lift_def am_request_def
      handleAccessorRequest_def gcCache_def Let_def bind_def gets_def ret_def modify_def entry_of_def
      delete_conv')

text \<open>The end of a canceled cache can take a live one with it. When the owner asks again before
  the goroutine of its canceled cache has reported, the report removes the entry of the new cache:
  it goes on running, not canceled, but the manager has lost it.\<close>

theorem stale_done_drops_live_cache:
  assumes "am_reachable env s" "(key, old) \<in> set (runningCaches s)" "old \<in> set (canceledCaches s)"
    and "entry_of s key = Some e"
  shows "\<exists>s'. am_step env s s' \<and> entry_of s' key = None \<and>
    (key, ae_accessor e) \<in> set (runningCaches s') \<and> ae_accessor e \<notin> set (canceledCaches s')"
proof -
  let ?s' = "s\<lparr>runningCaches := remove1 (key, old) (runningCaches s),
    accessors := AList.delete key (accessors s)\<rparr>"
  note e = am_inv_entry [OF am_reachable_inv [OF assms(1)] assms(4)]
  have "handleCacheDone key (Some ContextCanceled)
      (s\<lparr>runningCaches := remove1 (key, old) (runningCaches s)\<rparr>) = (Val (), ?s')"
    by (simp add: handleCacheDone_def bind_def modify_def ret_def)
  then have "am_step env s ?s'" by (rule step_done [OF assms(2)])
  moreover have "ae_accessor e \<noteq> old" using e(2) assms(3) by auto
  then have "(key, ae_accessor e) \<in> set (runningCaches ?s')" using e(1) by simp
  ultimately show ?thesis using e(2)
    by (intro exI [of _ ?s']) (simp add: entry_of_def delete_conv')
qed

section \<open>Sample runs\<close>

definition sample_am_env :: "(nat \<Rightarrow> bool trackingCache) am_env" where
  "sample_am_env = caches_env sample_tc_env sample_await (\<lambda>owner. Inr 0) (\<lambda>config. Inr True) (\<lambda>config. None)"

definition sample_caches :: "nat \<Rightarrow> bool trackingCache" where
  "sample_caches a = newTrackingCache_state True"

definition sample_am_owner :: Object where
  "sample_am_owner = (unstructured_of sample_gvk)\<lparr>GetUID := ''owner''\<rparr>"

lemma sample_am_env_simps [simp]:
  "mapConfig sample_am_env ow w = (Val 0, w)"
  "am_newTrackingCache sample_am_env config a w = (Val (), w(a := newTrackingCache_state True))"
  "am_newClient sample_am_env config w = (Val (), w)"
  by (simp_all add: sample_am_env_def caches_env_def newTrackingCache_def)

lemma sample_caches_wf: "caches_wf sample_tc_env sample_await (sample_caches(a := newTrackingCache_state True))"
  by (simp add: caches_wf_def sample_tc_env_calm sample_order_permutes sample_await_undisturbed
      sample_caches_def tc_inv_start)

lemma sample_keys: "toAccessManagerKey sample_am_owner \<noteq> toAccessManagerKey sample_user"
  by (simp add: toAccessManagerKey_def sample_am_owner_def sample_user_def)

definition sample_am :: "Object option \<Rightarrow> (nat \<Rightarrow> bool trackingCache) accessManager" where
  "sample_am user =
    \<lparr>accessors = [(toAccessManagerKey sample_am_owner, \<lparr>ae_accessor = 0,
        ae_users = (case user of None \<Rightarrow> [] | Some u \<Rightarrow> [(toAccessManagerKey u, [sample_gvk])])\<rparr>)],
     runningCaches = [(toAccessManagerKey sample_am_owner, 0)], canceledCaches = [], nextAccessor = 1,
     am_world = sample_caches(0 := newTrackingCache_state True)\<rparr>"

lemma sample_am_run:
  "handleAccessorRequest sample_am_env sample_am_owner user [sample_gvk] (newAccessManager sample_caches) =
    (Val (Some 0, None), sample_am user)"
  by (simp add: handleAccessorRequest_def Let_def bind_def gets_def entry_of_def newAccessManager_def
      attempt_def on_am_world_def start_cache_def modify_def ret_def sample_am_def)

lemma sample_am_reachable: "am_reachable sample_am_env (sample_am user)"
  by (rule am_next [OF am_start step_request [OF sample_am_run]])

lemma sample_am_entry:
  "entry_of (sample_am user) (toAccessManagerKey sample_am_owner) = Some \<lparr>ae_accessor = 0,
     ae_users = (case user of None \<Rightarrow> [] | Some u \<Rightarrow> [(toAccessManagerKey u, [sample_gvk])])\<rparr>"
  by (simp add: entry_of_def sample_am_def)

theorem access_manager_serves_live_cache_witness:
  "handleAccessorRequest sample_am_env sample_am_owner (Some sample_user) [sample_gvk]
      (newAccessManager sample_caches) = (Val (Some 0, None), sample_am (Some sample_user)) \<and>
    (toAccessManagerKey sample_am_owner, 0) \<in> set (runningCaches (sample_am (Some sample_user))) \<and>
    (\<exists>e. entry_of (sample_am (Some sample_user)) (toAccessManagerKey sample_am_owner) = Some e \<and>
      ae_accessor e = 0 \<and> map_of (ae_users e) (toAccessManagerKey sample_user) = Some [sample_gvk])"
  using access_manager_serves_live_cache [OF am_start, of sample_caches sample_am_env]
    sample_am_run [of "Some sample_user"] by blast

theorem FreeWithUser_closes_or_trims_witness:
  "\<exists>s'. handleAccessorStop sample_am_env sample_am_owner (Some sample_user) (sample_am (Some sample_user)) =
     (Val (), s') \<and> entry_of s' (toAccessManagerKey sample_am_owner) = None \<and> 0 \<in> set (canceledCaches s')"
proof -
  let ?run = "handleAccessorStop sample_am_env sample_am_owner (Some sample_user) (sample_am (Some sample_user))"
  have run: "?run = (Val (), snd ?run)"
    by (simp add: handleAccessorStop_def Let_def bind_def gets_def sample_am_entry set_users_eq gcCache_def
        modify_def ret_def)
  have "caches_wf sample_tc_env sample_await (am_world (sample_am (Some sample_user)))"
    using sample_caches_wf by (simp add: sample_am_def)
  from FreeWithUser_closes_or_trims [OF sample_am_reachable [unfolded sample_am_env_def] this sample_am_entry
      run [unfolded sample_am_env_def] refl]
  have "entry_of (snd ?run) (toAccessManagerKey sample_am_owner) = None \<and> 0 \<in> set (canceledCaches (snd ?run))"
    by (simp add: sample_am_env_def)
  with run show ?thesis by (metis prod.collapse)
qed

theorem Free_keeps_cache_with_users_witness:
  "\<exists>s'. AccessManager_Free sample_am_env Served (Some sample_am_owner) (sample_am (Some sample_user)) =
     (Val None, s') \<and> 0 \<notin> set (canceledCaches s')"
proof -
  let ?run = "AccessManager_Free sample_am_env Served (Some sample_am_owner) (sample_am (Some sample_user))"
  have run: "?run = (Val None, snd ?run)"
    by (simp add: AccessManager_Free_def FreeWithUser_def am_request_def handleAccessorStop_def Let_def
        bind_def gets_def sample_am_entry gcCache_def modify_def ret_def attempt_def sample_am_owner_def
        on_am_world_def sample_am_env_def caches_env_def on_cache_def RemoveOtherInformers_def
        removeOtherInformers_def request_def sample_await_def sample_am_def tc_run_simps
        newTrackingCache_state_def in_use_def entry_of_def)
  from Free_keeps_cache_with_users [OF sample_am_reachable sample_am_entry _ _ run] run
  show ?thesis by (intro exI [of _ "snd ?run"]) (simp add: sample_am_owner_def)
qed

theorem second_Get_returns_canceled_cache_witness:
  "\<forall>api. \<exists>s'. AccessManager_Get api sample_am_env Served (Some sample_am_owner) (sample_am None) =
     (Val (Some 0, None), s') \<and> 0 \<in> set (canceledCaches s')"
proof
  fix api
  have "GetUID sample_am_owner \<noteq> []" by (simp add: sample_am_owner_def)
  from second_Get_returns_canceled_cache [OF sample_am_reachable [of None] sample_am_entry _ this, of api]
  show "\<exists>s'. AccessManager_Get api sample_am_env Served (Some sample_am_owner) (sample_am None) =
     (Val (Some 0, None), s') \<and> 0 \<in> set (canceledCaches s')"
    by auto
qed

text \<open>The owner asks three times without registering a user: the second answer is the canceled
  cache, the third a new one, and the goroutine of the first has not reported yet.\<close>

definition sample_am2 :: "(nat \<Rightarrow> bool trackingCache) accessManager" where
  "sample_am2 = (sample_am None)\<lparr>accessors := [], canceledCaches := [0]\<rparr>"

definition sample_am3 :: "(nat \<Rightarrow> bool trackingCache) accessManager" where
  "sample_am3 = sample_am2\<lparr>
     accessors := [(toAccessManagerKey sample_am_owner, \<lparr>ae_accessor = 1, ae_users = []\<rparr>)],
     runningCaches := [(toAccessManagerKey sample_am_owner, 0), (toAccessManagerKey sample_am_owner, 1)],
     nextAccessor := 2,
     am_world := (am_world sample_am2)(1 := newTrackingCache_state True)\<rparr>"

lemma sample_am2_run:
  "handleAccessorRequest sample_am_env sample_am_owner None [] (sample_am None) = (Val (Some 0, None), sample_am2)"
  by (simp add: handleAccessorRequest_def Let_def bind_def gets_def gcCache_def sample_am_entry
      attempt_def modify_def ret_def sample_am2_def) (simp add: sample_am_def)

lemma sample_am3_run:
  "handleAccessorRequest sample_am_env sample_am_owner None [] sample_am2 = (Val (Some 1, None), sample_am3)"
  by (simp add: handleAccessorRequest_def Let_def bind_def gets_def entry_of_def sample_am2_def
      attempt_def on_am_world_def start_cache_def modify_def ret_def sample_am3_def sample_am_def)

lemma sample_am3_reachable: "am_reachable sample_am_env sample_am3"
  by (rule am_next [OF am_next [OF sample_am_reachable [of None] step_request [OF sample_am2_run]]
        step_request [OF sample_am3_run]])

theorem stale_done_drops_live_cache_witness:
  "\<exists>s'. am_step sample_am_env sample_am3 s' \<and> entry_of s' (toAccessManagerKey sample_am_owner) = None \<and>
    (toAccessManagerKey sample_am_owner, 1) \<in> set (runningCaches s') \<and> 1 \<notin> set (canceledCaches s')"
  using stale_done_drops_live_cache [OF sample_am3_reachable, of "toAccessManagerKey sample_am_owner" 0
      "\<lparr>ae_accessor = 1, ae_users = []\<rparr>"]
  by (auto simp: sample_am3_def sample_am2_def sample_am_def entry_of_def)

end
