(* ===== verification/EnqueueWatching.thy ===== *)
theory EnqueueWatching
  imports AccessManager
begin

text \<open>
  The event handler of \<open>managedcache/enqueue_watching.go\<close>: an event about an object becomes reconcile
  requests for the owners and users whose caches watch the kind of the object. The work queue is the
  list of the requests added to it, oldest first; \<open>ObjectKinds\<close> of the scheme and \<open>GVKForObject\<close> of
  controller-runtime are parameters. What the handler needs of its \<open>ownerRefGetter\<close> is the locale
  \<open>watcher_refs\<close>, interpreted on the access manager.
\<close>

section \<open>The handler\<close>

record EnqueueWatchingObjects =
  WatcherRefGetter :: "GroupVersionKind \<Rightarrow> AccessManagerKey list"
  WatcherType :: Object
  ew_groupKind :: GroupKind

type_synonym 'a queue_run = "(ObjectKey list, go_error, 'a) eff"

datatype event =
    CreateEvent "Object option"
  | UpdateEvent "Object option" "Object option"
  | DeleteEvent "Object option"
  | GenericEvent "Object option"

definition parseWatcherTypeGroupKind ::
  "(Object \<Rightarrow> go_error + GroupVersionKind list) \<Rightarrow> EnqueueWatchingObjects \<Rightarrow> EnqueueWatchingObjects go" where
  "parseWatcherTypeGroupKind objectKinds e =
    (case objectKinds (WatcherType e) of
       Inl err \<Rightarrow> Fail (Wrap ''getting object kinds from watchertype'' err)
     | Inr [k] \<Rightarrow> Val (e\<lparr>ew_groupKind := \<lparr>gk_Group = Group k, gk_Kind = Kind k\<rparr>\<rparr>)
     | Inr kinds \<Rightarrow> Fail (PlainError ''expected exactly 1 kind for WatcherType''))"

definition NewEnqueueWatchingObjects ::
  "(Object \<Rightarrow> go_error + GroupVersionKind list) \<Rightarrow> (GroupVersionKind \<Rightarrow> AccessManagerKey list) \<Rightarrow> Object \<Rightarrow>
    EnqueueWatchingObjects go" where
  "NewEnqueueWatchingObjects objectKinds watcherRefGetter watcherType =
    (case parseWatcherTypeGroupKind objectKinds
            \<lparr>WatcherRefGetter = watcherRefGetter, WatcherType = watcherType,
             ew_groupKind = \<lparr>gk_Group = [], gk_Kind = []\<rparr>\<rparr> of
       Val e \<Rightarrow> Val e
     | Fail err \<Rightarrow> Panics ''setting up NewEnqueueWatchingObjects''
     | Panics p \<Rightarrow> Panics p)"

text \<open>The body of the loop over the owner references, and the loop.\<close>

fun enqueue_refs :: "GroupKind \<Rightarrow> AccessManagerKey list \<Rightarrow> unit queue_run" where
  "enqueue_refs gk [] = ret ()"
| "enqueue_refs gk (ownerRef # ownerRefs) =
    (if Kind (amk_GVK ownerRef) \<noteq> gk_Kind gk \<or> Group (amk_GVK ownerRef) \<noteq> gk_Group gk
     then enqueue_refs gk ownerRefs
     else bind (modify (\<lambda>q. q @ [\<lparr>Namespace = Namespace (amk_Key ownerRef), Name = Name (amk_Key ownerRef)\<rparr>]))
            (\<lambda>_. enqueue_refs gk ownerRefs))"

definition enqueueWatchers :: "apimachinery \<Rightarrow> EnqueueWatchingObjects \<Rightarrow> Object option \<Rightarrow> unit queue_run" where
  "enqueueWatchers api e obj =
    (case obj of
       None \<Rightarrow> ret ()
     | Some ob \<Rightarrow>
         (case GVKForObject api ob of
            Inl err \<Rightarrow> panic ''getting gvk for object in enqueueWatchers''
          | Inr gvk \<Rightarrow> enqueue_refs (ew_groupKind e) (WatcherRefGetter e gvk)))"

fun handle_event :: "apimachinery \<Rightarrow> EnqueueWatchingObjects \<Rightarrow> event \<Rightarrow> unit queue_run" where
  "handle_event api e (CreateEvent obj) = enqueueWatchers api e obj"
| "handle_event api e (UpdateEvent objectOld objectNew) =
    bind (enqueueWatchers api e objectNew) (\<lambda>_. enqueueWatchers api e objectOld)"
| "handle_event api e (DeleteEvent obj) = enqueueWatchers api e obj"
| "handle_event api e (GenericEvent obj) = enqueueWatchers api e obj"

section \<open>What is enqueued\<close>

lemma enqueue_refs_run:
  "enqueue_refs gk refs q =
    (Val (), q @ map amk_Key (filter (\<lambda>k. GroupKind_of (amk_GVK k) = gk) refs))"
  by (induction refs arbitrary: q) (auto simp: eff_simps GroupKind_of_def)

lemma NewEnqueueWatchingObjects_Val:
  "NewEnqueueWatchingObjects objectKinds getter wt = Val e \<longleftrightarrow>
    (\<exists>k. objectKinds wt = Inr [k] \<and>
         e = \<lparr>WatcherRefGetter = getter, WatcherType = wt, ew_groupKind = GroupKind_of k\<rparr>)"
  by (auto simp: NewEnqueueWatchingObjects_def parseWatcherTypeGroupKind_def GroupKind_of_def
      split: sum.splits list.splits)

fun event_objects :: "event \<Rightarrow> Object option list" where
  "event_objects (CreateEvent obj) = [obj]"
| "event_objects (UpdateEvent objectOld objectNew) = [objectNew, objectOld]"
| "event_objects (DeleteEvent obj) = [obj]"
| "event_objects (GenericEvent obj) = [obj]"

definition due ::
  "(AccessManagerKey \<Rightarrow> GroupVersionKind \<Rightarrow> bool) \<Rightarrow> apimachinery \<Rightarrow> GroupKind \<Rightarrow> Object \<Rightarrow> ObjectKey set" where
  "due watches api gk ob =
    {amk_Key k | k gvk. GVKForObject api ob = Inr gvk \<and> watches k gvk \<and> GroupKind_of (amk_GVK k) = gk}"

text \<open>The contract of an \<open>ownerRefGetter\<close>: it returns the keys that watch a kind.\<close>

locale watcher_refs =
  fixes getter :: "GroupVersionKind \<Rightarrow> AccessManagerKey list"
    and watches :: "AccessManagerKey \<Rightarrow> GroupVersionKind \<Rightarrow> bool"
  assumes getter_exact: "k \<in> set (getter gvk) \<longleftrightarrow> watches k gvk"
begin

lemma enqueueWatchers_adds:
  assumes "WatcherRefGetter e = getter"
    and "\<And>ob err. obj = Some ob \<Longrightarrow> GVKForObject api ob \<noteq> Inl err"
  shows "\<exists>added. enqueueWatchers api e obj q = (Val (), q @ added) \<and>
    set added = (\<Union>ob \<in> set_option obj. due watches api (ew_groupKind e) ob)"
proof (cases obj)
  case None
  then show ?thesis by (simp add: enqueueWatchers_def ret_def)
next
  case (Some ob)
  then obtain gvk where "GVKForObject api ob = Inr gvk"
    using assms(2) by (cases "GVKForObject api ob") auto
  with Some assms(1) show ?thesis
    by (auto simp: enqueueWatchers_def enqueue_refs_run due_def getter_exact)
qed

lemma handle_event_adds:
  assumes "WatcherRefGetter e = getter"
    and "\<And>ob err. Some ob \<in> set (event_objects ev) \<Longrightarrow> GVKForObject api ob \<noteq> Inl err"
  shows "\<exists>added. handle_event api e ev q = (Val (), q @ added) \<and>
    set added = (\<Union>ob \<in> \<Union> (set_option ` set (event_objects ev)). due watches api (ew_groupKind e) ob)"
proof (cases ev)
  case (UpdateEvent objectOld objectNew)
  obtain added1 where 1: "enqueueWatchers api e objectNew q = (Val (), q @ added1)"
      "set added1 = (\<Union>ob \<in> set_option objectNew. due watches api (ew_groupKind e) ob)"
    using enqueueWatchers_adds [OF assms(1), of objectNew api q] assms(2) UpdateEvent by auto
  obtain added2 where 2: "enqueueWatchers api e objectOld (q @ added1) = (Val (), (q @ added1) @ added2)"
      "set added2 = (\<Union>ob \<in> set_option objectOld. due watches api (ew_groupKind e) ob)"
    using enqueueWatchers_adds [OF assms(1), of objectOld api "q @ added1"] assms(2) UpdateEvent by auto
  have "handle_event api e ev q = (Val (), q @ (added1 @ added2))"
    using UpdateEvent 1(1) 2(1) by (simp add: bind_def)
  moreover have "set (added1 @ added2) =
      (\<Union>ob \<in> \<Union> (set_option ` set (event_objects ev)). due watches api (ew_groupKind e) ob)"
    using UpdateEvent 1(2) 2(2) by simp
  ultimately show ?thesis by blast
next
  case (CreateEvent obj)
  with enqueueWatchers_adds [OF assms(1), of obj api q] assms(2) show ?thesis by simp
next
  case (DeleteEvent obj)
  with enqueueWatchers_adds [OF assms(1), of obj api q] assms(2) show ?thesis by simp
next
  case (GenericEvent obj)
  with enqueueWatchers_adds [OF assms(1), of obj api q] assms(2) show ?thesis by simp
qed

end

text \<open>The access manager as the getter: a key watches a kind when the cache it owns or uses has an
  informer for it.\<close>

definition watches_kind :: "'w am_env \<Rightarrow> 'w accessManager \<Rightarrow> AccessManagerKey \<Rightarrow> GroupVersionKind \<Rightarrow> bool" where
  "watches_kind env s k gvk \<longleftrightarrow> (\<exists>owner e. (owner, e) \<in> set (accessors s) \<and>
     gvk \<in> set (am_GetGVKs env (ae_accessor e) (am_world s)) \<and> (k = owner \<or> k \<in> fst ` set (ae_users e)))"

lemma set_GetWatchersForGVK:
  "k \<in> set (GetWatchersForGVK env s gvk) \<longleftrightarrow> (\<exists>ent \<in> set (accessors s).
     gvk \<in> set (am_GetGVKs env (ae_accessor (snd ent)) (am_world s)) \<and>
     (k = fst ent \<or> k \<in> fst ` set (ae_users (snd ent))))"
  by (simp add: GetWatchersForGVK_def case_prod_beta) blast

interpretation am_refs: watcher_refs "GetWatchersForGVK env s" "watches_kind env s" for env s
  by unfold_locales (simp only: set_GetWatchersForGVK watches_kind_def Bex_def split_paired_Ex fst_conv snd_conv)

text \<open>C32: an event wakes exactly the owners and users that watch it. Handling an event adds to the work
  queue the keys of those owners and users of the access manager, and only those, that have the
  group and kind of the watcher type and whose cache has an informer for the kind of an object of the
  event; an update counts for the old and the new object.\<close>

theorem events_enqueue_watchers:
  assumes "NewEnqueueWatchingObjects objectKinds (GetWatchersForGVK env s) watcherType = Val e"
    and "\<And>ob err. Some ob \<in> set (event_objects ev) \<Longrightarrow> GVKForObject api ob \<noteq> Inl err"
  shows "\<exists>k added. objectKinds watcherType = Inr [k] \<and> handle_event api e ev q = (Val (), q @ added) \<and>
    set added = {amk_Key w | w ob gvk. Some ob \<in> set (event_objects ev) \<and> GVKForObject api ob = Inr gvk \<and>
       watches_kind env s w gvk \<and> GroupKind_of (amk_GVK w) = GroupKind_of k}"
proof -
  obtain k where k: "objectKinds watcherType = Inr [k]"
      "e = \<lparr>WatcherRefGetter = GetWatchersForGVK env s, WatcherType = watcherType, ew_groupKind = GroupKind_of k\<rparr>"
    using assms(1) by (auto simp: NewEnqueueWatchingObjects_Val)
  then obtain added where "handle_event api e ev q = (Val (), q @ added)"
      "set added = (\<Union>ob \<in> \<Union> (set_option ` set (event_objects ev)). due (watches_kind env s) api (ew_groupKind e) ob)"
    using am_refs.handle_event_adds [of e env s ev api q] assms(2) by auto
  with k show ?thesis
    by (intro exI [of _ k] exI [of _ added]) (auto simp: due_def)
qed

text \<open>A handler for a type the scheme does not know, or knows under several kinds, is refused at
  construction. The constructor panics unless the scheme gives exactly one kind.\<close>

theorem NewEnqueueWatchingObjects_panics_iff:
  "is_panic (NewEnqueueWatchingObjects objectKinds getter watcherType) \<longleftrightarrow>
    (\<forall>k. objectKinds watcherType \<noteq> Inr [k])"
  by (auto simp: NewEnqueueWatchingObjects_def parseWatcherTypeGroupKind_def
      split: sum.splits list.splits)

section \<open>Sample run\<close>

text \<open>The owner's cache of \<open>sample_am\<close>, with an informer for the sample kind.\<close>

definition sample_watching :: "(nat \<Rightarrow> bool trackingCache) accessManager" where
  "sample_watching = (sample_am None)\<lparr>am_world :=
     sample_caches(0 := (newTrackingCache_state True)\<lparr>knownInformers := [sample_gvk]\<rparr>)\<rparr>"

definition sample_event_api :: apimachinery where
  "sample_event_api =
    \<lparr>GVKForObject = (\<lambda>ob. Inr (GVK ob)), ParseGroupVersion = (\<lambda>s. Inr ([], s)), GroupVersionString = Version,
     IsNotFound = (\<lambda>e. False), IsAlreadyExists = (\<lambda>e. False), IsTooManyRequests = (\<lambda>e. False),
     IsNoMatchError = (\<lambda>e. False), ContainsFinalizer = (\<lambda>ob f. False),
     UpgradeManagedFieldsPatch = (\<lambda>ob ow. Inr [])\<rparr>"

theorem events_enqueue_watchers_witness:
  "\<exists>e added. NewEnqueueWatchingObjects (\<lambda>t. Inr [GVK t]) (GetWatchersForGVK sample_am_env sample_watching)
      sample_am_owner = Val e \<and>
    handle_event sample_event_api e (CreateEvent (Some (unstructured_of sample_gvk))) [] = (Val (), added) \<and>
    ObjectKeyFromObject sample_am_owner \<in> set added"
proof -
  let ?w = "toAccessManagerKey sample_am_owner"
  obtain e where e: "NewEnqueueWatchingObjects (\<lambda>t. Inr [GVK t])
      (GetWatchersForGVK sample_am_env sample_watching) sample_am_owner = Val e"
    by (auto simp: NewEnqueueWatchingObjects_Val)
  have w: "watches_kind sample_am_env sample_watching ?w sample_gvk"
    by (simp add: watches_kind_def sample_watching_def sample_am_def sample_am_env_def caches_env_def
        TrackingCache_GetGVKs_def sample_tc_env_def)
  from events_enqueue_watchers [OF e, of "CreateEvent (Some (unstructured_of sample_gvk))" sample_event_api "[]"]
  obtain added where "handle_event sample_event_api e (CreateEvent (Some (unstructured_of sample_gvk))) [] =
      (Val (), added)"
    "set added = {amk_Key w | w gvk. gvk = sample_gvk \<and>
      watches_kind sample_am_env sample_watching w gvk \<and> GroupKind_of (amk_GVK w) = GroupKind_of (GVK sample_am_owner)}"
    by (auto simp: sample_event_api_def unstructured_of_def)
  moreover have "amk_Key ?w \<in> set added"
    using calculation(2) w by (force simp: toAccessManagerKey_def)
  ultimately show ?thesis using e by (auto simp: toAccessManagerKey_def)
qed

end
