(* ===== verification/OwnerStrategy.thy ===== *)
theory OwnerStrategy
  imports Cluster
begin

text \<open>
  The interface \<open>types.OwnerStrategy\<close> (machinery/types/options.go) between the engine and the
  two owner strategies. The record holds the operations the engine calls; every operation may
  panic. The locale \<open>owner_strategy\<close> states what the engine relies on, for owners and
  objects that are well formed for the strategy, and derives once what the engine's adoption
  sequence (copy the references, release the controller, set the controller) achieves. It is
  interpreted for the native and for the annotation strategy in their theories.
\<close>

record OwnerStrategy =
  SetControllerReference :: "Object \<Rightarrow> Object \<Rightarrow> Object go"
  GetController :: "Object \<Rightarrow> OwnerReference option go"
  IsController :: "Object \<Rightarrow> Object \<Rightarrow> bool go"
  CopyOwnerReferences :: "Object \<Rightarrow> Object \<Rightarrow> Object go"
  ReleaseController :: "Object \<Rightarrow> Object go"
  RemoveOwner :: "Object \<Rightarrow> Object \<Rightarrow> Object go"

text \<open>The engine's adoption sequence (objects.go, objectAdoptionHandling).\<close>

definition adopt :: "OwnerStrategy \<Rightarrow> Object \<Rightarrow> Object \<Rightarrow> Object \<Rightarrow> Object go" where
  "adopt S owner actual desired =
    obind (CopyOwnerReferences S actual desired) (\<lambda>d1.
    obind (ReleaseController S d1) (\<lambda>d2.
    owrap (Wrap ''set controller reference'') (SetControllerReference S owner d2)))"

text \<open>Two objects that differ at most in where owners are recorded: the owner references and the
  annotations in \<open>K\<close>.\<close>

definition same_but_owners :: "string set \<Rightarrow> Object \<Rightarrow> Object \<Rightarrow> bool" where
  "same_but_owners K a b \<longleftrightarrow>
    (\<exists>refs anns. b = a\<lparr>GetOwnerReferences := refs, GetAnnotations := anns\<rparr> \<and>
       (\<forall>k. k \<notin> K \<longrightarrow> map_get anns k = map_get (GetAnnotations a) k))"

lemma same_but_owners_refl: "same_but_owners K a a"
  unfolding same_but_owners_def
  by (rule exI [of _ "GetOwnerReferences a"], rule exI [of _ "GetAnnotations a"]) simp

lemma same_but_owners_trans:
  "same_but_owners K a b \<Longrightarrow> same_but_owners K b c \<Longrightarrow> same_but_owners K a c"
  by (auto simp: same_but_owners_def) blast

lemma same_but_owners_frame:
  assumes "same_but_owners K a b"
  shows "repr b = repr a" "GVK b = GVK a" "GetName b = GetName a" "GetNamespace b = GetNamespace a"
    "GetUID b = GetUID a" "GetResourceVersion b = GetResourceVersion a" "GetLabels b = GetLabels a"
    "content b = content a" "ToObjectRef b = ToObjectRef a"
    "k \<notin> K \<Longrightarrow> map_get (GetAnnotations b) k = map_get (GetAnnotations a) k"
  using assms by (auto simp: same_but_owners_def ToObjectRef_def ObjectKeyFromObject_def)

text \<open>The operations touch nothing but the ownership record.\<close>

definition strategy_frames :: "OwnerStrategy \<Rightarrow> string set \<Rightarrow> bool" where
  "strategy_frames S K \<longleftrightarrow>
    (\<forall>owner obj obj'. SetControllerReference S owner obj = Val obj' \<longrightarrow> same_but_owners K obj obj') \<and>
    (\<forall>a b b'. CopyOwnerReferences S a b = Val b' \<longrightarrow> same_but_owners K b b') \<and>
    (\<forall>obj obj'. ReleaseController S obj = Val obj' \<longrightarrow> same_but_owners K obj obj') \<and>
    (\<forall>owner obj obj'. RemoveOwner S owner obj = Val obj' \<longrightarrow> same_but_owners K obj obj')"

lemma strategy_framesD:
  assumes "strategy_frames S K"
  shows "SetControllerReference S owner obj = Val obj' \<Longrightarrow> same_but_owners K obj obj'"
    and "CopyOwnerReferences S a b = Val b' \<Longrightarrow> same_but_owners K b b'"
    and "ReleaseController S obj = Val obj' \<Longrightarrow> same_but_owners K obj obj'"
    and "RemoveOwner S owner obj = Val obj' \<Longrightarrow> same_but_owners K obj obj'"
  using assms by (auto simp: strategy_frames_def)

lemma adopt_frames:
  assumes "strategy_frames S K" "adopt S owner actual desired = Val d"
  shows "same_but_owners K desired d"
  using assms(2) strategy_framesD [OF assms(1)]
  by (auto simp: adopt_def obind_eq_Val) (metis same_but_owners_trans)

section \<open>What the engine relies on\<close>

locale owner_strategy =
  fixes S :: OwnerStrategy
    and K :: "string set"
    and owner_ok :: "Object \<Rightarrow> Object \<Rightarrow> bool"
    and obj_ok :: "Object \<Rightarrow> bool"
  assumes get_total: "obj_ok obj \<Longrightarrow> \<exists>c. GetController S obj = Val c"
    and is_total: "owner_ok owner obj \<Longrightarrow> obj_ok obj \<Longrightarrow> \<exists>b. IsController S owner obj = Val b"
    and is_controller_found: "owner_ok owner obj \<Longrightarrow> obj_ok obj \<Longrightarrow>
      IsController S owner obj = Val True \<Longrightarrow> \<exists>r. GetController S obj = Val (Some r)"
    and copy_ok: "obj_ok a \<Longrightarrow> \<exists>b'. CopyOwnerReferences S a b = Val b' \<and> obj_ok b' \<and>
      same_but_owners K b b' \<and> GetController S b' = GetController S a"
    and release_ok: "obj_ok obj \<Longrightarrow> \<exists>obj'. ReleaseController S obj = Val obj' \<and> obj_ok obj' \<and>
      same_but_owners K obj obj' \<and> GetController S obj' = Val None"
    and set_ok: "owner_ok owner obj \<Longrightarrow> obj_ok obj \<Longrightarrow> GetController S obj = Val None \<Longrightarrow>
      \<exists>obj' r. SetControllerReference S owner obj = Val obj' \<and> obj_ok obj' \<and>
        same_but_owners K obj obj' \<and> IsController S owner obj' = Val True \<and>
        GetController S obj' = Val (Some r) \<and> or_UID r = GetUID owner"
    and remove_ok: "owner_ok owner obj \<Longrightarrow> obj_ok obj \<Longrightarrow>
      \<exists>obj'. RemoveOwner S owner obj = Val obj' \<and> obj_ok obj' \<and> same_but_owners K obj obj'"
    and owner_ok_frame: "owner_ok owner obj \<Longrightarrow> same_but_owners K obj obj' \<Longrightarrow> owner_ok owner obj'"
    and reads_owners_only: "GetController S (obj\<lparr>GetResourceVersion := rv\<rparr>) = GetController S obj"
      "IsController S owner (obj\<lparr>GetResourceVersion := rv\<rparr>) = IsController S owner obj"
begin

text \<open>Adoption succeeds on well-formed objects, makes the owner the controller and the only one
  \<open>GetController\<close> reports, and changes nothing but the ownership record of the desired object.\<close>

lemma adopt_makes_controller:
  assumes ok: "owner_ok owner desired" "obj_ok actual"
  shows "\<exists>d r. adopt S owner actual desired = Val d \<and> obj_ok d \<and> same_but_owners K desired d \<and>
    IsController S owner d = Val True \<and> GetController S d = Val (Some r) \<and> or_UID r = GetUID owner"
proof -
  obtain d1 where d1: "CopyOwnerReferences S actual desired = Val d1" "obj_ok d1"
    "same_but_owners K desired d1"
    using copy_ok [OF ok(2)] by blast
  obtain d2 where d2: "ReleaseController S d1 = Val d2" "obj_ok d2" "same_but_owners K d1 d2"
    "GetController S d2 = Val None"
    using release_ok [OF d1(2)] by blast
  have 12: "same_but_owners K desired d2" using d1(3) d2(3) by (rule same_but_owners_trans)
  obtain d r where d: "SetControllerReference S owner d2 = Val d" "obj_ok d"
    "same_but_owners K d2 d" "IsController S owner d = Val True"
    "GetController S d = Val (Some r)" "or_UID r = GetUID owner"
    using set_ok [OF owner_ok_frame [OF ok(1) 12] d2(2,4)] by blast
  have "same_but_owners K desired d" using 12 d(3) by (rule same_but_owners_trans)
  with d1 d2 d show ?thesis by (auto simp: adopt_def)
qed

lemma adopt_no_panic:
  "owner_ok owner desired \<Longrightarrow> obj_ok actual \<Longrightarrow> \<not> is_panic (adopt S owner actual desired)"
  using adopt_makes_controller [of owner desired actual] by auto

end

end
