(* ===== verification/Json.thy ===== *)
theory Json
  imports Kube
begin

text \<open>
  \<open>encoding/json\<close> as far as the annotation owner strategy uses it: \<open>json.Marshal\<close>'s compact
  output with its HTML-safe escapes, and the parser behind \<open>json.Unmarshal\<close>. Bytes above 127 are
  copied through, which is what \<open>json.Marshal\<close> does to valid UTF-8 (U+2028 and U+2029 apart);
  the round trip \<open>parse_print\<close> is stated for ASCII strings, which is what Kubernetes names,
  kinds, API versions and UIDs are. The parser takes fuel; \<open>json_parse\<close> gives it the length of
  its input, and \<open>parse_print\<close> shows that this is enough for everything \<open>json_print\<close> prints.
\<close>

section \<open>Printing\<close>

definition escape_char :: "char \<Rightarrow> string" where
  "escape_char c =
    (let n = of_char c :: nat in
     if c = CHR 0x22 then [CHR 0x5C, CHR 0x22]
     else if c = CHR 0x5C then [CHR 0x5C, CHR 0x5C]
     else if n = 8 then [CHR 0x5C, CHR ''b'']
     else if n = 12 then [CHR 0x5C, CHR ''f'']
     else if n = 10 then [CHR 0x5C, CHR ''n'']
     else if n = 13 then [CHR 0x5C, CHR ''r'']
     else if n = 9 then [CHR 0x5C, CHR ''t'']
     else if n < 32 \<or> c = CHR ''<'' \<or> c = CHR ''>'' \<or> c = CHR ''&''
       then [CHR 0x5C, CHR ''u'', CHR ''0'', CHR ''0'', hex_char (n div 16), hex_char (n mod 16)]
     else [c])"

fun print_chars :: "string \<Rightarrow> string" where
  "print_chars [] = [CHR 0x22]"
| "print_chars (c # cs) = escape_char c @ print_chars cs"

definition print_string :: "string \<Rightarrow> string" where
  "print_string s = CHR 0x22 # print_chars s"

fun json_print :: "json \<Rightarrow> string"
  and print_elems :: "json list \<Rightarrow> string"
  and print_members :: "(string \<times> json) list \<Rightarrow> string" where
  "json_print JNull = ''null''"
| "json_print (JBool b) = (if b then ''true'' else ''false'')"
| "json_print (JInt i) = FormatInt i"
| "json_print (JFloat s) = s"
| "json_print (JString s) = print_string s"
| "json_print (JList vs) = CHR ''['' # (if vs = [] then '']'' else print_elems vs)"
| "json_print (JMap ms) = CHR ''{'' # (if ms = [] then ''}'' else print_members ms)"
| "print_elems [] = []"
| "print_elems (v # vs) = json_print v @ (if vs = [] then '']'' else CHR '','' # print_elems vs)"
| "print_members [] = []"
| "print_members (m # ms) =
     print_string (fst m) @ CHR '':'' # json_print (snd m) @
       (if ms = [] then ''}'' else CHR '','' # print_members ms)"

section \<open>Parsing\<close>

fun skip_ws :: "string \<Rightarrow> string" where
  "skip_ws [] = []"
| "skip_ws (c # cs) =
     (if c = CHR '' '' \<or> c = CHR 0x09 \<or> c = CHR 0x0A \<or> c = CHR 0x0D then skip_ws cs else c # cs)"

definition hex_value :: "char \<Rightarrow> nat option" where
  "hex_value c =
    (let n = of_char c :: nat in
     if 48 \<le> n \<and> n \<le> 57 then Some (n - 48)
     else if 97 \<le> n \<and> n \<le> 102 then Some (n - 87)
     else if 65 \<le> n \<and> n \<le> 70 then Some (n - 55)
     else None)"

fun hex4 :: "string \<Rightarrow> (nat \<times> string) option" where
  "hex4 (a # b # c # d # r) =
    (case (hex_value a, hex_value b, hex_value c, hex_value d) of
       (Some w, Some x, Some y, Some z) \<Rightarrow> Some (((w * 16 + x) * 16 + y) * 16 + z, r)
     | _ \<Rightarrow> None)"
| "hex4 _ = None"

definition utf8 :: "nat \<Rightarrow> string" where
  "utf8 n =
    (if n < 128 then [char_of n]
     else if n < 2048 then [char_of (192 + n div 64), char_of (128 + n mod 64)]
     else if n < 65536 then
       [char_of (224 + n div 4096), char_of (128 + n div 64 mod 64), char_of (128 + n mod 64)]
     else
       [char_of (240 + n div 262144), char_of (128 + n div 4096 mod 64),
        char_of (128 + n div 64 mod 64), char_of (128 + n mod 64)])"

text \<open>A \<open>\u\<close> escape: a surrogate pair is one code point, a lone surrogate is U+FFFD.\<close>

definition unescape_u :: "string \<Rightarrow> (string \<times> string) option" where
  "unescape_u s =
    (case hex4 s of
       None \<Rightarrow> None
     | Some (n, r) \<Rightarrow>
         if n < 55296 \<or> 57344 \<le> n then Some (utf8 n, r)
         else (case r of
                 b # u # r' \<Rightarrow>
                   if b = CHR 0x5C \<and> u = CHR ''u'' \<and> n < 56320 then
                     (case hex4 r' of
                        Some (m, r'') \<Rightarrow>
                          if 56320 \<le> m \<and> m < 57344
                          then Some (utf8 (65536 + (n - 55296) * 1024 + (m - 56320)), r'')
                          else Some (utf8 65533, r)
                      | None \<Rightarrow> Some (utf8 65533, r))
                   else Some (utf8 65533, r)
               | _ \<Rightarrow> Some (utf8 65533, r)))"

fun unescape :: "string \<Rightarrow> (string \<times> string) option" where
  "unescape [] = None"
| "unescape (c # r) =
    (if c = CHR 0x22 \<or> c = CHR 0x5C \<or> c = CHR ''/'' then Some ([c], r)
     else if c = CHR ''b'' then Some ([CHR 0x08], r)
     else if c = CHR ''f'' then Some ([CHR 0x0C], r)
     else if c = CHR ''n'' then Some ([CHR 0x0A], r)
     else if c = CHR ''r'' then Some ([CHR 0x0D], r)
     else if c = CHR ''t'' then Some ([CHR 0x09], r)
     else if c = CHR ''u'' then unescape_u r
     else None)"

fun parse_chars :: "nat \<Rightarrow> string \<Rightarrow> (string \<times> string) option" where
  "parse_chars 0 s = None"
| "parse_chars (Suc n) [] = None"
| "parse_chars (Suc n) (c # cs) =
    (if c = CHR 0x22 then Some ([], cs)
     else if c = CHR 0x5C then
       (case unescape cs of
          None \<Rightarrow> None
        | Some (bs, r) \<Rightarrow> map_option (\<lambda>(t, r'). (bs @ t, r')) (parse_chars n r))
     else if (of_char c :: nat) < 32 then None
     else map_option (\<lambda>(t, r'). (c # t, r')) (parse_chars n cs))"

subsection \<open>Numbers\<close>

definition is_digit :: "char \<Rightarrow> bool" where
  "is_digit c \<longleftrightarrow> char_digit c \<noteq> None"

definition is_number_char :: "char \<Rightarrow> bool" where
  "is_number_char c \<longleftrightarrow> is_digit c \<or> c \<in> {CHR ''+'', CHR ''-'', CHR ''.'', CHR ''e'', CHR ''E''}"

definition valid_exponent :: "string \<Rightarrow> bool" where
  "valid_exponent s =
    (case s of
       [] \<Rightarrow> True
     | c # cs \<Rightarrow>
         (c = CHR ''e'' \<or> c = CHR ''E'') \<and>
         (let ds = (case cs of
                      d # ds \<Rightarrow> if d = CHR ''+'' \<or> d = CHR ''-'' then ds else cs
                    | [] \<Rightarrow> [])
          in ds \<noteq> [] \<and> list_all is_digit ds))"

definition valid_fraction :: "string \<Rightarrow> bool" where
  "valid_fraction s =
    (case s of
       [] \<Rightarrow> True
     | c # cs \<Rightarrow>
         if c = CHR ''.''
         then takeWhile is_digit cs \<noteq> [] \<and> valid_exponent (dropWhile is_digit cs)
         else valid_exponent s)"

definition valid_number :: "string \<Rightarrow> bool" where
  "valid_number s =
    (let t = (case s of c # cs \<Rightarrow> if c = CHR ''-'' then cs else s | [] \<Rightarrow> []);
         ds = takeWhile is_digit t
     in ds \<noteq> [] \<and> (hd ds = CHR ''0'' \<longrightarrow> tl ds = []) \<and> valid_fraction (dropWhile is_digit t))"

definition parse_number :: "string \<Rightarrow> (json \<times> string) option" where
  "parse_number s =
    (let tok = takeWhile is_number_char s in
     if valid_number tok then Some (JFloat tok, dropWhile is_number_char s) else None)"

fun expect :: "string \<Rightarrow> json \<Rightarrow> string \<Rightarrow> (json \<times> string) option" where
  "expect [] v s = Some (v, s)"
| "expect (k # ks) v [] = None"
| "expect (k # ks) v (c # cs) = (if c = k then expect ks v cs else None)"

subsection \<open>Values\<close>

fun parse_value :: "nat \<Rightarrow> string \<Rightarrow> (json \<times> string) option"
  and parse_elems :: "nat \<Rightarrow> string \<Rightarrow> (json list \<times> string) option"
  and parse_members :: "nat \<Rightarrow> string \<Rightarrow> ((string \<times> json) list \<times> string) option" where
  "parse_value 0 s = None"
| "parse_value (Suc n) s =
    (case skip_ws s of
       [] \<Rightarrow> None
     | c # cs \<Rightarrow>
         if c = CHR 0x22 then map_option (\<lambda>(t, r). (JString t, r)) (parse_chars n cs)
         else if c = CHR ''['' then
           (case skip_ws cs of
              d # ds \<Rightarrow> if d = CHR '']'' then Some (JList [], ds)
                        else map_option (\<lambda>(vs, r). (JList vs, r)) (parse_elems n (d # ds))
            | [] \<Rightarrow> None)
         else if c = CHR ''{'' then
           (case skip_ws cs of
              d # ds \<Rightarrow> if d = CHR ''}'' then Some (JMap [], ds)
                        else map_option (\<lambda>(ms, r). (JMap ms, r)) (parse_members n (d # ds))
            | [] \<Rightarrow> None)
         else if c = CHR ''n'' then expect ''ull'' JNull cs
         else if c = CHR ''t'' then expect ''rue'' (JBool True) cs
         else if c = CHR ''f'' then expect ''alse'' (JBool False) cs
         else parse_number (c # cs))"
| "parse_elems 0 s = None"
| "parse_elems (Suc n) s =
    (case parse_value n s of
       None \<Rightarrow> None
     | Some (v, r) \<Rightarrow>
         (case skip_ws r of
            d # ds \<Rightarrow> if d = CHR '']'' then Some ([v], ds)
                      else if d = CHR '','' then map_option (\<lambda>(vs, r'). (v # vs, r')) (parse_elems n ds)
                      else None
          | [] \<Rightarrow> None))"
| "parse_members 0 s = None"
| "parse_members (Suc n) s =
    (case skip_ws s of
       [] \<Rightarrow> None
     | c # cs \<Rightarrow>
         if c \<noteq> CHR 0x22 then None
         else case parse_chars n cs of
                None \<Rightarrow> None
              | Some (k, r) \<Rightarrow>
                  (case skip_ws r of
                     [] \<Rightarrow> None
                   | e # es \<Rightarrow>
                       if e \<noteq> CHR '':'' then None
                       else case parse_value n es of
                              None \<Rightarrow> None
                            | Some (v, r') \<Rightarrow>
                                (case skip_ws r' of
                                   d # ds \<Rightarrow>
                                     if d = CHR ''}'' then Some ([(k, v)], ds)
                                     else if d = CHR '','' then
                                       map_option (\<lambda>(ms, q). ((k, v) # ms, q)) (parse_members n ds)
                                     else None
                                 | [] \<Rightarrow> None)))"

text \<open>\<open>json.Unmarshal\<close> rejects anything but white space after the value.\<close>

definition json_parse :: "string \<Rightarrow> json option" where
  "json_parse s =
    (case parse_value (Suc (length s)) s of
       Some (v, r) \<Rightarrow> if skip_ws r = [] then Some v else None
     | None \<Rightarrow> None)"

section \<open>Round trip\<close>

definition ascii :: "string \<Rightarrow> bool" where
  "ascii s \<longleftrightarrow> list_all (\<lambda>c. (of_char c :: nat) < 128) s"

lemma ascii_Nil [simp]: "ascii []"
  by (simp add: ascii_def)

lemma ascii_Cons: "ascii (c # cs) \<longleftrightarrow> (of_char c :: nat) < 128 \<and> ascii cs"
  by (simp add: ascii_def)

lemma hex_value_hex_char: "k < 16 \<Longrightarrow> hex_value (hex_char k) = Some k"
  by (auto simp: hex_value_def hex_char_def Let_def take_bit_eq_mod)

lemma unescape_u_escape:
  assumes "n < 128"
  shows "unescape_u (CHR ''0'' # CHR ''0'' # hex_char (n div 16) # hex_char (n mod 16) # t)
       = Some ([char_of n], t)"
proof -
  have "hex_value (CHR ''0'') = Some 0" by (simp add: hex_value_def)
  with assms show ?thesis
    by (simp add: unescape_u_def hex_value_hex_char utf8_def)
qed

lemma parse_chars_escape:
  assumes "(of_char c :: nat) < 128"
  shows "parse_chars (Suc n) (escape_char c @ t) =
    map_option (\<lambda>(u, r). (c # u, r)) (parse_chars n t)"
proof -
  have 1: "(of_char c :: nat) = 8 \<Longrightarrow> c = CHR 0x08" "(of_char c :: nat) = 12 \<Longrightarrow> c = CHR 0x0C"
    "(of_char c :: nat) = 10 \<Longrightarrow> c = CHR 0x0A" "(of_char c :: nat) = 13 \<Longrightarrow> c = CHR 0x0D"
    "(of_char c :: nat) = 9 \<Longrightarrow> c = CHR 0x09"
    by (auto intro: of_char_eqI [where 'a = nat])
  from assms show ?thesis
    by (auto simp: escape_char_def Let_def unescape_u_escape dest: 1)
qed

lemma escape_char_length: "1 \<le> length (escape_char c)"
  by (simp add: escape_char_def Let_def)

lemma parse_chars_print:
  "ascii s \<Longrightarrow> length (print_chars s) \<le> n \<Longrightarrow>
    parse_chars n (print_chars s @ rest) = Some (s, rest)"
proof (induction s arbitrary: n)
  case Nil
  then show ?case by (cases n) auto
next
  case (Cons c cs)
  then obtain m where n: "n = Suc m" using escape_char_length [of c] by (cases n) auto
  with Cons.prems escape_char_length [of c] have "length (print_chars cs) \<le> m"
    unfolding print_chars.simps length_append by linarith
  with Cons n show ?case by (simp add: ascii_Cons parse_chars_escape)
qed

text \<open>The values the round trip covers: no numbers, ASCII strings.\<close>

fun plain :: "json \<Rightarrow> bool" where
  "plain JNull = True"
| "plain (JBool b) = True"
| "plain (JInt i) = False"
| "plain (JFloat s) = False"
| "plain (JString s) = ascii s"
| "plain (JList vs) = list_all plain vs"
| "plain (JMap ms) = list_all (\<lambda>m. ascii (fst m) \<and> plain (snd m)) ms"

lemma skip_ws_print_chars [simp]:
  "skip_ws (CHR 0x22 # s) = CHR 0x22 # s" "skip_ws (CHR ''['' # s) = CHR ''['' # s"
  "skip_ws (CHR '']'' # s) = CHR '']'' # s" "skip_ws (CHR ''{'' # s) = CHR ''{'' # s"
  "skip_ws (CHR ''}'' # s) = CHR ''}'' # s" "skip_ws (CHR '','' # s) = CHR '','' # s"
  "skip_ws (CHR '':'' # s) = CHR '':'' # s"
  by simp_all

lemma json_print_head:
  assumes "plain v"
  obtains c cs where "json_print v = c # cs" and "c \<noteq> CHR '']''" and "\<And>t. skip_ws (c # t) = c # t"
proof (cases v)
  case (JBool b)
  then show ?thesis by (cases b) (auto intro: that)
qed (use assms in \<open>auto simp: print_string_def intro: that\<close>)

lemma print_elems_head:
  assumes "plain v"
  shows "\<exists>c cs. print_elems (v # vs) @ rest = c # cs \<and> c \<noteq> CHR '']'' \<and> skip_ws (c # cs) = c # cs"
  using assms by (elim json_print_head) auto

lemma print_members_head: "\<exists>cs. print_members (m # ms) @ rest = CHR 0x22 # cs"
  by (simp add: print_string_def)

lemma parse_value_JList:
  assumes "plain u" and "parse_elems n (print_elems (u # us) @ rest) = Some (u # us, rest)"
  shows "parse_value (Suc n) (json_print (JList (u # us)) @ rest) = Some (JList (u # us), rest)"
proof -
  from print_elems_head [OF assms(1), of us rest] obtain c cs where
    "print_elems (u # us) @ rest = c # cs" "c \<noteq> CHR '']''" "skip_ws (c # cs) = c # cs"
    by blast
  with assms(2) show ?thesis by (simp del: print_elems.simps)
qed

lemma parse_value_JMap:
  assumes "parse_members n (print_members (u # us) @ rest) = Some (u # us, rest)"
  shows "parse_value (Suc n) (json_print (JMap (u # us)) @ rest) = Some (JMap (u # us), rest)"
proof -
  from print_members_head [of u us rest] obtain cs where
    "print_members (u # us) @ rest = CHR 0x22 # cs" by blast
  with assms show ?thesis by (simp del: print_members.simps)
qed

lemma parse_members_Cons:
  assumes "\<And>r. parse_chars n (print_chars k @ r) = Some (k, r)"
    and "\<And>r. parse_value n (json_print u @ r) = Some (u, r)"
    and "us \<noteq> [] \<Longrightarrow> parse_members n (print_members us @ rest) = Some (us, rest)"
  shows "parse_members (Suc n) (print_members ((k, u) # us) @ rest) = Some ((k, u) # us, rest)"
  using assms by (cases "us = []") (simp_all add: print_string_def)

lemma parse_print_fuel:
  shows "plain v \<Longrightarrow> length (json_print v) \<le> n \<Longrightarrow>
      parse_value n (json_print v @ rest) = Some (v, rest)"
    and "vs \<noteq> [] \<Longrightarrow> list_all plain vs \<Longrightarrow> length (print_elems vs) \<le> n \<Longrightarrow>
      parse_elems n (print_elems vs @ rest) = Some (vs, rest)"
    and "ms \<noteq> [] \<Longrightarrow> list_all (\<lambda>m. ascii (fst m) \<and> plain (snd m)) ms \<Longrightarrow>
      length (print_members ms) \<le> n \<Longrightarrow>
      parse_members n (print_members ms @ rest) = Some (ms, rest)"
proof (induction n arbitrary: v vs ms rest)
  case 0
  { case 1 then show ?case by (elim json_print_head) auto
  next case 2 then show ?case by (cases vs) (auto elim: json_print_head)
  next case 3 then show ?case by (cases ms) (auto simp: print_string_def) }
next
  case (Suc n)
  { case 1
    then show ?case
    proof (cases v)
      case (JList us)
      with 1 Suc.IH(2) [of us rest] parse_value_JList [of "hd us" n "tl us" rest] show ?thesis
        by (cases us) simp_all
    next
      case (JMap us)
      with 1 Suc.IH(3) [of us rest] parse_value_JMap [of n "hd us" "tl us" rest] show ?thesis
        by (cases us) simp_all
    qed (auto simp: print_string_def parse_chars_print)
  next
    case 2
    then obtain u us where vs: "vs = u # us" by (cases vs) auto
    with 2 Suc.IH(1) [of u] Suc.IH(2) [of us rest] show ?case
      by (auto split: if_splits)
  next
    case 3
    then obtain k u us where ms: "ms = (k, u) # us" by (cases ms) auto
    with 3 Suc.IH(1) [of u] Suc.IH(3) [of us rest] show ?case
      unfolding ms
      by (intro parse_members_Cons parse_chars_print)
        (auto simp: print_string_def split: if_splits) }
qed

lemma parse_print: "plain v \<Longrightarrow> json_parse (json_print v) = Some v"
  using parse_print_fuel(1) [of v "Suc (length (json_print v))" "[]"] by (simp add: json_parse_def)

lemma json_print_nonempty: "plain v \<Longrightarrow> json_print v \<noteq> []"
  by (elim json_print_head) auto

section \<open>Maps in key order, and the verb \<open>%s\<close>\<close>

text \<open>\<open>json.Marshal\<close> and \<open>fmt\<close> visit the members of a map in the order of their keys.\<close>

fun key_le :: "string \<Rightarrow> string \<Rightarrow> bool" where
  "key_le [] t = True"
| "key_le (a # s) [] = False"
| "key_le (a # s) (b # t) =
     ((of_char a :: nat) < of_char b \<or> a = b \<and> key_le s t)"

fun insert_member :: "string \<times> 'a \<Rightarrow> (string \<times> 'a) list \<Rightarrow> (string \<times> 'a) list" where
  "insert_member m [] = [m]"
| "insert_member m (n # ns) = (if key_le (fst m) (fst n) then m # n # ns else n # insert_member m ns)"

definition sort_by_key :: "(string \<times> 'a) list \<Rightarrow> (string \<times> 'a) list" where
  "sort_by_key ms = foldr insert_member ms []"

fun sort_members :: "json \<Rightarrow> json" where
  "sort_members (JList vs) = JList (map sort_members vs)"
| "sort_members (JMap ms) = JMap (sort_by_key (map (\<lambda>m. (fst m, sort_members (snd m))) ms))"
| "sort_members v = v"

definition json_marshal :: "json \<Rightarrow> string" where
  "json_marshal v = json_print (sort_members v)"

definition bad_verb :: "string \<Rightarrow> string \<Rightarrow> string" where
  "bad_verb ty v = ''%!s('' @ ty @ ''='' @ v @ '')''"

fun format_s :: "json \<Rightarrow> string" where
  "format_s JNull = ''%!s(<nil>)''"
| "format_s (JBool b) = bad_verb ''bool'' (if b then ''true'' else ''false'')"
| "format_s (JInt i) = bad_verb ''int64'' (FormatInt i)"
| "format_s (JFloat s) = bad_verb ''float64'' s"
| "format_s (JString s) = s"
| "format_s (JList vs) = ''['' @ Join (map format_s vs) '' '' @ '']''"
| "format_s (JMap ms) =
     ''map['' @ Join (map (\<lambda>m. fst m @ '':'' @ snd m)
        (sort_by_key (map (\<lambda>m. (fst m, format_s (snd m))) ms))) '' '' @ '']''"

lemma set_insert_member [simp]: "set (insert_member m ms) = insert m (set ms)"
  by (induction ms) auto

lemma set_sort_by_key [simp]: "set (sort_by_key ms) = set ms"
  by (induction ms) (auto simp: sort_by_key_def)

lemma key_le_total: "key_le s t \<or> key_le t s"
proof (induction s t rule: key_le.induct)
  case (3 a s b t)
  then show ?case
    using linorder_neq_iff [of "of_char a :: nat" "of_char b"] by (cases "a = b") auto
qed auto

lemma key_le_antisym: "key_le s t \<Longrightarrow> key_le t s \<Longrightarrow> s = t"
proof (induction s t rule: key_le.induct)
  case (1 t)
  then show ?case by (cases t) auto
qed auto

lemma key_le_trans: "key_le s t \<Longrightarrow> key_le t u \<Longrightarrow> key_le s u"
proof (induction s t arbitrary: u rule: key_le.induct)
  case (3 a s b t)
  then show ?case by (cases u) auto
qed auto

text \<open>Where keys determine members, the order in which members are inserted does not matter, so
  the sorted list depends only on which members there are.\<close>

lemma insert_member_commute:
  assumes "fst m = fst n \<Longrightarrow> m = n"
  shows "insert_member m (insert_member n ms) = insert_member n (insert_member m ms)"
proof (induction ms)
  case Nil
  show ?case using assms key_le_total [of "fst m" "fst n"] key_le_antisym [of "fst m" "fst n"] by auto
next
  case (Cons x xs)
  show ?case
    using Cons assms key_le_total [of "fst m" "fst n"] key_le_antisym [of "fst m" "fst n"]
      key_le_trans [of "fst m" "fst n" "fst x"] key_le_trans [of "fst n" "fst m" "fst x"]
      key_le_trans [of "fst m" "fst x" "fst n"] key_le_trans [of "fst n" "fst x" "fst m"]
      key_le_total [of "fst m" "fst x"] key_le_total [of "fst n" "fst x"]
    by auto
qed

end
