(* ===== verification/Probing.thy ===== *)
theory Probing
  imports Cluster Json
begin

text \<open>
  machinery/types/probing.go and the package probing: probe results, the \<open>And\<close> combinator, the
  selectors, and the condition, field, generation and CEL probes. A \<open>Prober\<close> is a function from
  the object to a result; it may panic. The helpers of the third-party package \<open>unstructured\<close>, the
  converter to unstructured values and semantic equality are the parameter \<open>unstructured_api\<close>.
\<close>

section \<open>machinery/types/probing.go\<close>

definition ProgressProbeType :: string where "ProgressProbeType = ''Progress''"

type_synonym ProbeStatus = string

definition ProbeStatusTrue :: ProbeStatus where "ProbeStatusTrue = ''True''"
definition ProbeStatusFalse :: ProbeStatus where "ProbeStatusFalse = ''False''"
definition ProbeStatusUnknown :: ProbeStatus where "ProbeStatusUnknown = ''Unknown''"

lemmas status_defs = ProbeStatusTrue_def ProbeStatusFalse_def ProbeStatusUnknown_def

lemma status_distinct [simp]:
  "ProbeStatusTrue \<noteq> ProbeStatusFalse" "ProbeStatusTrue \<noteq> ProbeStatusUnknown"
  "ProbeStatusFalse \<noteq> ProbeStatusUnknown" "ProbeStatusFalse \<noteq> ProbeStatusTrue"
  "ProbeStatusUnknown \<noteq> ProbeStatusTrue" "ProbeStatusUnknown \<noteq> ProbeStatusFalse"
  by (simp_all add: status_defs)

record ProbeResult =
  Status :: ProbeStatus
  Messages :: "string list"

type_synonym Prober = "Object \<Rightarrow> ProbeResult go"

text \<open>\<open>ProbeResultContainer\<close> is a Go map: an association list with distinct keys, whose order
  stands for the iteration order.\<close>

type_synonym ProbeResultContainer = "(string \<times> ProbeResult) list"

definition ProbeResultContainer_Type :: "ProbeResultContainer \<Rightarrow> string \<Rightarrow> ProbeResult" where
  "ProbeResultContainer_Type c t =
    (case map_of c t of
       Some r \<Rightarrow> r
     | None \<Rightarrow> \<lparr>Status = ProbeStatusUnknown, Messages = [''no such probe '' @ Quote t]\<rparr>)"

definition ProbeFunc :: "(Object \<Rightarrow> ProbeResult go) \<Rightarrow> Prober" where
  "ProbeFunc fn = (\<lambda>obj. fn obj)"

section \<open>probing/probe.go\<close>

record and_state =
  unknownMsgs :: "string list"
  trueMsgs :: "string list"
  falseMsgs :: "string list"
  statusUnknown :: bool
  statusFalse :: bool

definition and_init :: and_state where
  "and_init = \<lparr>unknownMsgs = [], trueMsgs = [], falseMsgs = [], statusUnknown = False,
     statusFalse = False\<rparr>"

text \<open>The switch has no default: another status leaves the state alone.\<close>

definition and_step :: "and_state \<Rightarrow> ProbeResult \<Rightarrow> and_state" where
  "and_step a r =
    (if Status r = ProbeStatusTrue then a\<lparr>trueMsgs := trueMsgs a @ Messages r\<rparr>
     else if Status r = ProbeStatusFalse
       then a\<lparr>statusFalse := True, falseMsgs := falseMsgs a @ Messages r\<rparr>
     else if Status r = ProbeStatusUnknown
       then a\<lparr>statusUnknown := True, unknownMsgs := unknownMsgs a @ Messages r\<rparr>
     else a)"

fun and_loop :: "Prober list \<Rightarrow> Object \<Rightarrow> and_state \<Rightarrow> and_state go" where
  "and_loop [] obj a = Val a"
| "and_loop (p # ps) obj a = obind (p obj) (\<lambda>r. and_loop ps obj (and_step a r))"

definition And_Probe :: "Prober list \<Rightarrow> Prober" where
  "And_Probe ps obj =
    obind (and_loop ps obj and_init) (\<lambda>a. Val (
      if statusUnknown a then \<lparr>Status = ProbeStatusUnknown, Messages = unknownMsgs a\<rparr>
      else if statusFalse a then \<lparr>Status = ProbeStatusFalse, Messages = falseMsgs a\<rparr>
      else \<lparr>Status = ProbeStatusTrue, Messages = trueMsgs a\<rparr>))"

definition TrueResult :: "string list \<Rightarrow> ProbeResult" where
  "TrueResult msgs = \<lparr>Status = ProbeStatusTrue, Messages = msgs\<rparr>"

definition FalseResult :: "string list \<Rightarrow> ProbeResult" where
  "FalseResult msgs = \<lparr>Status = ProbeStatusFalse, Messages = msgs\<rparr>"

definition UnknownResult :: "string list \<Rightarrow> ProbeResult" where
  "UnknownResult msgs = \<lparr>Status = ProbeStatusUnknown, Messages = msgs\<rparr>"

subsection \<open>Third-party helpers\<close>

text \<open>The three results of \<open>unstructured.Nested*\<close>: an error when the path cannot be traversed or the
  value has the wrong type, not found, found.\<close>

datatype 'a nested = NestedErr string | NestedMissing | NestedFound 'a

record unstructured_api =
  ToUnstructured :: "Object \<Rightarrow> go_error + json"
  NestedField :: "json \<Rightarrow> string list \<Rightarrow> json nested"
  NestedInt64 :: "json \<Rightarrow> string list \<Rightarrow> int nested"
  SemanticDeepEqual :: "json \<Rightarrow> json \<Rightarrow> bool"

definition toUnstructured :: "unstructured_api \<Rightarrow> Object \<Rightarrow> json go" where
  "toUnstructured u obj =
    (case ToUnstructured u obj of
       Inl e \<Rightarrow> Panics ''can't convert to unstructured''
     | Inr v \<Rightarrow> Val v)"

text \<open>\<open>probeUnstructuredSingleMsg\<close>; the generation of the converted object is the object's.\<close>

definition probeUnstructuredSingleMsg ::
  "unstructured_api \<Rightarrow> Object \<Rightarrow> (json \<Rightarrow> ProbeResult go) \<Rightarrow> ProbeResult go" where
  "probeUnstructuredSingleMsg u obj probe = obind (toUnstructured u obj) probe"

section \<open>probing/selectors.go\<close>

definition GroupKindSelector_Probe :: "GroupKind \<Rightarrow> Prober \<Rightarrow> Prober" where
  "GroupKindSelector_Probe gk prober obj =
    (if gk = GroupKind_of (GVK obj) then prober obj
     else Val \<lparr>Status = ProbeStatusTrue, Messages = []\<rparr>)"

text \<open>\<open>labels.Selector.Matches\<close> is the parameter \<open>matches\<close>.\<close>

definition LabelSelector_Probe :: "(string_map \<Rightarrow> bool) \<Rightarrow> Prober \<Rightarrow> Prober" where
  "LabelSelector_Probe matches prober obj =
    (if \<not> matches (GetLabels obj) then Val \<lparr>Status = ProbeStatusTrue, Messages = []\<rparr>
     else prober obj)"

section \<open>probing/condition.go\<close>

record ConditionProbe =
  cp_Type :: string
  cp_Status :: string

text \<open>\<open>cond[key]\<close> on a decoded map; comparing it with a string is equality with \<open>JString\<close>.\<close>

definition cond_index :: "(string \<times> json) list \<Rightarrow> string \<Rightarrow> json option" where
  "cond_index ms k = map_of ms k"

definition cond_msg :: "string \<Rightarrow> string" where
  "cond_msg t = ''.status.condition['' @ [CHR 0x22] @ t @ [CHR 0x22] @ '']''"

fun condition_loop ::
  "unstructured_api \<Rightarrow> ConditionProbe \<Rightarrow> int \<Rightarrow> json list \<Rightarrow> ProbeResult" where
  "condition_loop u cp generation [] =
     \<lparr>Status = ProbeStatusUnknown, Messages = [''missing '' @ cond_msg (cp_Type cp)]\<rparr>"
| "condition_loop u cp generation (condI # conds) =
    (case condI of
       JMap cond \<Rightarrow>
         if cond_index cond ''type'' \<noteq> Some (JString (cp_Type cp))
         then condition_loop u cp generation conds
         else if (case NestedInt64 u condI [''observedGeneration''] of
                    NestedFound g \<Rightarrow> g \<noteq> generation
                  | _ \<Rightarrow> False)
         then \<lparr>Status = ProbeStatusUnknown, Messages = [cond_msg (cp_Type cp) @ '' outdated'']\<rparr>
         else if cond_index cond ''status'' = Some (JString (cp_Status cp))
         then \<lparr>Status = ProbeStatusTrue,
               Messages = [cond_msg (cp_Type cp) @ '' is '' @ cp_Status cp]\<rparr>
         else \<lparr>Status = ProbeStatusFalse,
               Messages = [cond_msg (cp_Type cp) @ '' is '' @ format_s (case cond_index cond ''status'' of None \<Rightarrow> JNull | Some v \<Rightarrow> v)]\<rparr>
     | _ \<Rightarrow> \<lparr>Status = ProbeStatusUnknown, Messages = [''malformed .status.conditions'']\<rparr>)"

definition ConditionProbe_probe ::
  "unstructured_api \<Rightarrow> ConditionProbe \<Rightarrow> int \<Rightarrow> json \<Rightarrow> ProbeResult" where
  "ConditionProbe_probe u cp generation obj =
    (case NestedField u obj [''status'', ''conditions''] of
       NestedErr e \<Rightarrow> \<lparr>Status = ProbeStatusUnknown, Messages = [''missing .status.conditions'']\<rparr>
     | NestedMissing \<Rightarrow> \<lparr>Status = ProbeStatusUnknown, Messages = [''missing .status.conditions'']\<rparr>
     | NestedFound (JList conditions) \<Rightarrow> condition_loop u cp generation conditions
     | NestedFound _ \<Rightarrow> \<lparr>Status = ProbeStatusUnknown, Messages = [''malformed .status.conditions'']\<rparr>)"

definition ConditionProbe_Probe :: "unstructured_api \<Rightarrow> ConditionProbe \<Rightarrow> Prober" where
  "ConditionProbe_Probe u cp obj =
    probeUnstructuredSingleMsg u obj (\<lambda>v. Val (ConditionProbe_probe u cp (GetGeneration obj) v))"

section \<open>probing/fieldsequal.go, probing/fieldvalue.go\<close>

definition field_path :: "string \<Rightarrow> string list" where
  "field_path f = Split (Trim f (CHR ''.'')) (CHR ''.'')"

definition dq :: "string \<Rightarrow> string" where
  "dq s = [CHR 0x22] @ s @ [CHR 0x22]"

record FieldsEqualProbe =
  fe_FieldA :: string
  fe_FieldB :: string

definition FieldsEqualProbe_probe :: "unstructured_api \<Rightarrow> FieldsEqualProbe \<Rightarrow> json \<Rightarrow> ProbeResult" where
  "FieldsEqualProbe_probe u fe obj =
    (case NestedField u obj (field_path (fe_FieldA fe)) of
       NestedFound fieldAVal \<Rightarrow>
         (case NestedField u obj (field_path (fe_FieldB fe)) of
            NestedFound fieldBVal \<Rightarrow>
              if \<not> SemanticDeepEqual u fieldAVal fieldBVal
              then \<lparr>Status = ProbeStatusFalse, Messages =
                     [dq (fe_FieldA fe) @ '' != '' @ dq (fe_FieldB fe) @ '' expected: '' @
                      json_marshal fieldAVal @ '' got: '' @ json_marshal fieldBVal]\<rparr>
              else \<lparr>Status = ProbeStatusTrue, Messages =
                     [dq (fe_FieldA fe) @ '' == '' @ dq (fe_FieldB fe)]\<rparr>
          | _ \<Rightarrow> \<lparr>Status = ProbeStatusFalse, Messages = [dq (fe_FieldB fe) @ '' missing'']\<rparr>)
     | _ \<Rightarrow> \<lparr>Status = ProbeStatusFalse, Messages = [dq (fe_FieldA fe) @ '' missing'']\<rparr>)"

definition FieldsEqualProbe_Probe :: "unstructured_api \<Rightarrow> FieldsEqualProbe \<Rightarrow> Prober" where
  "FieldsEqualProbe_Probe u fe obj =
    probeUnstructuredSingleMsg u obj (\<lambda>v. Val (FieldsEqualProbe_probe u fe v))"

record FieldValueProbe =
  fv_FieldPath :: string
  fv_Value :: string

definition FieldValueProbe_probe :: "unstructured_api \<Rightarrow> FieldValueProbe \<Rightarrow> json \<Rightarrow> ProbeResult" where
  "FieldValueProbe_probe u fv obj =
    (case NestedField u obj (field_path (fv_FieldPath fv)) of
       NestedErr err \<Rightarrow> \<lparr>Status = ProbeStatusFalse, Messages =
         [''error locating key '' @ Quote (fv_FieldPath fv) @ ''; '' @ err]\<rparr>
     | NestedMissing \<Rightarrow> \<lparr>Status = ProbeStatusFalse, Messages =
         [''missing key: '' @ Quote (fv_FieldPath fv)]\<rparr>
     | NestedFound fieldVal \<Rightarrow>
         if \<not> SemanticDeepEqual u fieldVal (JString (fv_Value fv))
         then \<lparr>Status = ProbeStatusFalse, Messages =
                [''value at key '' @ Quote (fv_FieldPath fv) @ '' != '' @ Quote (fv_Value fv) @
                 ''; expected: '' @ json_marshal (JString (fv_Value fv)) @ '' got: '' @
                 json_marshal fieldVal]\<rparr>
         else \<lparr>Status = ProbeStatusTrue, Messages =
                [''value at key '' @ Quote (fv_FieldPath fv) @ '' == '' @ Quote (fv_Value fv)]\<rparr>)"

definition FieldValueProbe_Probe :: "unstructured_api \<Rightarrow> FieldValueProbe \<Rightarrow> Prober" where
  "FieldValueProbe_Probe u fv obj =
    probeUnstructuredSingleMsg u obj (\<lambda>v. Val (FieldValueProbe_probe u fv v))"

section \<open>probing/observedgeneration.go\<close>

definition ObservedGenerationProbe_Probe :: "unstructured_api \<Rightarrow> Prober \<Rightarrow> Prober" where
  "ObservedGenerationProbe_Probe u prober obj =
    obind (toUnstructured u obj) (\<lambda>unstr.
      if (case NestedInt64 u unstr [''status'', ''observedGeneration''] of
            NestedFound g \<Rightarrow> g \<noteq> GetGeneration obj
          | _ \<Rightarrow> False)
      then Val \<lparr>Status = ProbeStatusUnknown, Messages = [''.status outdated'']\<rparr>
      else prober obj)"

section \<open>probing/cel.go\<close>

text \<open>\<open>program\<close> is \<open>cel.Program.Eval\<close> on the object: an error text or a value; the type assertion
  to bool panics on another value.\<close>

record CELProbe =
  Program :: "json \<Rightarrow> string + json"
  Message :: string

definition CELProbe_probe :: "CELProbe \<Rightarrow> json \<Rightarrow> ProbeResult go" where
  "CELProbe_probe p obj =
    (case Program p obj of
       Inl err \<Rightarrow> Val \<lparr>Status = ProbeStatusUnknown, Messages = [''CEL program failed: '' @ err]\<rparr>
     | Inr (JBool success) \<Rightarrow>
         if success then Val \<lparr>Status = ProbeStatusTrue, Messages = []\<rparr>
         else Val \<lparr>Status = ProbeStatusFalse, Messages = [Message p]\<rparr>
     | Inr _ \<Rightarrow> Panics ''interface conversion: value is not bool'')"

definition CELProbe_Probe :: "unstructured_api \<Rightarrow> CELProbe \<Rightarrow> Prober" where
  "CELProbe_Probe u p obj = probeUnstructuredSingleMsg u obj (CELProbe_probe p)"

text \<open>Compiling a rule. The CEL library is a parameter; \<open>cel_Compile\<close> returns the issues as an error.\<close>

record ('env, 'ast) cel_api =
  cel_NewEnv :: "go_error + 'env"
  cel_Compile :: "'env \<Rightarrow> string \<Rightarrow> go_error + 'ast"
  cel_OutputIsBool :: "'ast \<Rightarrow> bool"
  cel_Program :: "'env \<Rightarrow> 'ast \<Rightarrow> go_error + (json \<Rightarrow> string + json)"

definition ErrCELInvalidEvaluationType :: go_error where
  "ErrCELInvalidEvaluationType = PlainError ''cel expression must evaluate to a bool''"

definition NewCELProbe :: "('env, 'ast) cel_api \<Rightarrow> string \<Rightarrow> string \<Rightarrow> CELProbe go" where
  "NewCELProbe cel rule message =
    (case cel_NewEnv cel of
       Inl err \<Rightarrow> Fail (Wrap ''creating CEL env'' err)
     | Inr env \<Rightarrow>
         (case cel_Compile cel env rule of
            Inl issues \<Rightarrow> Fail (Wrap ''compiling CEL'' issues)
          | Inr ast \<Rightarrow>
              if \<not> cel_OutputIsBool cel ast then Fail ErrCELInvalidEvaluationType
              else (case cel_Program cel env ast of
                      Inl err \<Rightarrow> Fail (Wrap ''CEL program failed'' err)
                    | Inr prgm \<Rightarrow> Val \<lparr>Program = prgm, Message = message\<rparr>)))"

text \<open>The type checker of CEL is sound: a program of type bool evaluates to a bool or to an error.\<close>

definition cel_typed :: "('env, 'ast) cel_api \<Rightarrow> bool" where
  "cel_typed cel \<longleftrightarrow> (\<forall>env ast prgm v x. cel_OutputIsBool cel ast \<longrightarrow> cel_Program cel env ast = Inr prgm \<longrightarrow>
     prgm v = Inr x \<longrightarrow> (\<exists>b. x = JBool b))"

text \<open>The check of the output type is what makes the conversion of the result safe: a probe that
  \<open>NewCELProbe\<close> has built never panics, and reports a failure with the message it was given.\<close>

theorem NewCELProbe_safe:
  assumes "cel_typed cel" "NewCELProbe cel rule message = Val p"
  shows "\<exists>r. CELProbe_probe p v = Val r \<and> (Status r = ProbeStatusFalse \<longrightarrow> Messages r = [message])"
proof -
  obtain env ast where "cel_OutputIsBool cel ast" "cel_Program cel env ast = Inr (Program p)" "Message p = message"
    using assms(2) by (auto simp: NewCELProbe_def split: sum.splits if_splits)
  with assms(1) have bool: "Program p v = Inr x \<Longrightarrow> \<exists>b. x = JBool b" for x
    unfolding cel_typed_def by blast
  show ?thesis
  proof (cases "Program p v")
    case (Inl err)
    then show ?thesis by (simp add: CELProbe_probe_def ProbeStatusFalse_def ProbeStatusUnknown_def)
  next
    case (Inr x)
    with bool obtain b where "x = JBool b" by blast
    with Inr \<open>Message p = message\<close> show ?thesis
      by (cases b) (simp_all add: CELProbe_probe_def ProbeStatusFalse_def ProbeStatusTrue_def)
  qed
qed

section \<open>Sample values\<close>

text \<open>The nested accessors on decoded values, as the package \<open>unstructured\<close> documents them.\<close>

fun sample_nested :: "json \<Rightarrow> string list \<Rightarrow> json nested" where
  "sample_nested v [] = NestedFound v"
| "sample_nested (JMap ms) (k # ks) =
    (case map_of ms k of None \<Rightarrow> NestedMissing | Some v \<Rightarrow> sample_nested v ks)"
| "sample_nested v (k # ks) = NestedErr ''accessor error''"

definition sample_u :: "json \<Rightarrow> unstructured_api" where
  "sample_u v =
    \<lparr>ToUnstructured = (\<lambda>obj. Inr v), NestedField = sample_nested,
     NestedInt64 = (\<lambda>v path. case sample_nested v path of
        NestedFound (JInt i) \<Rightarrow> NestedFound i
      | NestedFound _ \<Rightarrow> NestedErr ''accessor error''
      | NestedMissing \<Rightarrow> NestedMissing
      | NestedErr e \<Rightarrow> NestedErr e),
     SemanticDeepEqual = (=)\<rparr>"

definition sample_status_value :: json where
  "sample_status_value = JMap [(''status'', JMap [(''observedGeneration'', JInt 4), (''conditions'',
     JList [JMap [(''type'', JString ''Available''), (''status'', JString ''True''),
                  (''observedGeneration'', JInt 5)]])])]"

definition sample_probed :: Object where
  "sample_probed =
    \<lparr>repr = Unstructured, GVK = \<lparr>Group = ''apps'', Version = ''v1'', Kind = ''Deployment''\<rparr>,
     GetName = ''web'', GetNamespace = ''default'', GetGenerateName = [], GetUID = ''u1'',
     GetGeneration = 5, GetResourceVersion = ''7'', GetLabels = None, GetAnnotations = None,
     GetFinalizers = [], GetOwnerReferences = [], GetManagedFields = [],
     content = sample_status_value\<rparr>"

section \<open>Properties\<close>

subsection \<open>And\<close>

lemma and_loop_Val:
  "and_loop ps obj a = Val b \<Longrightarrow> \<exists>rs. list_all2 (\<lambda>p r. p obj = Val r) ps rs \<and> b = fold (\<lambda>r a. and_step a r) rs a"
proof (induction ps arbitrary: a)
  case (Cons p ps)
  then obtain r where r: "p obj = Val r" "and_loop ps obj (and_step a r) = Val b"
    by (auto simp: obind_eq_Val)
  from Cons.IH [OF r(2)] obtain rs where
    "list_all2 (\<lambda>p r. p obj = Val r) ps rs" "b = fold (\<lambda>r a. and_step a r) rs (and_step a r)" by blast
  with r(1) show ?case by (intro exI [of _ "r # rs"]) simp
qed simp

lemma and_fold:
  "statusUnknown (fold (\<lambda>r a. and_step a r) rs a) \<longleftrightarrow>
     statusUnknown a \<or> (\<exists>r\<in>set rs. Status r = ProbeStatusUnknown)"
  "statusFalse (fold (\<lambda>r a. and_step a r) rs a) \<longleftrightarrow>
     statusFalse a \<or> (\<exists>r\<in>set rs. Status r = ProbeStatusFalse)"
  "falseMsgs (fold (\<lambda>r a. and_step a r) rs a) =
     falseMsgs a @ concat (map Messages (filter (\<lambda>r. Status r = ProbeStatusFalse) rs))"
  by (induction rs arbitrary: a) (auto simp: and_step_def)

text \<open>A conjunction of probes runs all of them. It reports Unknown if any of them is Unknown;
  otherwise False if any is False, with the messages of all that failed; and otherwise True. So
  with the three documented states it is True exactly when all probes are True.\<close>

theorem And_Probe_verdict:
  assumes "And_Probe ps obj = Val res"
  shows "\<exists>rs. list_all2 (\<lambda>p r. p obj = Val r) ps rs \<and>
    Status res = (if \<exists>r\<in>set rs. Status r = ProbeStatusUnknown then ProbeStatusUnknown
      else if \<exists>r\<in>set rs. Status r = ProbeStatusFalse then ProbeStatusFalse else ProbeStatusTrue) \<and>
    (Status res = ProbeStatusFalse \<longrightarrow>
       Messages res = concat (map Messages (filter (\<lambda>r. Status r = ProbeStatusFalse) rs))) \<and>
    ((\<forall>r\<in>set rs. Status r \<in> {ProbeStatusTrue, ProbeStatusFalse, ProbeStatusUnknown}) \<longrightarrow>
       (Status res = ProbeStatusTrue \<longleftrightarrow> (\<forall>r\<in>set rs. Status r = ProbeStatusTrue)))"
proof -
  obtain a where a: "and_loop ps obj and_init = Val a" and res: "res =
      (if statusUnknown a then \<lparr>Status = ProbeStatusUnknown, Messages = unknownMsgs a\<rparr>
       else if statusFalse a then \<lparr>Status = ProbeStatusFalse, Messages = falseMsgs a\<rparr>
       else \<lparr>Status = ProbeStatusTrue, Messages = trueMsgs a\<rparr>)"
    using assms by (auto simp: And_Probe_def obind_eq_Val)
  from and_loop_Val [OF a] obtain rs where
    rs: "list_all2 (\<lambda>p r. p obj = Val r) ps rs" "a = fold (\<lambda>r a. and_step a r) rs and_init" by blast
  have st: "Status res = (if \<exists>r\<in>set rs. Status r = ProbeStatusUnknown then ProbeStatusUnknown
      else if \<exists>r\<in>set rs. Status r = ProbeStatusFalse then ProbeStatusFalse else ProbeStatusTrue)"
    and msgs: "Status res = ProbeStatusFalse \<Longrightarrow>
      Messages res = concat (map Messages (filter (\<lambda>r. Status r = ProbeStatusFalse) rs))"
    using res unfolding rs(2) by (auto simp: and_fold and_init_def split: if_splits)
  have "Status res = ProbeStatusTrue \<longleftrightarrow>
      (\<forall>r\<in>set rs. Status r \<noteq> ProbeStatusUnknown \<and> Status r \<noteq> ProbeStatusFalse)"
    unfolding st by auto
  then have "(\<forall>r\<in>set rs. Status r \<in> {ProbeStatusTrue, ProbeStatusFalse, ProbeStatusUnknown}) \<longrightarrow>
      (Status res = ProbeStatusTrue \<longleftrightarrow> (\<forall>r\<in>set rs. Status r = ProbeStatusTrue))"
    by (metis empty_iff insert_iff status_distinct(1,2))
  with rs(1) st msgs show ?thesis by blast
qed

theorem And_Probe_verdict_witness:
  "\<exists>res. And_Probe [\<lambda>obj. Val (TrueResult []), \<lambda>obj. Val (FalseResult [''no''])] sample_probed = Val res \<and>
    Status res \<noteq> ProbeStatusTrue"
proof -
  let ?ps = "[\<lambda>obj. Val (TrueResult []), \<lambda>obj. Val (FalseResult [''no''])] :: Prober list"
  obtain res where run: "And_Probe ?ps sample_probed = Val res" by (simp add: And_Probe_def)
  from And_Probe_verdict [OF run] obtain rs where
    "list_all2 (\<lambda>p r. p sample_probed = Val r) ?ps rs"
    "(\<forall>r\<in>set rs. Status r \<in> {ProbeStatusTrue, ProbeStatusFalse, ProbeStatusUnknown}) \<longrightarrow>
       (Status res = ProbeStatusTrue \<longleftrightarrow> (\<forall>r\<in>set rs. Status r = ProbeStatusTrue))"
    by blast
  then have "Status res \<noteq> ProbeStatusTrue"
    by (auto simp: list_all2_Cons1 TrueResult_def FalseResult_def)
  with run show ?thesis by blast
qed

subsection \<open>Generations\<close>

text \<open>A status that was observed for another generation of the object is never reported as
  success: the wrapped probe is not asked, and the result is Unknown.\<close>

theorem ObservedGenerationProbe_outdated:
  assumes "ToUnstructured u obj = Inr v"
    and "NestedInt64 u v [''status'', ''observedGeneration''] = NestedFound g"
  shows "ObservedGenerationProbe_Probe u prober obj =
    (if g = GetGeneration obj then prober obj
     else Val \<lparr>Status = ProbeStatusUnknown, Messages = [''.status outdated'']\<rparr>)"
  using assms by (simp add: ObservedGenerationProbe_Probe_def toUnstructured_def)

theorem ObservedGenerationProbe_outdated_witness:
  "ObservedGenerationProbe_Probe (sample_u sample_status_value) (\<lambda>obj. Val (TrueResult [])) sample_probed =
    Val \<lparr>Status = ProbeStatusUnknown, Messages = [''.status outdated'']\<rparr>"
  using ObservedGenerationProbe_outdated [of "sample_u sample_status_value" sample_probed
      sample_status_value 4 "\<lambda>obj. Val (TrueResult [])"]
  by (simp add: sample_u_def sample_status_value_def sample_probed_def)

text \<open>What it takes for a condition to count.\<close>

lemma condition_loop_True:
  "Status (condition_loop u cp g conds) = ProbeStatusTrue \<Longrightarrow>
    \<exists>cond. JMap cond \<in> set conds \<and> map_of cond ''type'' = Some (JString (cp_Type cp)) \<and>
      map_of cond ''status'' = Some (JString (cp_Status cp)) \<and>
      (\<forall>og. NestedInt64 u (JMap cond) [''observedGeneration''] = NestedFound og \<longrightarrow> og = g)"
proof (induction conds)
  case (Cons c conds)
  then show ?case
    by (cases c) (auto simp: cond_index_def split: if_splits nested.splits)
qed simp

text \<open>The condition probe reports True only if the object has a condition of the type asked for
  with the status asked for, and if that condition names a generation, it is the current one.\<close>

theorem ConditionProbe_sound:
  assumes "ConditionProbe_Probe u cp obj = Val res" "Status res = ProbeStatusTrue"
  shows "\<exists>v conds cond. ToUnstructured u obj = Inr v \<and>
    NestedField u v [''status'', ''conditions''] = NestedFound (JList conds) \<and> JMap cond \<in> set conds \<and>
    map_of cond ''type'' = Some (JString (cp_Type cp)) \<and>
    map_of cond ''status'' = Some (JString (cp_Status cp)) \<and>
    (\<forall>og. NestedInt64 u (JMap cond) [''observedGeneration''] = NestedFound og \<longrightarrow> og = GetGeneration obj)"
proof -
  obtain v where v: "ToUnstructured u obj = Inr v"
    and st: "Status (ConditionProbe_probe u cp (GetGeneration obj) v) = ProbeStatusTrue"
    using assms by (auto simp: ConditionProbe_Probe_def probeUnstructuredSingleMsg_def obind_eq_Val
        toUnstructured_def split: sum.splits)
  then obtain conds where f: "NestedField u v [''status'', ''conditions''] = NestedFound (JList conds)"
    and l: "Status (condition_loop u cp (GetGeneration obj) conds) = ProbeStatusTrue"
    by (auto simp: ConditionProbe_probe_def split: nested.splits json.splits)
  from condition_loop_True [OF l] v f show ?thesis by blast
qed

theorem ConditionProbe_sound_witness:
  "\<exists>res conds. ConditionProbe_Probe (sample_u sample_status_value)
      \<lparr>cp_Type = ''Available'', cp_Status = ''True''\<rparr> sample_probed = Val res \<and>
    NestedField (sample_u sample_status_value) sample_status_value [''status'', ''conditions''] =
      NestedFound (JList conds)"
proof -
  obtain res where run: "ConditionProbe_Probe (sample_u sample_status_value)
      \<lparr>cp_Type = ''Available'', cp_Status = ''True''\<rparr> sample_probed = Val res"
    and st: "Status res = ProbeStatusTrue"
    by (simp add: ConditionProbe_Probe_def probeUnstructuredSingleMsg_def toUnstructured_def sample_u_def
        ConditionProbe_probe_def sample_status_value_def cond_index_def sample_probed_def)
  from ConditionProbe_sound [OF run st] obtain conds where
    "NestedField (sample_u sample_status_value) sample_status_value [''status'', ''conditions''] =
      NestedFound (JList conds)" by (auto simp: sample_u_def)
  with run show ?thesis by blast
qed

end
