(* ===== verification/Options.thy ===== *)
theory Options
  imports OwnerStrategy Probing
begin

text \<open>
  machinery/types/options.go and machinery/types/types.go: the options of the three engines, how an
  option given at revision level travels to the phases and their objects, and the phases and
  revisions themselves. An option that is valid at a lower level is valid at the levels above it:
  \<open>PRObject\<close> and \<open>RRPhase\<close> are those inclusions. A nil function, interface or prober is \<open>None\<close>.
\<close>

section \<open>Object options\<close>

type_synonym SiblingOwnerClassifierFunc = "OwnerReference \<Rightarrow> bool"

type_synonym CollisionProtection = string

definition CollisionProtectionPrevent :: CollisionProtection where
  "CollisionProtectionPrevent = ''Prevent''"
definition CollisionProtectionIfNoController :: CollisionProtection where
  "CollisionProtectionIfNoController = ''IfNoController''"
definition CollisionProtectionNone :: CollisionProtection where
  "CollisionProtectionNone = ''None''"

lemmas collision_protection_defs =
  CollisionProtectionPrevent_def CollisionProtectionIfNoController_def CollisionProtectionNone_def

lemma collision_protection_distinct [simp]:
  "CollisionProtectionPrevent \<noteq> CollisionProtectionNone"
  "CollisionProtectionIfNoController \<noteq> CollisionProtectionNone"
  "CollisionProtectionIfNoController \<noteq> CollisionProtectionPrevent"
  "CollisionProtectionNone \<noteq> CollisionProtectionPrevent"
  "CollisionProtectionNone \<noteq> CollisionProtectionIfNoController"
  "CollisionProtectionPrevent \<noteq> CollisionProtectionIfNoController"
  "CollisionProtectionPrevent \<noteq> []"
  by (simp_all add: collision_protection_defs)

record ObjectReconcileOptions =
  CollisionProtection :: CollisionProtection
  SiblingOwnerClassifier :: "SiblingOwnerClassifierFunc option"
  Owner :: "Object option"
  OwnerStrategyOpt :: "OwnerStrategy option"
  Paused :: bool
  Probes :: "(string \<times> Prober option) list"

definition zero_ObjectReconcileOptions :: ObjectReconcileOptions where
  "zero_ObjectReconcileOptions =
    \<lparr>CollisionProtection = [], SiblingOwnerClassifier = None, Owner = None, OwnerStrategyOpt = None,
     Paused = False, Probes = []\<rparr>"

definition ObjectReconcileOptions_Default :: "ObjectReconcileOptions \<Rightarrow> ObjectReconcileOptions go" where
  "ObjectReconcileOptions_Default opts =
    (if Owner opts \<noteq> None \<and> OwnerStrategyOpt opts = None
     then Panics ''Owner without ownerStrategy set''
     else if CollisionProtection opts = []
     then Val (opts\<lparr>CollisionProtection := CollisionProtectionPrevent\<rparr>)
     else Val opts)"

text \<open>\<open>WithOwner\<close> refuses an owner without UID; its option applies to reconcile, teardown and
  comparison alike.\<close>

datatype ObjectReconcileOption =
    WithCollisionProtection CollisionProtection
  | WithSiblingOwnerClassifier "SiblingOwnerClassifierFunc option"
  | WithPaused
  | WithProbe string "Prober option"
  | OwnerReconcile Object "OwnerStrategy option"

text \<open>\<open>m[k] = v\<close> on a map kept as an association list.\<close>

definition alist_set :: "('k \<times> 'v) list \<Rightarrow> 'k \<Rightarrow> 'v \<Rightarrow> ('k \<times> 'v) list" where
  "alist_set m k v =
    (if k \<in> fst ` set m then map (\<lambda>e. if fst e = k then (k, v) else e) m else m @ [(k, v)])"

fun ApplyToObjectReconcileOptions ::
  "ObjectReconcileOption \<Rightarrow> ObjectReconcileOptions \<Rightarrow> ObjectReconcileOptions" where
  "ApplyToObjectReconcileOptions (WithCollisionProtection p) opts = opts\<lparr>CollisionProtection := p\<rparr>"
| "ApplyToObjectReconcileOptions (WithSiblingOwnerClassifier f) opts = opts\<lparr>SiblingOwnerClassifier := f\<rparr>"
| "ApplyToObjectReconcileOptions WithPaused opts = opts\<lparr>Paused := True\<rparr>"
| "ApplyToObjectReconcileOptions (WithProbe t probe) opts =
     opts\<lparr>Probes := alist_set (Probes opts) t probe\<rparr>"
| "ApplyToObjectReconcileOptions (OwnerReconcile obj strat) opts =
     opts\<lparr>Owner := Some obj, OwnerStrategyOpt := strat\<rparr>"

definition object_reconcile_options :: "ObjectReconcileOption list \<Rightarrow> ObjectReconcileOptions" where
  "object_reconcile_options opts = fold ApplyToObjectReconcileOptions opts zero_ObjectReconcileOptions"

definition WithSiblingOwners :: "Object list \<Rightarrow> ObjectReconcileOption" where
  "WithSiblingOwners siblings =
    (let uids = map GetUID siblings
     in WithSiblingOwnerClassifier (Some (\<lambda>actualOwnerRef. or_UID actualOwnerRef \<in> set uids)))"

definition WithSiblingOwnerRefs :: "OwnerReference list \<Rightarrow> ObjectReconcileOption" where
  "WithSiblingOwnerRefs ownerRefs =
    WithSiblingOwnerClassifier
      (Some (\<lambda>actualOwnerRef. list_ex (\<lambda>r. or_UID actualOwnerRef = or_UID r) ownerRefs))"

record ObjectTeardownOptions =
  Orphan :: bool
  TeardownWriter :: "Writer option"
  td_Owner :: "Object option"
  td_OwnerStrategy :: "OwnerStrategy option"

definition zero_ObjectTeardownOptions :: ObjectTeardownOptions where
  "zero_ObjectTeardownOptions =
    \<lparr>Orphan = False, TeardownWriter = None, td_Owner = None, td_OwnerStrategy = None\<rparr>"

definition ObjectTeardownOptions_Default :: "ObjectTeardownOptions \<Rightarrow> ObjectTeardownOptions go" where
  "ObjectTeardownOptions_Default opts =
    (if td_Owner opts \<noteq> None \<and> td_OwnerStrategy opts = None
     then Panics ''Owner without ownerStrategy set'' else Val opts)"

datatype ObjectTeardownOption =
    WithOrphan
  | WithTeardownWriter "Writer option"
  | OwnerTeardown Object "OwnerStrategy option"

fun ApplyToObjectTeardownOptions ::
  "ObjectTeardownOption \<Rightarrow> ObjectTeardownOptions \<Rightarrow> ObjectTeardownOptions" where
  "ApplyToObjectTeardownOptions WithOrphan opts = opts\<lparr>Orphan := True\<rparr>"
| "ApplyToObjectTeardownOptions (WithTeardownWriter w) opts = opts\<lparr>TeardownWriter := w\<rparr>"
| "ApplyToObjectTeardownOptions (OwnerTeardown obj strat) opts =
     opts\<lparr>td_Owner := Some obj, td_OwnerStrategy := strat\<rparr>"

definition object_teardown_options :: "ObjectTeardownOption list \<Rightarrow> ObjectTeardownOptions" where
  "object_teardown_options opts = fold ApplyToObjectTeardownOptions opts zero_ObjectTeardownOptions"

record ComparatorOptions =
  co_Owner :: "Object option"
  co_OwnerStrategy :: "OwnerStrategy option"

text \<open>The three faces of \<open>WithOwner(obj, strat)\<close>: an option for reconciling, one for teardown, and
  what it does to the comparator's options.\<close>

record combinedOpts =
  optionFn :: ObjectReconcileOption
  teardownOptionFn :: ObjectTeardownOption
  comparatorFn :: "ComparatorOptions \<Rightarrow> ComparatorOptions"

definition WithOwner :: "Object \<Rightarrow> OwnerStrategy option \<Rightarrow> combinedOpts go" where
  "WithOwner obj strat =
    (if GetUID obj = [] then Panics ''owner must be persisted to cluster, empty UID''
     else Val \<lparr>optionFn = OwnerReconcile obj strat, teardownOptionFn = OwnerTeardown obj strat,
               comparatorFn = (\<lambda>opts. opts\<lparr>co_Owner := Some obj, co_OwnerStrategy := strat\<rparr>)\<rparr>)"

section \<open>Phase options\<close>

datatype PhaseReconcileOption =
    PRObject ObjectReconcileOption
  | WithObjectReconcileOptions ObjectRef "ObjectReconcileOption list"
  | WithAggregatePhaseReconcileErrors

record PhaseReconcileOptions =
  pr_DefaultObjectOptions :: "ObjectReconcileOption list"
  pr_ObjectOptions :: "ObjectRef \<rightharpoonup> ObjectReconcileOption list"
  pr_AggregateErrors :: bool

definition zero_PhaseReconcileOptions :: PhaseReconcileOptions where
  "zero_PhaseReconcileOptions =
    \<lparr>pr_DefaultObjectOptions = [], pr_ObjectOptions = Map.empty, pr_AggregateErrors = False\<rparr>"

fun ApplyToPhaseReconcileOptions ::
  "PhaseReconcileOption \<Rightarrow> PhaseReconcileOptions \<Rightarrow> PhaseReconcileOptions" where
  "ApplyToPhaseReconcileOptions (PRObject p) opts =
     opts\<lparr>pr_DefaultObjectOptions := pr_DefaultObjectOptions opts @ [p]\<rparr>"
| "ApplyToPhaseReconcileOptions (WithObjectReconcileOptions ref os) opts =
     opts\<lparr>pr_ObjectOptions := (pr_ObjectOptions opts)(ref \<mapsto> os)\<rparr>"
| "ApplyToPhaseReconcileOptions WithAggregatePhaseReconcileErrors opts =
     opts\<lparr>pr_AggregateErrors := True\<rparr>"

definition phase_reconcile_options :: "PhaseReconcileOption list \<Rightarrow> PhaseReconcileOptions" where
  "phase_reconcile_options opts = fold ApplyToPhaseReconcileOptions opts zero_PhaseReconcileOptions"

definition list_at :: "('k \<rightharpoonup> 'v list) \<Rightarrow> 'k \<Rightarrow> 'v list" where
  "list_at m k = (case m k of None \<Rightarrow> [] | Some xs \<Rightarrow> xs)"

definition PhaseReconcileOptions_ForObject ::
  "PhaseReconcileOptions \<Rightarrow> Object \<Rightarrow> ObjectReconcileOption list" where
  "PhaseReconcileOptions_ForObject pro obj =
    pr_DefaultObjectOptions pro @ list_at (pr_ObjectOptions pro) (ToObjectRef obj)"

datatype PhaseTeardownOption =
    PTObject ObjectTeardownOption
  | WithObjectTeardownOptions ObjectRef "ObjectTeardownOption list"
  | WithAggregatePhaseTeardownErrors

record PhaseTeardownOptions =
  pt_DefaultObjectOptions :: "ObjectTeardownOption list"
  pt_ObjectOptions :: "ObjectRef \<rightharpoonup> ObjectTeardownOption list"
  pt_AggregateErrors :: bool

definition zero_PhaseTeardownOptions :: PhaseTeardownOptions where
  "zero_PhaseTeardownOptions =
    \<lparr>pt_DefaultObjectOptions = [], pt_ObjectOptions = Map.empty, pt_AggregateErrors = False\<rparr>"

fun ApplyToPhaseTeardownOptions ::
  "PhaseTeardownOption \<Rightarrow> PhaseTeardownOptions \<Rightarrow> PhaseTeardownOptions" where
  "ApplyToPhaseTeardownOptions (PTObject p) opts =
     opts\<lparr>pt_DefaultObjectOptions := pt_DefaultObjectOptions opts @ [p]\<rparr>"
| "ApplyToPhaseTeardownOptions (WithObjectTeardownOptions ref os) opts =
     opts\<lparr>pt_ObjectOptions := (pt_ObjectOptions opts)(ref \<mapsto> os)\<rparr>"
| "ApplyToPhaseTeardownOptions WithAggregatePhaseTeardownErrors opts =
     opts\<lparr>pt_AggregateErrors := True\<rparr>"

definition phase_teardown_options :: "PhaseTeardownOption list \<Rightarrow> PhaseTeardownOptions" where
  "phase_teardown_options opts = fold ApplyToPhaseTeardownOptions opts zero_PhaseTeardownOptions"

definition PhaseTeardownOptions_ForObject ::
  "PhaseTeardownOptions \<Rightarrow> Object \<Rightarrow> ObjectTeardownOption list" where
  "PhaseTeardownOptions_ForObject pto obj =
    pt_DefaultObjectOptions pto @ list_at (pt_ObjectOptions pto) (ToObjectRef obj)"

section \<open>Revision options\<close>

datatype RevisionReconcileOption =
    RRPhase PhaseReconcileOption
  | WithPhaseReconcileOptions string "PhaseReconcileOption list"

record RevisionReconcileOptions =
  rr_DefaultPhaseOptions :: "PhaseReconcileOption list"
  rr_PhaseOptions :: "string \<rightharpoonup> PhaseReconcileOption list"

definition zero_RevisionReconcileOptions :: RevisionReconcileOptions where
  "zero_RevisionReconcileOptions = \<lparr>rr_DefaultPhaseOptions = [], rr_PhaseOptions = Map.empty\<rparr>"

fun ApplyToRevisionReconcileOptions ::
  "RevisionReconcileOption \<Rightarrow> RevisionReconcileOptions \<Rightarrow> RevisionReconcileOptions" where
  "ApplyToRevisionReconcileOptions (RRPhase p) opts =
     opts\<lparr>rr_DefaultPhaseOptions := rr_DefaultPhaseOptions opts @ [p]\<rparr>"
| "ApplyToRevisionReconcileOptions (WithPhaseReconcileOptions phaseName os) opts =
     opts\<lparr>rr_PhaseOptions := (rr_PhaseOptions opts)(phaseName \<mapsto> os)\<rparr>"

definition revision_reconcile_options :: "RevisionReconcileOption list \<Rightarrow> RevisionReconcileOptions" where
  "revision_reconcile_options opts =
    fold ApplyToRevisionReconcileOptions opts zero_RevisionReconcileOptions"

definition RevisionReconcileOptions_ForPhase ::
  "RevisionReconcileOptions \<Rightarrow> string \<Rightarrow> PhaseReconcileOption list" where
  "RevisionReconcileOptions_ForPhase rropts phaseName =
    rr_DefaultPhaseOptions rropts @ list_at (rr_PhaseOptions rropts) phaseName"

definition RevisionReconcileOptions_GetOwner :: "RevisionReconcileOptions \<Rightarrow> Object option" where
  "RevisionReconcileOptions_GetOwner rropts =
    (let phaseOptions = phase_reconcile_options (rr_DefaultPhaseOptions rropts)
     in Owner (object_reconcile_options (pr_DefaultObjectOptions phaseOptions)))"

datatype RevisionTeardownOption =
    RTPhase PhaseTeardownOption
  | WithPhaseTeardownOptions string "PhaseTeardownOption list"

record RevisionTeardownOptions =
  rt_DefaultPhaseOptions :: "PhaseTeardownOption list"
  rt_PhaseOptions :: "string \<rightharpoonup> PhaseTeardownOption list"

definition zero_RevisionTeardownOptions :: RevisionTeardownOptions where
  "zero_RevisionTeardownOptions = \<lparr>rt_DefaultPhaseOptions = [], rt_PhaseOptions = Map.empty\<rparr>"

fun ApplyToRevisionTeardownOptions ::
  "RevisionTeardownOption \<Rightarrow> RevisionTeardownOptions \<Rightarrow> RevisionTeardownOptions" where
  "ApplyToRevisionTeardownOptions (RTPhase p) opts =
     opts\<lparr>rt_DefaultPhaseOptions := rt_DefaultPhaseOptions opts @ [p]\<rparr>"
| "ApplyToRevisionTeardownOptions (WithPhaseTeardownOptions phaseName os) opts =
     opts\<lparr>rt_PhaseOptions := (rt_PhaseOptions opts)(phaseName \<mapsto> os)\<rparr>"

definition revision_teardown_options :: "RevisionTeardownOption list \<Rightarrow> RevisionTeardownOptions" where
  "revision_teardown_options opts =
    fold ApplyToRevisionTeardownOptions opts zero_RevisionTeardownOptions"

definition RevisionTeardownOptions_ForPhase ::
  "RevisionTeardownOptions \<Rightarrow> string \<Rightarrow> PhaseTeardownOption list" where
  "RevisionTeardownOptions_ForPhase rtopts phaseName =
    rt_DefaultPhaseOptions rtopts @ list_at (rt_PhaseOptions rtopts) phaseName"

section \<open>Phases and revisions\<close>

record phase =
  ph_Name :: string
  ph_Objects :: "Object list"
  ph_ReconcileOptions :: "PhaseReconcileOption list"
  ph_TeardownOptions :: "PhaseTeardownOption list"

definition NewPhase :: "string \<Rightarrow> Object list \<Rightarrow> phase" where
  "NewPhase name objects =
    \<lparr>ph_Name = name, ph_Objects = objects, ph_ReconcileOptions = [], ph_TeardownOptions = []\<rparr>"

definition phase_WithReconcileOptions :: "phase \<Rightarrow> PhaseReconcileOption list \<Rightarrow> phase" where
  "phase_WithReconcileOptions p opts = p\<lparr>ph_ReconcileOptions := ph_ReconcileOptions p @ opts\<rparr>"

definition phase_WithTeardownOptions :: "phase \<Rightarrow> PhaseTeardownOption list \<Rightarrow> phase" where
  "phase_WithTeardownOptions p opts = p\<lparr>ph_TeardownOptions := ph_TeardownOptions p @ opts\<rparr>"

definition NewPhaseWithOwner ::
  "string \<Rightarrow> Object list \<Rightarrow> Object \<Rightarrow> OwnerStrategy option \<Rightarrow> phase go" where
  "NewPhaseWithOwner name objects owner ownerStrat =
    obind (WithOwner owner ownerStrat) (\<lambda>oo.
      let p = NewPhase name objects
      in Val (phase_WithTeardownOptions
           (phase_WithReconcileOptions p [PRObject (optionFn oo)])
           [PTObject (teardownOptionFn oo)]))"

definition NewPhaseWithOwnerAndSiblings ::
  "string \<Rightarrow> Object list \<Rightarrow> Object \<Rightarrow> OwnerStrategy option \<Rightarrow> Object list \<Rightarrow> phase go" where
  "NewPhaseWithOwnerAndSiblings name objects owner ownerStrat siblings =
    obind (WithOwner owner ownerStrat) (\<lambda>oo.
      let p = NewPhase name objects
      in Val (phase_WithTeardownOptions
           (phase_WithReconcileOptions p
              [PRObject (optionFn oo), PRObject (WithSiblingOwners siblings)])
           [PTObject (teardownOptionFn oo)]))"

record revision =
  rev_Name :: string
  rev_Revision :: int
  rev_Phases :: "phase list"
  rev_ReconcileOptions :: "RevisionReconcileOption list"
  rev_TeardownOptions :: "RevisionTeardownOption list"

definition NewRevision :: "string \<Rightarrow> int \<Rightarrow> phase list \<Rightarrow> revision" where
  "NewRevision name revNumber phases =
    \<lparr>rev_Name = name, rev_Revision = revNumber, rev_Phases = phases,
     rev_ReconcileOptions = [], rev_TeardownOptions = []\<rparr>"

text \<open>Unlike the methods of a phase, those of a revision replace the options.\<close>

definition revision_WithReconcileOptions :: "revision \<Rightarrow> RevisionReconcileOption list \<Rightarrow> revision" where
  "revision_WithReconcileOptions r opts = r\<lparr>rev_ReconcileOptions := opts\<rparr>"

definition revision_WithTeardownOptions :: "revision \<Rightarrow> RevisionTeardownOption list \<Rightarrow> revision" where
  "revision_WithTeardownOptions r opts = r\<lparr>rev_TeardownOptions := opts\<rparr>"

definition NewRevisionWithOwner ::
  "string \<Rightarrow> int \<Rightarrow> phase list \<Rightarrow> Object \<Rightarrow> OwnerStrategy option \<Rightarrow> revision go" where
  "NewRevisionWithOwner name revNumber phases owner ownerStrat =
    obind (WithOwner owner ownerStrat) (\<lambda>oo.
      let r = NewRevision name revNumber phases
      in Val (revision_WithTeardownOptions
           (revision_WithReconcileOptions r [RRPhase (PRObject (optionFn oo))])
           [RTPhase (PTObject (teardownOptionFn oo))]))"

definition NewRevisionWithOwnerAndSiblings ::
  "string \<Rightarrow> int \<Rightarrow> phase list \<Rightarrow> Object \<Rightarrow> OwnerStrategy option \<Rightarrow> Object list \<Rightarrow> revision go" where
  "NewRevisionWithOwnerAndSiblings name revNumber phases owner ownerStrat siblings =
    obind (WithOwner owner ownerStrat) (\<lambda>oo.
      let r = NewRevision name revNumber phases
      in Val (revision_WithTeardownOptions
           (revision_WithReconcileOptions r
              [RRPhase (PRObject (optionFn oo)), RRPhase (PRObject (WithSiblingOwners siblings))])
           [RTPhase (PTObject (teardownOptionFn oo))]))"

section \<open>What the option lists mean\<close>

subsection \<open>Objects\<close>

lemma Paused_step:
  "Paused (ApplyToObjectReconcileOptions o' opts) \<longleftrightarrow> Paused opts \<or> o' = WithPaused"
  by (cases o') auto

lemma Paused_fold:
  "Paused (fold ApplyToObjectReconcileOptions os opts) \<longleftrightarrow> Paused opts \<or> WithPaused \<in> set os"
  by (induction os arbitrary: opts) (auto simp: Paused_step)

lemma Paused_options [simp]: "Paused (object_reconcile_options os) \<longleftrightarrow> WithPaused \<in> set os"
  by (simp add: object_reconcile_options_def Paused_fold zero_ObjectReconcileOptions_def)

lemma object_reconcile_options_snoc:
  "object_reconcile_options (os @ [o']) =
    ApplyToObjectReconcileOptions o' (object_reconcile_options os)"
  by (simp add: object_reconcile_options_def)

lemma Default_Paused: "ObjectReconcileOptions_Default opts = Val opts' \<Longrightarrow> Paused opts' = Paused opts"
  by (auto simp: ObjectReconcileOptions_Default_def split: if_splits)

lemma Default_Owner:
  "ObjectReconcileOptions_Default opts = Val opts' \<Longrightarrow>
    Owner opts' = Owner opts \<and> OwnerStrategyOpt opts' = OwnerStrategyOpt opts \<and>
    Probes opts' = Probes opts \<and> SiblingOwnerClassifier opts' = SiblingOwnerClassifier opts \<and>
    (Owner opts' \<noteq> None \<longrightarrow> OwnerStrategyOpt opts' \<noteq> None) \<and>
    CollisionProtection opts' \<noteq> []"
  by (auto simp: ObjectReconcileOptions_Default_def split: if_splits)

subsection \<open>Phases\<close>

fun object_option_of :: "PhaseReconcileOption \<Rightarrow> ObjectReconcileOption list" where
  "object_option_of (PRObject p) = [p]"
| "object_option_of _ = []"

lemma pr_defaults_fold:
  "pr_DefaultObjectOptions (fold ApplyToPhaseReconcileOptions os opts) =
    pr_DefaultObjectOptions opts @ concat (map object_option_of os)"
proof (induction os arbitrary: opts)
  case (Cons a os)
  then show ?case by (cases a) auto
qed simp

lemma pr_defaults:
  "pr_DefaultObjectOptions (phase_reconcile_options os) = concat (map object_option_of os)"
  by (simp add: phase_reconcile_options_def pr_defaults_fold zero_PhaseReconcileOptions_def)

lemma phase_default_reaches_object:
  "PRObject p \<in> set os \<Longrightarrow> p \<in> set (PhaseReconcileOptions_ForObject (phase_reconcile_options os) obj)"
  by (force simp: PhaseReconcileOptions_ForObject_def pr_defaults)

fun phase_options_of :: "RevisionReconcileOption \<Rightarrow> PhaseReconcileOption list" where
  "phase_options_of (RRPhase p) = [p]"
| "phase_options_of _ = []"

lemma rr_defaults_fold:
  "rr_DefaultPhaseOptions (fold ApplyToRevisionReconcileOptions os opts) =
    rr_DefaultPhaseOptions opts @ concat (map phase_options_of os)"
proof (induction os arbitrary: opts)
  case (Cons a os)
  then show ?case by (cases a) auto
qed simp

lemma rr_defaults:
  "rr_DefaultPhaseOptions (revision_reconcile_options os) = concat (map phase_options_of os)"
  by (simp add: revision_reconcile_options_def rr_defaults_fold zero_RevisionReconcileOptions_def)

lemma revision_default_reaches_phase:
  "RRPhase p \<in> set os \<Longrightarrow> p \<in> set (RevisionReconcileOptions_ForPhase (revision_reconcile_options os) n)"
  by (force simp: RevisionReconcileOptions_ForPhase_def rr_defaults)

lemma teardown_defaults_fold:
  "pt_DefaultObjectOptions (fold ApplyToPhaseTeardownOptions os opts) =
    pt_DefaultObjectOptions opts @ concat (map (\<lambda>p. case p of PTObject q \<Rightarrow> [q] | _ \<Rightarrow> []) os)"
proof (induction os arbitrary: opts)
  case (Cons a os)
  then show ?case by (cases a) auto
qed simp

lemma phase_teardown_default_reaches_object:
  "PTObject p \<in> set os \<Longrightarrow> p \<in> set (PhaseTeardownOptions_ForObject (phase_teardown_options os) obj)"
  by (force simp: PhaseTeardownOptions_ForObject_def phase_teardown_options_def
        teardown_defaults_fold)

lemma revision_teardown_defaults_fold:
  "rt_DefaultPhaseOptions (fold ApplyToRevisionTeardownOptions os opts) =
    rt_DefaultPhaseOptions opts @ concat (map (\<lambda>p. case p of RTPhase q \<Rightarrow> [q] | _ \<Rightarrow> []) os)"
proof (induction os arbitrary: opts)
  case (Cons a os)
  then show ?case by (cases a) auto
qed simp

lemma revision_teardown_default_reaches_phase:
  "RTPhase p \<in> set os \<Longrightarrow> p \<in> set (RevisionTeardownOptions_ForPhase (revision_teardown_options os) n)"
  by (force simp: RevisionTeardownOptions_ForPhase_def revision_teardown_options_def
        revision_teardown_defaults_fold)

subsection \<open>Precedence\<close>

lemma fold_reconcile_append:
  "object_reconcile_options (xs @ ys) =
    fold ApplyToObjectReconcileOptions ys (object_reconcile_options xs)"
  by (simp add: object_reconcile_options_def)

fun sets_protection :: "ObjectReconcileOption \<Rightarrow> bool" where
  "sets_protection (WithCollisionProtection p) = True"
| "sets_protection _ = False"

lemma protection_unchanged:
  "\<not> list_ex sets_protection os \<Longrightarrow>
    CollisionProtection (fold ApplyToObjectReconcileOptions os opts) = CollisionProtection opts"
proof (induction os arbitrary: opts)
  case (Cons a os)
  then show ?case by (cases a) auto
qed simp

lemma find_append: "find P (xs @ ys) = (case find P xs of None \<Rightarrow> find P ys | Some x \<Rightarrow> Some x)"
  by (induction xs) auto

lemma pr_object_options_fold:
  "pr_ObjectOptions (fold ApplyToPhaseReconcileOptions os opts) ref =
    (case find (\<lambda>o'. \<exists>xs. o' = WithObjectReconcileOptions ref xs) (rev os) of
       Some (WithObjectReconcileOptions r xs) \<Rightarrow> Some xs
     | _ \<Rightarrow> pr_ObjectOptions opts ref)"
proof (induction os rule: rev_induct)
  case (snoc a os)
  then show ?case by (cases a) auto
qed simp

text \<open>The options of one object win over the defaults of the phase, and the last one given for
  the object wins among them: the collision protection set last in WithObjectReconcileOptions is
  the one in effect, whatever defaults the revision and the phase have.\<close>

theorem object_options_override_defaults:
  assumes "\<not> list_ex sets_protection after"
    and "\<forall>xs. WithObjectReconcileOptions (ToObjectRef obj) xs \<notin> set later"
    and opts: "opts = earlier @
    [WithObjectReconcileOptions (ToObjectRef obj) (before @ [WithCollisionProtection p] @ after)] @ later"
  shows "CollisionProtection (object_reconcile_options
    (PhaseReconcileOptions_ForObject (phase_reconcile_options opts) obj)) = p"
proof -
  have "find (\<lambda>o'. \<exists>xs. o' = WithObjectReconcileOptions (ToObjectRef obj) xs) (rev later) = None"
    using assms(2) by (auto simp: find_None_all)
  then have "find (\<lambda>o'. \<exists>xs. o' = WithObjectReconcileOptions (ToObjectRef obj) xs) (rev opts) =
      Some (WithObjectReconcileOptions (ToObjectRef obj) (before @ [WithCollisionProtection p] @ after))"
    by (simp add: opts find_append)
  then have "pr_ObjectOptions (phase_reconcile_options opts) (ToObjectRef obj) =
      Some (before @ [WithCollisionProtection p] @ after)"
    by (simp add: phase_reconcile_options_def pr_object_options_fold)
  then have "object_reconcile_options (PhaseReconcileOptions_ForObject (phase_reconcile_options opts) obj) =
      fold ApplyToObjectReconcileOptions after (ApplyToObjectReconcileOptions (WithCollisionProtection p)
        (object_reconcile_options (pr_DefaultObjectOptions (phase_reconcile_options opts) @ before)))"
    by (simp add: PhaseReconcileOptions_ForObject_def list_at_def fold_reconcile_append
        object_reconcile_options_def)
  with protection_unchanged [OF assms(1)] show ?thesis by simp
qed

text \<open>Adding options to a phase keeps the owner it was built with; setting options on a revision
  replaces them, so a revision built with an owner loses it.\<close>

theorem WithReconcileOptions_phase_appends_revision_replaces:
  assumes "GetUID owner \<noteq> []"
  shows "\<exists>p r. NewPhaseWithOwner name objects owner strat = Val p \<and>
    NewRevisionWithOwner name n phases owner strat = Val r \<and>
    Owner (object_reconcile_options (pr_DefaultObjectOptions (phase_reconcile_options
      (ph_ReconcileOptions (phase_WithReconcileOptions p [PRObject WithPaused]))))) = Some owner \<and>
    RevisionReconcileOptions_GetOwner (revision_reconcile_options (rev_ReconcileOptions r)) = Some owner \<and>
    RevisionReconcileOptions_GetOwner (revision_reconcile_options (rev_ReconcileOptions
      (revision_WithReconcileOptions r [RRPhase (PRObject WithPaused)]))) = None"
  using assms
  by (simp add: NewPhaseWithOwner_def NewRevisionWithOwner_def WithOwner_def NewPhase_def NewRevision_def
      phase_WithReconcileOptions_def phase_WithTeardownOptions_def revision_WithReconcileOptions_def
      revision_WithTeardownOptions_def pr_defaults rr_defaults RevisionReconcileOptions_GetOwner_def
      object_reconcile_options_def zero_ObjectReconcileOptions_def Let_def)

section \<open>Option lists of defaults only\<close>

lemma ForPhase_defaults [simp]:
  "RevisionReconcileOptions_ForPhase (revision_reconcile_options (map RRPhase os)) name = os"
proof -
  have "fold ApplyToRevisionReconcileOptions (map RRPhase os) opts =
      opts\<lparr>rr_DefaultPhaseOptions := rr_DefaultPhaseOptions opts @ os\<rparr>" for opts
    by (induction os arbitrary: opts) simp_all
  then show ?thesis
    by (simp add: revision_reconcile_options_def RevisionReconcileOptions_ForPhase_def
        zero_RevisionReconcileOptions_def list_at_def)
qed

lemma ForObject_defaults [simp]:
  "PhaseReconcileOptions_ForObject (phase_reconcile_options (map PRObject os)) obj = os"
proof -
  have "fold ApplyToPhaseReconcileOptions (map PRObject os) opts =
      opts\<lparr>pr_DefaultObjectOptions := pr_DefaultObjectOptions opts @ os\<rparr>" for opts
    by (induction os arbitrary: opts) simp_all
  then show ?thesis
    by (simp add: phase_reconcile_options_def PhaseReconcileOptions_ForObject_def
        zero_PhaseReconcileOptions_def list_at_def)
qed

lemma ForPhase_teardown_defaults [simp]:
  "RevisionTeardownOptions_ForPhase (revision_teardown_options (map RTPhase os)) name = os"
proof -
  have "fold ApplyToRevisionTeardownOptions (map RTPhase os) opts =
      opts\<lparr>rt_DefaultPhaseOptions := rt_DefaultPhaseOptions opts @ os\<rparr>" for opts
    by (induction os arbitrary: opts) simp_all
  then show ?thesis
    by (simp add: revision_teardown_options_def RevisionTeardownOptions_ForPhase_def
        zero_RevisionTeardownOptions_def list_at_def)
qed

lemma ForObject_teardown_defaults [simp]:
  "PhaseTeardownOptions_ForObject (phase_teardown_options (map PTObject os)) obj = os"
proof -
  have "fold ApplyToPhaseTeardownOptions (map PTObject os) opts =
      opts\<lparr>pt_DefaultObjectOptions := pt_DefaultObjectOptions opts @ os\<rparr>" for opts
    by (induction os arbitrary: opts) simp_all
  then show ?thesis
    by (simp add: phase_teardown_options_def PhaseTeardownOptions_ForObject_def
        zero_PhaseTeardownOptions_def list_at_def)
qed

end
