(* ===== verification/Results.thy ===== *)
theory Results
  imports Options
begin

text \<open>
  machinery/results.go and the result type of machinery/comparator.go: what reconciling one object
  reports, the probes it runs and when the object counts as complete. A \<open>fieldpath.Set\<close> is the list
  of its paths as printed, in iteration order.
\<close>

section \<open>Results of a comparison\<close>

type_synonym fieldset = "string list"

record CompareResultManagedFields =
  Manager :: string
  Fields :: fieldset

record typed_Comparison =
  Added :: fieldset
  ModifiedFields :: fieldset
  Removed :: fieldset

record CompareResult =
  ConflictingMangers :: "CompareResultManagedFields list"
  OtherManagers :: "CompareResultManagedFields list"
  DesiredFieldSet :: "fieldset option"
  Comparison :: "typed_Comparison option"

definition IsConflict :: "CompareResult \<Rightarrow> bool" where
  "IsConflict d \<longleftrightarrow> ConflictingMangers d \<noteq> []"

definition CompareResult_Modified :: "CompareResult \<Rightarrow> string list" where
  "CompareResult_Modified d =
    (case Comparison d of None \<Rightarrow> [] | Some c \<Rightarrow> ModifiedFields c @ Removed c)"

text \<open>The comparator as the object engine calls it, with the options already applied.\<close>

type_synonym comparator = "Object \<Rightarrow> Object \<Rightarrow> ComparatorOptions \<Rightarrow> CompareResult go"

section \<open>Object results\<close>

type_synonym Action = string

definition ActionCreated :: Action where "ActionCreated = ''Created''"
definition ActionUpdated :: Action where "ActionUpdated = ''Updated''"
definition ActionRecovered :: Action where "ActionRecovered = ''Recovered''"
definition ActionProgressed :: Action where "ActionProgressed = ''Progressed''"
definition ActionIdle :: Action where "ActionIdle = ''Idle''"
definition ActionCollision :: Action where "ActionCollision = ''Collision''"

lemmas action_defs = ActionCreated_def ActionUpdated_def ActionRecovered_def ActionProgressed_def
  ActionIdle_def ActionCollision_def

lemma action_distinct [simp]:
  "ActionCreated \<noteq> ActionUpdated" "ActionCreated \<noteq> ActionRecovered" "ActionCreated \<noteq> ActionProgressed"
  "ActionCreated \<noteq> ActionIdle" "ActionCreated \<noteq> ActionCollision"
  "ActionUpdated \<noteq> ActionCreated" "ActionUpdated \<noteq> ActionRecovered" "ActionUpdated \<noteq> ActionProgressed"
  "ActionUpdated \<noteq> ActionIdle" "ActionUpdated \<noteq> ActionCollision"
  "ActionRecovered \<noteq> ActionCreated" "ActionRecovered \<noteq> ActionUpdated" "ActionRecovered \<noteq> ActionProgressed"
  "ActionRecovered \<noteq> ActionIdle" "ActionRecovered \<noteq> ActionCollision"
  "ActionProgressed \<noteq> ActionCreated" "ActionProgressed \<noteq> ActionUpdated" "ActionProgressed \<noteq> ActionRecovered"
  "ActionProgressed \<noteq> ActionIdle" "ActionProgressed \<noteq> ActionCollision"
  "ActionIdle \<noteq> ActionCreated" "ActionIdle \<noteq> ActionUpdated" "ActionIdle \<noteq> ActionRecovered"
  "ActionIdle \<noteq> ActionProgressed" "ActionIdle \<noteq> ActionCollision"
  "ActionCollision \<noteq> ActionCreated" "ActionCollision \<noteq> ActionUpdated" "ActionCollision \<noteq> ActionRecovered"
  "ActionCollision \<noteq> ActionProgressed" "ActionCollision \<noteq> ActionIdle"
  by (simp_all add: action_defs)

record normalResult =
  nr_action :: Action
  nr_obj :: Object
  nr_probeResults :: ProbeResultContainer
  nr_compareResult :: CompareResult
  nr_options :: ObjectReconcileOptions

datatype ObjectResult =
    ObjectResultCreated Object ProbeResultContainer ObjectReconcileOptions
  | ObjectResultUpdated normalResult
  | ObjectResultProgressed normalResult
  | ObjectResultIdle normalResult
  | ObjectResultRecovered normalResult
  | ObjectResultCollision normalResult "OwnerReference option"

text \<open>Calling \<open>Probe\<close> on a nil prober is a nil dereference.\<close>

fun runProbes :: "Object \<Rightarrow> (string \<times> Prober option) list \<Rightarrow> ProbeResultContainer go" where
  "runProbes obj [] = Val []"
| "runProbes obj ((t, None) # probes) = Panics ''nil pointer dereference''"
| "runProbes obj ((t, Some probe) # probes) =
     obind (probe obj) (\<lambda>r. obind (runProbes obj probes) (\<lambda>results. Val ((t, r) # results)))"

definition isComplete :: "Action \<Rightarrow> ProbeResultContainer \<Rightarrow> ObjectReconcileOptions \<Rightarrow> bool" where
  "isComplete action probeResults options =
    (if action = ActionCollision then False
     else if Paused options \<and> action \<noteq> ActionIdle \<and> action \<noteq> ActionProgressed then False
     else case map_of (Probes options) ProgressProbeType of
            None \<Rightarrow> True
          | Some None \<Rightarrow> True
          | Some (Some probe) \<Rightarrow>
              Status (ProbeResultContainer_Type probeResults ProgressProbeType) = ProbeStatusTrue)"

definition newObjectResultCreated :: "Object \<Rightarrow> ObjectReconcileOptions \<Rightarrow> ObjectResult go" where
  "newObjectResultCreated obj options =
    obind (runProbes obj (Probes options)) (\<lambda>pr. Val (ObjectResultCreated obj pr options))"

definition newNormalObjectResult ::
  "Action \<Rightarrow> Object \<Rightarrow> CompareResult \<Rightarrow> ObjectReconcileOptions \<Rightarrow> normalResult go" where
  "newNormalObjectResult action obj compResult options =
    (if action = ActionCreated then Panics ''use newObjectResultCreated, instead''
     else obind (runProbes obj (Probes options)) (\<lambda>pr.
       Val \<lparr>nr_action = action, nr_obj = obj, nr_probeResults = pr, nr_compareResult = compResult,
            nr_options = options\<rparr>))"

definition newObjectResultUpdated ::
  "Object \<Rightarrow> CompareResult \<Rightarrow> ObjectReconcileOptions \<Rightarrow> ObjectResult go" where
  "newObjectResultUpdated obj diverged options =
    obind (newNormalObjectResult ActionUpdated obj diverged options) (\<lambda>n. Val (ObjectResultUpdated n))"

definition newObjectResultProgressed ::
  "Object \<Rightarrow> CompareResult \<Rightarrow> ObjectReconcileOptions \<Rightarrow> ObjectResult go" where
  "newObjectResultProgressed obj diverged options =
    obind (newNormalObjectResult ActionProgressed obj diverged options)
      (\<lambda>n. Val (ObjectResultProgressed n))"

definition newObjectResultIdle ::
  "Object \<Rightarrow> CompareResult \<Rightarrow> ObjectReconcileOptions \<Rightarrow> ObjectResult go" where
  "newObjectResultIdle obj diverged options =
    obind (newNormalObjectResult ActionIdle obj diverged options) (\<lambda>n. Val (ObjectResultIdle n))"

definition newObjectResultRecovered ::
  "Object \<Rightarrow> CompareResult \<Rightarrow> ObjectReconcileOptions \<Rightarrow> ObjectResult go" where
  "newObjectResultRecovered obj diverged options =
    obind (newNormalObjectResult ActionRecovered obj diverged options)
      (\<lambda>n. Val (ObjectResultRecovered n))"

definition newObjectResultConflict ::
  "Object \<Rightarrow> CompareResult \<Rightarrow> OwnerReference option \<Rightarrow> ObjectReconcileOptions \<Rightarrow> ObjectResult go" where
  "newObjectResultConflict obj diverged conflictingOwner options =
    obind (newNormalObjectResult ActionCollision obj diverged options)
      (\<lambda>n. Val (ObjectResultCollision n conflictingOwner))"

subsection \<open>The methods of a result\<close>

fun result_Action :: "ObjectResult \<Rightarrow> Action" where
  "result_Action (ObjectResultCreated obj pr opts) = ActionCreated"
| "result_Action (ObjectResultUpdated n) = nr_action n"
| "result_Action (ObjectResultProgressed n) = nr_action n"
| "result_Action (ObjectResultIdle n) = nr_action n"
| "result_Action (ObjectResultRecovered n) = nr_action n"
| "result_Action (ObjectResultCollision n ref) = nr_action n"

fun result_Object :: "ObjectResult \<Rightarrow> Object" where
  "result_Object (ObjectResultCreated obj pr opts) = obj"
| "result_Object (ObjectResultUpdated n) = nr_obj n"
| "result_Object (ObjectResultProgressed n) = nr_obj n"
| "result_Object (ObjectResultIdle n) = nr_obj n"
| "result_Object (ObjectResultRecovered n) = nr_obj n"
| "result_Object (ObjectResultCollision n ref) = nr_obj n"

fun result_ProbeResults :: "ObjectResult \<Rightarrow> ProbeResultContainer" where
  "result_ProbeResults (ObjectResultCreated obj pr opts) = pr"
| "result_ProbeResults (ObjectResultUpdated n) = nr_probeResults n"
| "result_ProbeResults (ObjectResultProgressed n) = nr_probeResults n"
| "result_ProbeResults (ObjectResultIdle n) = nr_probeResults n"
| "result_ProbeResults (ObjectResultRecovered n) = nr_probeResults n"
| "result_ProbeResults (ObjectResultCollision n ref) = nr_probeResults n"

fun result_options :: "ObjectResult \<Rightarrow> ObjectReconcileOptions" where
  "result_options (ObjectResultCreated obj pr opts) = opts"
| "result_options (ObjectResultUpdated n) = nr_options n"
| "result_options (ObjectResultProgressed n) = nr_options n"
| "result_options (ObjectResultIdle n) = nr_options n"
| "result_options (ObjectResultRecovered n) = nr_options n"
| "result_options (ObjectResultCollision n ref) = nr_options n"

definition result_IsPaused :: "ObjectResult \<Rightarrow> bool" where
  "result_IsPaused r = Paused (result_options r)"

definition result_IsComplete :: "ObjectResult \<Rightarrow> bool" where
  "result_IsComplete r = isComplete (result_Action r) (result_ProbeResults r) (result_options r)"

fun ConflictingOwner :: "ObjectResult \<Rightarrow> OwnerReference option" where
  "ConflictingOwner (ObjectResultCollision n ref) = ref"
| "ConflictingOwner _ = None"

lemmas new_result_defs =
  newObjectResultCreated_def newNormalObjectResult_def newObjectResultUpdated_def
  newObjectResultProgressed_def newObjectResultIdle_def newObjectResultRecovered_def
  newObjectResultConflict_def

section \<open>Facts\<close>

lemma runProbes_keys: "runProbes obj probes = Val rs \<Longrightarrow> map fst rs = map fst probes"
  by (induction obj probes arbitrary: rs rule: runProbes.induct) (auto simp: obind_eq_Val)

lemma runProbes_no_fail:
  "(\<And>t p. (t, Some p) \<in> set probes \<Longrightarrow> \<exists>r. p obj = Val r) \<Longrightarrow>
    (\<And>t. (t, None) \<notin> set probes) \<Longrightarrow> \<exists>rs. runProbes obj probes = Val rs"
proof (induction obj probes rule: runProbes.induct)
  case (3 obj t probe probes)
  obtain r where "probe obj = Val r" using "3.prems"(1) [of t probe] by auto
  moreover obtain rs where "runProbes obj probes = Val rs"
    using "3.IH" "3.prems" by (metis list.set_intros(2))
  ultimately show ?case by simp
qed auto

lemma runProbes_lookup:
  "runProbes obj probes = Val rs \<Longrightarrow> map_of probes t = Some (Some p) \<Longrightarrow>
    \<exists>r. p obj = Val r \<and> map_of rs t = Some r"
  by (induction obj probes arbitrary: rs rule: runProbes.induct)
    (auto simp: obind_eq_Val split: if_splits)

text \<open>How each constructor function fills the result.\<close>

lemma new_result_Val:
  "newObjectResultCreated obj opts = Val r \<Longrightarrow>
     result_Action r = ActionCreated \<and> result_Object r = obj \<and> result_options r = opts \<and>
     runProbes obj (Probes opts) = Val (result_ProbeResults r)"
  "newObjectResultUpdated obj cr opts = Val r \<Longrightarrow>
     result_Action r = ActionUpdated \<and> result_Object r = obj \<and> result_options r = opts \<and>
     runProbes obj (Probes opts) = Val (result_ProbeResults r)"
  "newObjectResultProgressed obj cr opts = Val r \<Longrightarrow>
     result_Action r = ActionProgressed \<and> result_Object r = obj \<and> result_options r = opts \<and>
     runProbes obj (Probes opts) = Val (result_ProbeResults r)"
  "newObjectResultIdle obj cr opts = Val r \<Longrightarrow>
     result_Action r = ActionIdle \<and> result_Object r = obj \<and> result_options r = opts \<and>
     runProbes obj (Probes opts) = Val (result_ProbeResults r)"
  "newObjectResultRecovered obj cr opts = Val r \<Longrightarrow>
     result_Action r = ActionRecovered \<and> result_Object r = obj \<and> result_options r = opts \<and>
     runProbes obj (Probes opts) = Val (result_ProbeResults r)"
  "newObjectResultConflict obj cr ref opts = Val r \<Longrightarrow>
     result_Action r = ActionCollision \<and> result_Object r = obj \<and> result_options r = opts \<and>
     runProbes obj (Probes opts) = Val (result_ProbeResults r) \<and> ConflictingOwner r = ref"
  by (auto simp: new_result_defs obind_eq_Val)

lemma collision_incomplete: "result_Action res = ActionCollision \<Longrightarrow> \<not> result_IsComplete res"
  by (simp add: result_IsComplete_def isComplete_def)

lemma complete_result:
  assumes "result_IsComplete res"
    and "runProbes (result_Object res) (Probes (result_options res)) = Val (result_ProbeResults res)"
  shows "result_Action res \<noteq> ActionCollision \<and>
    (Paused (result_options res) \<longrightarrow>
       result_Action res = ActionIdle \<or> result_Action res = ActionProgressed) \<and>
    (\<forall>probe. map_of (Probes (result_options res)) ProgressProbeType = Some (Some probe) \<longrightarrow>
       (\<exists>pr. probe (result_Object res) = Val pr \<and> Status pr = ProbeStatusTrue))"
proof -
  have "\<exists>pr. probe (result_Object res) = Val pr \<and> Status pr = ProbeStatusTrue"
    if p: "map_of (Probes (result_options res)) ProgressProbeType = Some (Some probe)" for probe
  proof -
    from runProbes_lookup [OF assms(2) p] obtain pr where
      "probe (result_Object res) = Val pr"
      "map_of (result_ProbeResults res) ProgressProbeType = Some pr" by auto
    with assms(1) p show ?thesis
      by (auto simp: result_IsComplete_def isComplete_def ProbeResultContainer_Type_def split: if_splits)
  qed
  with assms(1) show ?thesis by (auto simp: result_IsComplete_def isComplete_def split: if_splits)
qed

end
