(* ===== verification/OwnerNative.thy ===== *)
theory OwnerNative
  imports OwnerStrategy
begin

text \<open>
  ownerhandling/common.go and ownerhandling/native.go: the strategy that records owners in
  \<open>.metadata.ownerReferences\<close>. \<open>controllerutil.SetControllerReference\<close> and
  \<open>controllerutil.SetOwnerReference\<close> are third-party code and enter as the parameters \<open>scr\<close> and
  \<open>sor\<close>; \<open>scr_contract\<close> is the documented behaviour of the first that the strategy relies on.
\<close>

section \<open>common.go\<close>

text \<open>\<open>remove\<close> overwrites the element at the index with the last one and cuts the slice.\<close>

definition remove :: "'a list \<Rightarrow> nat \<Rightarrow> 'a list" where
  "remove s i = butlast (s[i := last s])"

lemma remove_covers:
  assumes "i < length s"
  shows "set s = insert (s ! i) (set (remove s i))"
proof -
  from assms obtain ys y where s: "s = ys @ [y]" by (cases s rule: rev_cases) auto
  show ?thesis
  proof (cases "i = length ys")
    case True
    with s show ?thesis by (simp add: remove_def)
  next
    case False
    with s assms have i: "i < length ys" by simp
    then have ys: "ys = take i ys @ ys ! i # drop (Suc i) ys" by (rule id_take_nth_drop)
    have "remove s i = ys[i := y]"
      using s i by (simp add: remove_def list_update_append nth_append)
    moreover have "set (ys[i := y]) = insert y (set (take i ys) \<union> set (drop (Suc i) ys))"
      using i by (simp add: upd_conv_take_nth_drop)
    moreover have "set ys = insert (ys ! i) (set (take i ys) \<union> set (drop (Suc i) ys))"
      by (subst ys) auto
    ultimately show ?thesis using s i by (auto simp: nth_append)
  qed
qed

lemma length_remove: "i < length s \<Longrightarrow> length (remove s i) = length s - 1"
  by (simp add: remove_def)

section \<open>native.go\<close>

definition is_ctrl :: "OwnerReference \<Rightarrow> bool" where
  "is_ctrl r \<longleftrightarrow> or_Controller r = Some True"

definition Native_GetController :: "Object \<Rightarrow> OwnerReference option go" where
  "Native_GetController obj = Val (find is_ctrl (GetOwnerReferences obj))"

definition Native_CopyOwnerReferences :: "Object \<Rightarrow> Object \<Rightarrow> Object go" where
  "Native_CopyOwnerReferences objA objB = Val (objB\<lparr>GetOwnerReferences := GetOwnerReferences objA\<rparr>)"

definition Native_ownerRefForCompare :: "apimachinery \<Rightarrow> Object \<Rightarrow> OwnerReference go" where
  "Native_ownerRefForCompare api owner =
    (case GVKForObject api owner of
       Inl e \<Rightarrow> Panics ''ownerRefForCompare: GVKForObject''
     | Inr gvk \<Rightarrow> Val \<lparr>or_APIVersion = GroupVersionString api gvk, or_Kind = Kind gvk,
                      or_Name = GetName owner, or_UID = GetUID owner,
                      or_Controller = None, or_BlockOwnerDeletion = None\<rparr>)"

definition Native_referSameObject ::
  "apimachinery \<Rightarrow> OwnerReference \<Rightarrow> OwnerReference \<Rightarrow> bool go" where
  "Native_referSameObject api a b =
    (case ParseGroupVersion api (or_APIVersion a) of
       Inl e \<Rightarrow> Panics ''referSameObject: ParseGroupVersion''
     | Inr (aGroup, aVersion) \<Rightarrow>
         (case ParseGroupVersion api (or_APIVersion b) of
            Inl e \<Rightarrow> Panics ''referSameObject: ParseGroupVersion''
          | Inr (bGroup, bVersion) \<Rightarrow>
              Val (aGroup = bGroup \<and> or_Kind a = or_Kind b \<and> or_Name a = or_Name b \<and>
                   or_UID a = or_UID b)))"

text \<open>The search loops stop at the first hit and panic on the first unparsable API version.\<close>

fun Native_search ::
  "apimachinery \<Rightarrow> (OwnerReference \<Rightarrow> bool) \<Rightarrow> OwnerReference \<Rightarrow> nat \<Rightarrow> OwnerReference list \<Rightarrow> nat option go"
where
  "Native_search api extra ownerRefComp i [] = Val None"
| "Native_search api extra ownerRefComp i (r # rs) =
    obind (Native_referSameObject api ownerRefComp r) (\<lambda>same.
      if same \<and> extra r then Val (Some i) else Native_search api extra ownerRefComp (Suc i) rs)"

definition Native_IsOwner :: "apimachinery \<Rightarrow> Object \<Rightarrow> Object \<Rightarrow> bool go" where
  "Native_IsOwner api owner obj =
    obind (Native_ownerRefForCompare api owner) (\<lambda>ownerRefComp.
    obind (Native_search api (\<lambda>_. True) ownerRefComp 0 (GetOwnerReferences obj)) (\<lambda>found.
    Val (found \<noteq> None)))"

definition Native_IsController :: "apimachinery \<Rightarrow> Object \<Rightarrow> Object \<Rightarrow> bool go" where
  "Native_IsController api owner obj =
    obind (Native_ownerRefForCompare api owner) (\<lambda>ownerRefComp.
    obind (Native_search api is_ctrl ownerRefComp 0 (GetOwnerReferences obj)) (\<lambda>found.
    Val (found \<noteq> None)))"

definition Native_RemoveOwner :: "apimachinery \<Rightarrow> Object \<Rightarrow> Object \<Rightarrow> Object go" where
  "Native_RemoveOwner api owner obj =
    obind (Native_ownerRefForCompare api owner) (\<lambda>ownerRefComp.
    obind (Native_search api (\<lambda>_. True) ownerRefComp 0 (GetOwnerReferences obj)) (\<lambda>foundIndex.
      case foundIndex of
        None \<Rightarrow> Val obj
      | Some i \<Rightarrow> Val (obj\<lparr>GetOwnerReferences := remove (GetOwnerReferences obj) i\<rparr>)))"

definition Native_ReleaseController :: "Object \<Rightarrow> Object go" where
  "Native_ReleaseController obj =
    Val (obj\<lparr>GetOwnerReferences :=
      map (\<lambda>r. r\<lparr>or_Controller := Some False\<rparr>) (GetOwnerReferences obj)\<rparr>)"

text \<open>The remaining methods hand over to controller-runtime: \<open>sor\<close>, \<open>scr\<close> and \<open>enqueueForOwner\<close> are its
  functions with the scheme already applied. The last one takes the options of the event handler it
  builds.\<close>

definition Native_SetOwnerReference ::
  "(Object \<Rightarrow> Object \<Rightarrow> Object go) \<Rightarrow> Object \<Rightarrow> Object \<Rightarrow> Object go" where
  "Native_SetOwnerReference sor owner obj = sor owner obj"

definition Native_SetControllerReference ::
  "(Object \<Rightarrow> Object \<Rightarrow> Object go) \<Rightarrow> Object \<Rightarrow> Object \<Rightarrow> Object go" where
  "Native_SetControllerReference scr owner obj = scr owner obj"

datatype OwnerOption = OnlyControllerOwner

definition Native_EnqueueRequestForOwner ::
  "('m \<Rightarrow> Object \<Rightarrow> OwnerOption list \<Rightarrow> 'h) \<Rightarrow> Object \<Rightarrow> 'm \<Rightarrow> bool \<Rightarrow> 'h" where
  "Native_EnqueueRequestForOwner enqueueForOwner ownerType mapper isController =
    (if isController then enqueueForOwner mapper ownerType [OnlyControllerOwner]
     else enqueueForOwner mapper ownerType [])"

lemma Native_SetControllerReference_eq [simp]: "Native_SetControllerReference scr = scr"
  by (simp add: fun_eq_iff Native_SetControllerReference_def)

definition OwnerStrategyNative :: "apimachinery \<Rightarrow> (Object \<Rightarrow> Object \<Rightarrow> Object go) \<Rightarrow> OwnerStrategy" where
  "OwnerStrategyNative api scr =
    \<lparr>SetControllerReference = Native_SetControllerReference scr,
     GetController = Native_GetController,
     IsController = Native_IsController api,
     CopyOwnerReferences = Native_CopyOwnerReferences,
     ReleaseController = Native_ReleaseController,
     RemoveOwner = Native_RemoveOwner api\<rparr>"

section \<open>Well-formed references\<close>

definition parses :: "apimachinery \<Rightarrow> string \<Rightarrow> bool" where
  "parses api v \<longleftrightarrow> (\<exists>gv. ParseGroupVersion api v = Inr gv)"

text \<open>\<open>refers api a b\<close>: both API versions parse to the same group, and kind, name and UID agree.\<close>

definition refers :: "apimachinery \<Rightarrow> OwnerReference \<Rightarrow> OwnerReference \<Rightarrow> bool" where
  "refers api a b \<longleftrightarrow> Native_referSameObject api a b = Val True"

definition native_obj_ok :: "apimachinery \<Rightarrow> Object \<Rightarrow> bool" where
  "native_obj_ok api obj \<longleftrightarrow> (\<forall>r\<in>set (GetOwnerReferences obj). parses api (or_APIVersion r))"

text \<open>The documented behaviour of \<open>controllerutil.SetControllerReference\<close>: on an object without a
  controller it puts a controller reference for the owner in the list and keeps the other
  references.\<close>

definition scr_contract ::
  "apimachinery \<Rightarrow> (Object \<Rightarrow> Object \<Rightarrow> Object go) \<Rightarrow> Object \<Rightarrow> Object \<Rightarrow> bool" where
  "scr_contract api scr owner obj \<longleftrightarrow>
    (find is_ctrl (GetOwnerReferences obj) = None \<longrightarrow>
      (\<exists>n refs gvk. scr owner obj = Val (obj\<lparr>GetOwnerReferences := refs\<rparr>) \<and>
         n \<in> set refs \<and> set refs \<subseteq> insert n (set (GetOwnerReferences obj)) \<and>
         GVKForObject api owner = Inr gvk \<and> or_APIVersion n = GroupVersionString api gvk \<and>
         or_Kind n = Kind gvk \<and> or_Name n = GetName owner \<and> or_UID n = GetUID owner \<and> is_ctrl n))"

definition native_owner_ok ::
  "apimachinery \<Rightarrow> (Object \<Rightarrow> Object \<Rightarrow> Object go) \<Rightarrow> Object \<Rightarrow> Object \<Rightarrow> bool" where
  "native_owner_ok api scr owner obj \<longleftrightarrow>
    (\<exists>gvk. GVKForObject api owner = Inr gvk \<and> parses api (GroupVersionString api gvk)) \<and>
    (\<forall>obj'. same_but_owners {} obj obj' \<longrightarrow> scr_contract api scr owner obj')"

lemma referSameObject_total:
  "parses api (or_APIVersion a) \<Longrightarrow> parses api (or_APIVersion b) \<Longrightarrow>
    Native_referSameObject api a b = Val (refers api a b)"
  by (auto simp: parses_def refers_def Native_referSameObject_def)

lemma Native_search_total:
  assumes "parses api (or_APIVersion c)" and "\<forall>r\<in>set rs. parses api (or_APIVersion r)"
  shows "\<exists>res. Native_search api extra c i rs = Val res \<and>
    (res = None \<longleftrightarrow> (\<forall>r\<in>set rs. \<not> (refers api c r \<and> extra r))) \<and>
    (\<forall>j. res = Some j \<longrightarrow> i \<le> j \<and> j < i + length rs \<and> refers api c (rs ! (j - i)) \<and> extra (rs ! (j - i)))"
  using assms(2)
proof (induction rs arbitrary: i)
  case (Cons r rs)
  show ?case
  proof (cases "refers api c r \<and> extra r")
    case True
    with Cons.prems show ?thesis by (simp add: referSameObject_total [OF assms(1)])
  next
    case False
    from Cons.IH [of "Suc i"] Cons.prems obtain res where
      res: "Native_search api extra c (Suc i) rs = Val res"
      "res = None \<longleftrightarrow> (\<forall>r\<in>set rs. \<not> (refers api c r \<and> extra r))"
      "\<And>j. res = Some j \<Longrightarrow> Suc i \<le> j \<and> j < Suc i + length rs \<and>
         refers api c (rs ! (j - Suc i)) \<and> extra (rs ! (j - Suc i))"
      by auto
    have shift: "(r # rs) ! (j - i) = rs ! (j - Suc i)" if "Suc i \<le> j" for j
      using that by (simp add: nth_Cons')
    from res False Cons.prems shift show ?thesis
      by (fastforce simp: referSameObject_total [OF assms(1)])
  qed
qed simp

lemma Native_IsController_eq:
  assumes "GVKForObject api owner = Inr gvk" and "parses api (GroupVersionString api gvk)"
    and "native_obj_ok api obj"
  shows "\<exists>c. Native_ownerRefForCompare api owner = Val c \<and>
    Native_IsController api owner obj =
      Val (\<exists>r\<in>set (GetOwnerReferences obj). refers api c r \<and> is_ctrl r)"
proof -
  let ?c = "\<lparr>or_APIVersion = GroupVersionString api gvk, or_Kind = Kind gvk, or_Name = GetName owner,
    or_UID = GetUID owner, or_Controller = None, or_BlockOwnerDeletion = None\<rparr>"
  have c: "Native_ownerRefForCompare api owner = Val ?c"
    using assms(1) by (simp add: Native_ownerRefForCompare_def)
  with Native_search_total [of api ?c "GetOwnerReferences obj" is_ctrl 0] assms(2,3)
  show ?thesis by (auto simp: Native_IsController_def native_obj_ok_def)
qed

lemma same_but_owners_refs: "same_but_owners K obj (obj\<lparr>GetOwnerReferences := rs\<rparr>)"
  unfolding same_but_owners_def
  by (rule exI [of _ rs], rule exI [of _ "GetAnnotations obj"]) simp

lemma native_set_ok:
  assumes ok: "native_owner_ok api scr owner obj" "native_obj_ok api obj"
    and none: "Native_GetController obj = Val None"
  shows "\<exists>obj' r. scr owner obj = Val obj' \<and> native_obj_ok api obj' \<and>
    same_but_owners {} obj obj' \<and> Native_IsController api owner obj' = Val True \<and>
    Native_GetController obj' = Val (Some r) \<and> or_UID r = GetUID owner"
proof -
  from none have noctrl: "find is_ctrl (GetOwnerReferences obj) = None"
    by (simp add: Native_GetController_def)
  from ok(1) obtain gvk where gvk: "GVKForObject api owner = Inr gvk" "parses api (GroupVersionString api gvk)"
    by (auto simp: native_owner_ok_def)
  from ok(1) have "scr_contract api scr owner obj"
    by (simp add: native_owner_ok_def same_but_owners_refl)
  with noctrl gvk obtain n refs where
    scr: "scr owner obj = Val (obj\<lparr>GetOwnerReferences := refs\<rparr>)" and
    n: "n \<in> set refs" "is_ctrl n" "or_APIVersion n = GroupVersionString api gvk"
      "or_Kind n = Kind gvk" "or_Name n = GetName owner" "or_UID n = GetUID owner" and
    sub: "set refs \<subseteq> insert n (set (GetOwnerReferences obj))"
    by (auto simp: scr_contract_def)
  let ?obj' = "obj\<lparr>GetOwnerReferences := refs\<rparr>"
  have obj': "native_obj_ok api ?obj'"
    using sub ok(2) n(3) gvk(2) by (auto simp: native_obj_ok_def)
  from Native_IsController_eq [OF gvk obj'] n gvk
  have isc: "Native_IsController api owner ?obj' = Val True"
    by (force simp: Native_ownerRefForCompare_def refers_def Native_referSameObject_def parses_def)
  have "find is_ctrl refs = Some n"
  proof (cases "find is_ctrl refs")
    case None
    with n show ?thesis by (auto simp: find_None_all)
  next
    case (Some r)
    then have "r \<in> set refs" "is_ctrl r" by (auto dest: find_Some_mem)
    with sub noctrl have "r = n" by (auto simp: find_None_all)
    with Some show ?thesis by simp
  qed
  with scr obj' isc n(6) show ?thesis
    by (auto simp: Native_GetController_def same_but_owners_refs)
qed

lemma native_remove_ok:
  assumes "native_owner_ok api scr owner obj" "native_obj_ok api obj"
  shows "\<exists>obj'. Native_RemoveOwner api owner obj = Val obj' \<and> native_obj_ok api obj' \<and>
    same_but_owners {} obj obj'"
proof -
  from assms(1) obtain c where c: "Native_ownerRefForCompare api owner = Val c" "parses api (or_APIVersion c)"
    by (auto simp: native_owner_ok_def Native_ownerRefForCompare_def)
  obtain res where res: "Native_search api (\<lambda>_. True) c 0 (GetOwnerReferences obj) = Val res"
    "\<And>j. res = Some j \<Longrightarrow> j < length (GetOwnerReferences obj)"
    using Native_search_total [OF c(2), of "GetOwnerReferences obj" "\<lambda>_. True" 0] assms(2)
    by (auto simp: native_obj_ok_def)
  show ?thesis
  proof (cases res)
    case None
    with res c assms(2) show ?thesis by (simp add: Native_RemoveOwner_def same_but_owners_refl)
  next
    case (Some i)
    from remove_covers [OF res(2) [OF Some]] assms(2)
    have "native_obj_ok api (obj\<lparr>GetOwnerReferences := remove (GetOwnerReferences obj) i\<rparr>)"
      by (auto simp: native_obj_ok_def)
    with Some res c show ?thesis by (simp add: Native_RemoveOwner_def same_but_owners_refs)
  qed
qed

lemma Native_release_no_ctrl:
  "find is_ctrl (map (\<lambda>r. r\<lparr>or_Controller := Some False\<rparr>) rs) = None"
  by (auto simp: find_None_all is_ctrl_def)

interpretation native: owner_strategy
  "OwnerStrategyNative api scr" "{}" "native_owner_ok api scr" "native_obj_ok api" for api scr
proof (unfold_locales, goal_cases)
  case (2 owner obj)
  then obtain gvk where "GVKForObject api owner = Inr gvk" "parses api (GroupVersionString api gvk)"
    by (auto simp: native_owner_ok_def)
  from Native_IsController_eq [OF this 2(2)] show ?case by (auto simp: OwnerStrategyNative_def)
next
  case (3 owner obj)
  then obtain gvk where "GVKForObject api owner = Inr gvk" "parses api (GroupVersionString api gvk)"
    by (auto simp: native_owner_ok_def)
  from Native_IsController_eq [OF this 3(2)] 3(3)
  have "\<exists>r\<in>set (GetOwnerReferences obj). is_ctrl r" by (auto simp: OwnerStrategyNative_def)
  then show ?case by (simp add: OwnerStrategyNative_def Native_GetController_def find_isSome_ex)
next
  case (5 obj)
  then show ?case
    by (auto simp: OwnerStrategyNative_def Native_ReleaseController_def Native_GetController_def
        Native_release_no_ctrl same_but_owners_refs native_obj_ok_def)
next
  case (6 owner obj)
  then show ?case using native_set_ok [of api scr owner obj] by (simp add: OwnerStrategyNative_def)
next
  case (7 owner obj)
  then show ?case using native_remove_ok by (simp add: OwnerStrategyNative_def)
next
  case (8 owner obj obj')
  then show ?case by (auto simp: native_owner_ok_def intro: same_but_owners_trans)
qed (auto simp: Native_IsController_def OwnerStrategyNative_def Native_GetController_def Native_CopyOwnerReferences_def
      native_obj_ok_def same_but_owners_refs)

lemma native_frames:
  assumes "\<And>owner obj obj'. scr owner obj = Val obj' \<Longrightarrow> same_but_owners {} obj obj'"
  shows "strategy_frames (OwnerStrategyNative api scr) {}"
  unfolding strategy_frames_def
  using assms
  by (auto simp: OwnerStrategyNative_def Native_CopyOwnerReferences_def Native_ReleaseController_def
      Native_RemoveOwner_def obind_eq_Val same_but_owners_refs same_but_owners_refl split: option.splits)

text \<open>The documented behaviour of \<open>controllerutil.SetOwnerReference\<close>: a reference for the owner that
  is no controller takes the place of an old one with its UID or is appended. Then the owner is an
  owner, and no other reference is lost.\<close>

definition sor_contract ::
  "apimachinery \<Rightarrow> (Object \<Rightarrow> Object \<Rightarrow> Object go) \<Rightarrow> Object \<Rightarrow> Object \<Rightarrow> bool" where
  "sor_contract api sor owner obj \<longleftrightarrow>
    (\<exists>n refs gvk. sor owner obj = Val (obj\<lparr>GetOwnerReferences := refs\<rparr>) \<and> n \<in> set refs \<and>
       set refs \<subseteq> insert n (set (GetOwnerReferences obj)) \<and>
       (\<forall>r\<in>set (GetOwnerReferences obj). or_UID r \<noteq> GetUID owner \<longrightarrow> r \<in> set refs) \<and>
       GVKForObject api owner = Inr gvk \<and> or_APIVersion n = GroupVersionString api gvk \<and>
       or_Kind n = Kind gvk \<and> or_Name n = GetName owner \<and> or_UID n = GetUID owner \<and> \<not> is_ctrl n)"

lemma Native_SetOwnerReference_owner:
  assumes "sor_contract api sor owner obj" "native_obj_ok api obj"
    and "GVKForObject api owner = Inr gvk" "parses api (GroupVersionString api gvk)"
  shows "\<exists>obj'. Native_SetOwnerReference sor owner obj = Val obj' \<and> Native_IsOwner api owner obj' = Val True \<and>
    (\<forall>r\<in>set (GetOwnerReferences obj). or_UID r \<noteq> GetUID owner \<longrightarrow> r \<in> set (GetOwnerReferences obj'))"
proof -
  from assms(1,3) obtain n refs where sor: "sor owner obj = Val (obj\<lparr>GetOwnerReferences := refs\<rparr>)" and
    n: "n \<in> set refs" "or_APIVersion n = GroupVersionString api gvk" "or_Kind n = Kind gvk"
      "or_Name n = GetName owner" "or_UID n = GetUID owner" and
    sub: "set refs \<subseteq> insert n (set (GetOwnerReferences obj))" and
    keep: "\<forall>r\<in>set (GetOwnerReferences obj). or_UID r \<noteq> GetUID owner \<longrightarrow> r \<in> set refs"
    unfolding sor_contract_def by auto
  have "\<forall>r\<in>set refs. parses api (or_APIVersion r)"
    using sub assms(2,4) n(2) by (auto simp: native_obj_ok_def)
  moreover obtain c where c: "Native_ownerRefForCompare api owner = Val c" "parses api (or_APIVersion c)" "refers api c n"
    using assms(3,4) n
    by (auto simp: Native_ownerRefForCompare_def refers_def Native_referSameObject_def parses_def split: prod.splits)
  ultimately obtain res where "Native_search api (\<lambda>_. True) c 0 refs = Val res" "res \<noteq> None"
    using Native_search_total [of api c refs "\<lambda>_. True" 0] n(1) by blast
  with c(1) sor keep show ?thesis
    by (auto simp: Native_SetOwnerReference_def Native_IsOwner_def)
qed

text \<open>After an adoption the new owner is the only controller among the references.\<close>

lemma native_adopt_controllers:
  assumes owner: "native_owner_ok api scr owner desired" and actual: "native_obj_ok api actual"
    and adopt: "adopt (OwnerStrategyNative api scr) owner actual desired = Val d"
  shows "native_obj_ok api d \<and> (\<exists>r\<in>set (GetOwnerReferences d). is_ctrl r) \<and>
    (\<forall>r\<in>set (GetOwnerReferences d). is_ctrl r \<longrightarrow> or_UID r = GetUID owner) \<and>
    GetAnnotations d = GetAnnotations desired"
proof -
  let ?refs = "map (\<lambda>r. r\<lparr>or_Controller := Some False\<rparr>) (GetOwnerReferences actual)"
  let ?d = "desired\<lparr>GetOwnerReferences := ?refs\<rparr>"
  have "scr_contract api scr owner ?d"
    using owner by (simp add: native_owner_ok_def same_but_owners_refs)
  then obtain n refs where scr: "scr owner ?d = Val (?d\<lparr>GetOwnerReferences := refs\<rparr>)"
    and n: "n \<in> set refs" "set refs \<subseteq> insert n (set ?refs)" "is_ctrl n" "or_UID n = GetUID owner"
      "\<exists>gvk. GVKForObject api owner = Inr gvk \<and> or_APIVersion n = GroupVersionString api gvk"
    by (auto simp: scr_contract_def Native_release_no_ctrl)
  have "d = desired\<lparr>GetOwnerReferences := refs\<rparr>"
    using adopt scr
    by (simp add: adopt_def OwnerStrategyNative_def Native_CopyOwnerReferences_def
        Native_ReleaseController_def)
  moreover have "\<forall>r\<in>set refs. is_ctrl r \<longrightarrow> or_UID r = GetUID owner"
    using n(2,4) by (auto simp: is_ctrl_def)
  moreover have "native_obj_ok api (desired\<lparr>GetOwnerReferences := refs\<rparr>)"
    using n(2,5) owner actual by (auto simp: native_obj_ok_def native_owner_ok_def)
  ultimately show ?thesis using n(1,3) by auto
qed

text \<open>An owner whose UID no controller reference carries is not the controller.\<close>

lemma Native_IsController_other:
  assumes "GVKForObject api owner = Inr gvk" "parses api (GroupVersionString api gvk)"
    and "native_obj_ok api obj"
    and "\<forall>r\<in>set (GetOwnerReferences obj). is_ctrl r \<longrightarrow> or_UID r \<noteq> GetUID owner"
  shows "Native_IsController api owner obj = Val False"
proof -
  have "\<not> refers api c r" if "Native_ownerRefForCompare api owner = Val c" "or_UID r \<noteq> GetUID owner" for c r
    using that assms(1)
    by (auto simp: refers_def Native_referSameObject_def Native_ownerRefForCompare_def split: sum.splits)
  moreover obtain c where "Native_ownerRefForCompare api owner = Val c"
    "Native_IsController api owner obj = Val (\<exists>r\<in>set (GetOwnerReferences obj). refers api c r \<and> is_ctrl r)"
    using Native_IsController_eq [OF assms(1-3)] by blast
  ultimately show ?thesis using assms(4) by auto
qed

end
