(* ===== verification/OwnerAnnotation.thy ===== *)
theory OwnerAnnotation
  imports OwnerNative Json
begin

text \<open>
  ownerhandling/annotation.go: the strategy that records owners as JSON in one annotation, so that
  owners may live in other namespaces, and the event handler that maps an event on an object to
  reconcile requests for the owners in its annotation. A nil slice of references is \<open>None\<close>:
  it marshals to \<open>null\<close>, an empty one to \<open>[]\<close>.
\<close>

section \<open>annotationOwnerRef and its JSON form\<close>

record annotationOwnerRef =
  ar_APIVersion :: string
  ar_Kind :: string
  ar_Name :: string
  ar_Namespace :: string
  ar_UID :: string
  ar_Controller :: "bool option"

definition zero_ref :: annotationOwnerRef where
  "zero_ref = \<lparr>ar_APIVersion = [], ar_Kind = [], ar_Name = [], ar_Namespace = [], ar_UID = [],
     ar_Controller = None\<rparr>"

definition ref_json :: "annotationOwnerRef \<Rightarrow> json" where
  "ref_json r = JMap
    ([(''apiVersion'', JString (ar_APIVersion r)), (''kind'', JString (ar_Kind r)),
      (''name'', JString (ar_Name r)), (''namespace'', JString (ar_Namespace r)),
      (''uid'', JString (ar_UID r))] @
     (case ar_Controller r of None \<Rightarrow> [] | Some b \<Rightarrow> [(''controller'', JBool b)]))"

definition marshal_refs :: "annotationOwnerRef list option \<Rightarrow> string" where
  "marshal_refs refs = json_print (case refs of None \<Rightarrow> JNull | Some rs \<Rightarrow> JList (map ref_json rs))"

definition lower_char :: "char \<Rightarrow> char" where
  "lower_char c = (let n = of_char c :: nat in if 65 \<le> n \<and> n \<le> 90 then char_of (n + 32) else c)"

fun decode_string :: "json \<Rightarrow> string \<Rightarrow> string option" where
  "decode_string (JString s) old = Some s"
| "decode_string JNull old = Some old"
| "decode_string _ old = None"

fun decode_bool :: "json \<Rightarrow> bool option option" where
  "decode_bool (JBool b) = Some (Some b)"
| "decode_bool JNull = Some None"
| "decode_bool _ = None"

text \<open>Object keys match field names up to case; unknown keys are ignored; a value of the wrong
  type is an error.\<close>

definition decode_field :: "annotationOwnerRef \<Rightarrow> string \<times> json \<Rightarrow> annotationOwnerRef option" where
  "decode_field r m =
    (let k = map lower_char (fst m); v = snd m in
     if k = ''apiversion'' then map_option (\<lambda>s. r\<lparr>ar_APIVersion := s\<rparr>) (decode_string v (ar_APIVersion r))
     else if k = ''kind'' then map_option (\<lambda>s. r\<lparr>ar_Kind := s\<rparr>) (decode_string v (ar_Kind r))
     else if k = ''name'' then map_option (\<lambda>s. r\<lparr>ar_Name := s\<rparr>) (decode_string v (ar_Name r))
     else if k = ''namespace'' then map_option (\<lambda>s. r\<lparr>ar_Namespace := s\<rparr>) (decode_string v (ar_Namespace r))
     else if k = ''uid'' then map_option (\<lambda>s. r\<lparr>ar_UID := s\<rparr>) (decode_string v (ar_UID r))
     else if k = ''controller'' then map_option (\<lambda>b. r\<lparr>ar_Controller := b\<rparr>) (decode_bool v)
     else Some r)"

fun decode_fields :: "annotationOwnerRef \<Rightarrow> (string \<times> json) list \<Rightarrow> annotationOwnerRef option" where
  "decode_fields r [] = Some r"
| "decode_fields r (m # ms) = Option.bind (decode_field r m) (\<lambda>r'. decode_fields r' ms)"

fun decode_ref :: "json \<Rightarrow> annotationOwnerRef option" where
  "decode_ref (JMap ms) = decode_fields zero_ref ms"
| "decode_ref JNull = Some zero_ref"
| "decode_ref _ = None"

fun decode_refs :: "json \<Rightarrow> annotationOwnerRef list option option" where
  "decode_refs JNull = Some None"
| "decode_refs (JList vs) = map_option Some (those (map decode_ref vs))"
| "decode_refs _ = None"

definition unmarshal_refs :: "string \<Rightarrow> annotationOwnerRef list option option" where
  "unmarshal_refs s = Option.bind (json_parse s) decode_refs"

subsection \<open>Round trip of the annotation value\<close>

definition ascii_ref :: "annotationOwnerRef \<Rightarrow> bool" where
  "ascii_ref r \<longleftrightarrow> ascii (ar_APIVersion r) \<and> ascii (ar_Kind r) \<and> ascii (ar_Name r) \<and>
    ascii (ar_Namespace r) \<and> ascii (ar_UID r)"

definition ascii_refs :: "annotationOwnerRef list option \<Rightarrow> bool" where
  "ascii_refs refs \<longleftrightarrow> (\<forall>rs. refs = Some rs \<longrightarrow> list_all ascii_ref rs)"

lemma lower_field_names:
  "map lower_char ''apiVersion'' = ''apiversion''" "map lower_char ''kind'' = ''kind''"
  "map lower_char ''name'' = ''name''" "map lower_char ''namespace'' = ''namespace''"
  "map lower_char ''uid'' = ''uid''" "map lower_char ''controller'' = ''controller''"
  by code_simp+

lemma decode_field_names:
  "decode_field r (''apiVersion'', JString s) = Some (r\<lparr>ar_APIVersion := s\<rparr>)"
  "decode_field r (''kind'', JString s) = Some (r\<lparr>ar_Kind := s\<rparr>)"
  "decode_field r (''name'', JString s) = Some (r\<lparr>ar_Name := s\<rparr>)"
  "decode_field r (''namespace'', JString s) = Some (r\<lparr>ar_Namespace := s\<rparr>)"
  "decode_field r (''uid'', JString s) = Some (r\<lparr>ar_UID := s\<rparr>)"
  "decode_field r (''controller'', JBool b) = Some (r\<lparr>ar_Controller := Some b\<rparr>)"
  unfolding decode_field_def Let_def fst_conv snd_conv lower_field_names by simp_all

lemma decode_ref_json: "decode_ref (ref_json r) = Some r"
  by (cases r) (auto simp: ref_json_def decode_field_names zero_ref_def split: option.splits)

lemma plain_ref_json: "ascii_ref r \<Longrightarrow> plain (ref_json r)"
  by (auto simp: ref_json_def ascii_ref_def ascii_def split: option.splits)

lemma unmarshal_marshal: "ascii_refs refs \<Longrightarrow> unmarshal_refs (marshal_refs refs) = Some refs"
proof -
  assume ok: "ascii_refs refs"
  let ?v = "case refs of None \<Rightarrow> JNull | Some rs \<Rightarrow> JList (map ref_json rs)"
  have "plain ?v"
    using ok by (auto simp: ascii_refs_def list_all_iff plain_ref_json split: option.splits)
  then have "json_parse (marshal_refs refs) = Some ?v"
    unfolding marshal_refs_def by (rule parse_print)
  moreover have "those (map decode_ref (map ref_json rs)) = Some rs" for rs
    by (induction rs) (simp_all add: decode_ref_json)
  ultimately show ?thesis by (auto simp: unmarshal_refs_def split: option.splits)
qed

lemma marshal_refs_nonempty: "ascii_refs refs \<Longrightarrow> marshal_refs refs \<noteq> []"
  unfolding marshal_refs_def
  by (rule json_print_nonempty)
    (auto simp: ascii_refs_def list_all_iff plain_ref_json split: option.splits)

section \<open>Operations\<close>

definition Annotation_getOwnerReferences :: "string \<Rightarrow> Object \<Rightarrow> annotationOwnerRef list option go" where
  "Annotation_getOwnerReferences annotationKey obj =
    (case GetAnnotations obj of
       None \<Rightarrow> Val None
     | Some annotations \<Rightarrow>
         if map_index (Some annotations) annotationKey = [] then Val None
         else case unmarshal_refs (map_index (Some annotations) annotationKey) of
                None \<Rightarrow> Panics ''getOwnerReferences: json.Unmarshal''
              | Some refs \<Rightarrow> Val refs)"

definition Annotation_setOwnerReferences ::
  "string \<Rightarrow> Object \<Rightarrow> annotationOwnerRef list option \<Rightarrow> Object" where
  "Annotation_setOwnerReferences annotationKey obj owners =
    obj\<lparr>GetAnnotations := map_put (GetAnnotations obj) annotationKey (marshal_refs owners)\<rparr>"

definition slice :: "'a list option \<Rightarrow> 'a list" where
  "slice xs = (case xs of None \<Rightarrow> [] | Some ys \<Rightarrow> ys)"

lemma slice_simps [simp]: "slice None = []" "slice (Some xs) = xs"
  by (simp_all add: slice_def)

definition ar_isController :: "annotationOwnerRef \<Rightarrow> bool" where
  "ar_isController r \<longleftrightarrow> ar_Controller r = Some True"

definition ToMetaV1OwnerRef :: "annotationOwnerRef \<Rightarrow> OwnerReference" where
  "ToMetaV1OwnerRef r =
    \<lparr>or_APIVersion = ar_APIVersion r, or_Kind = ar_Kind r, or_Name = ar_Name r, or_UID = ar_UID r,
     or_Controller = ar_Controller r, or_BlockOwnerDeletion = Some True\<rparr>"

definition Annotation_ownerRefForCompare :: "apimachinery \<Rightarrow> Object \<Rightarrow> annotationOwnerRef go" where
  "Annotation_ownerRefForCompare api owner =
    (case GVKForObject api owner of
       Inl e \<Rightarrow> Panics ''ownerRefForCompare: GVKForObject''
     | Inr gvk \<Rightarrow> Val \<lparr>ar_APIVersion = GroupVersionString api gvk, ar_Kind = Kind gvk,
                      ar_Name = GetName owner, ar_Namespace = [], ar_UID = GetUID owner,
                      ar_Controller = None\<rparr>)"

definition Annotation_referSameObject ::
  "apimachinery \<Rightarrow> annotationOwnerRef \<Rightarrow> annotationOwnerRef \<Rightarrow> bool" where
  "Annotation_referSameObject api a b =
    (case (ParseGroupVersion api (ar_APIVersion a), ParseGroupVersion api (ar_APIVersion b)) of
       (Inr (aGroup, aVersion), Inr (bGroup, bVersion)) \<Rightarrow>
         aGroup = bGroup \<and> ar_Kind a = ar_Kind b \<and> ar_Name a = ar_Name b \<and> ar_UID a = ar_UID b
     | _ \<Rightarrow> False)"

text \<open>The index of the first element satisfying a predicate: \<open>indexOf\<close> and the loop of
  \<open>RemoveOwner\<close>.\<close>

fun index_where :: "('a \<Rightarrow> bool) \<Rightarrow> 'a list \<Rightarrow> nat option" where
  "index_where P [] = None"
| "index_where P (x # xs) = (if P x then Some 0 else map_option Suc (index_where P xs))"

definition Annotation_indexOf ::
  "apimachinery \<Rightarrow> annotationOwnerRef list \<Rightarrow> annotationOwnerRef \<Rightarrow> nat option" where
  "Annotation_indexOf api ownerRefs ownerRef =
    index_where (\<lambda>r. Annotation_referSameObject api ownerRef r) ownerRefs"

definition upsert_ref ::
  "apimachinery \<Rightarrow> annotationOwnerRef list \<Rightarrow> annotationOwnerRef \<Rightarrow> annotationOwnerRef list" where
  "upsert_ref api ownerRefs ownerRef =
    (case Annotation_indexOf api ownerRefs ownerRef of
       Some i \<Rightarrow> ownerRefs[i := ownerRef]
     | None \<Rightarrow> ownerRefs @ [ownerRef])"

definition owner_annotation_ref ::
  "apimachinery \<Rightarrow> Object \<Rightarrow> GroupVersionKind \<Rightarrow> bool option \<Rightarrow> annotationOwnerRef" where
  "owner_annotation_ref api owner gvk ctrl =
    \<lparr>ar_APIVersion = GroupVersionString api gvk, ar_Kind = Kind gvk, ar_Name = GetName owner,
     ar_Namespace = GetNamespace owner, ar_UID = GetUID owner, ar_Controller = ctrl\<rparr>"

definition Annotation_SetOwnerReference :: "apimachinery \<Rightarrow> string \<Rightarrow> Object \<Rightarrow> Object \<Rightarrow> Object go" where
  "Annotation_SetOwnerReference api annotationKey owner obj =
    obind (Annotation_getOwnerReferences annotationKey obj) (\<lambda>ownerRefs.
      case GVKForObject api owner of
        Inl e \<Rightarrow> Fail e
      | Inr gvk \<Rightarrow>
          Val (Annotation_setOwnerReferences annotationKey obj
                 (Some (upsert_ref api (slice ownerRefs) (owner_annotation_ref api owner gvk None)))))"

definition Annotation_SetControllerReference ::
  "apimachinery \<Rightarrow> string \<Rightarrow> Object \<Rightarrow> Object \<Rightarrow> Object go" where
  "Annotation_SetControllerReference api annotationKey owner obj =
    obind (Annotation_ownerRefForCompare api owner) (\<lambda>ownerRefComp.
    obind (Annotation_getOwnerReferences annotationKey obj) (\<lambda>ownerRefs.
      case find (\<lambda>r. \<not> Annotation_referSameObject api ownerRefComp r \<and> ar_isController r) (slice ownerRefs) of
        Some r \<Rightarrow>
          Fail (AlreadyOwnedError
            \<lparr>or_APIVersion = ar_APIVersion r, or_Kind = ar_Kind r, or_Name = ar_Name r,
             or_UID = ar_UID r, or_Controller = ar_Controller r, or_BlockOwnerDeletion = None\<rparr>)
      | None \<Rightarrow>
          (case GVKForObject api owner of
             Inl e \<Rightarrow> Fail e
           | Inr gvk \<Rightarrow>
               Val (Annotation_setOwnerReferences annotationKey obj
                 (Some (upsert_ref api (slice ownerRefs)
                          (owner_annotation_ref api owner gvk (Some True))))))))"

definition Annotation_GetController :: "string \<Rightarrow> Object \<Rightarrow> OwnerReference option go" where
  "Annotation_GetController annotationKey obj =
    obind (Annotation_getOwnerReferences annotationKey obj) (\<lambda>refs.
      Val (map_option ToMetaV1OwnerRef (find ar_isController (slice refs))))"

definition Annotation_CopyOwnerReferences :: "string \<Rightarrow> Object \<Rightarrow> Object \<Rightarrow> Object go" where
  "Annotation_CopyOwnerReferences annotationKey objA objB =
    obind (Annotation_getOwnerReferences annotationKey objA) (\<lambda>refs.
      Val (Annotation_setOwnerReferences annotationKey objB refs))"

definition Annotation_IsOwner :: "apimachinery \<Rightarrow> string \<Rightarrow> Object \<Rightarrow> Object \<Rightarrow> bool go" where
  "Annotation_IsOwner api annotationKey owner obj =
    obind (Annotation_ownerRefForCompare api owner) (\<lambda>ownerRefComp.
    obind (Annotation_getOwnerReferences annotationKey obj) (\<lambda>refs.
      Val (list_ex (\<lambda>r. Annotation_referSameObject api ownerRefComp r) (slice refs))))"

definition Annotation_IsController :: "apimachinery \<Rightarrow> string \<Rightarrow> Object \<Rightarrow> Object \<Rightarrow> bool go" where
  "Annotation_IsController api annotationKey owner obj =
    obind (Annotation_ownerRefForCompare api owner) (\<lambda>ownerRefComp.
    obind (Annotation_getOwnerReferences annotationKey obj) (\<lambda>refs.
      Val (list_ex (\<lambda>r. Annotation_referSameObject api ownerRefComp r \<and> ar_isController r) (slice refs))))"

definition Annotation_RemoveOwner :: "apimachinery \<Rightarrow> string \<Rightarrow> Object \<Rightarrow> Object \<Rightarrow> Object go" where
  "Annotation_RemoveOwner api annotationKey owner obj =
    obind (Annotation_ownerRefForCompare api owner) (\<lambda>ownerRefComp.
    obind (Annotation_getOwnerReferences annotationKey obj) (\<lambda>refs.
      case index_where (\<lambda>r. Annotation_referSameObject api ownerRefComp r) (slice refs) of
        None \<Rightarrow> Val obj
      | Some i \<Rightarrow> Val (Annotation_setOwnerReferences annotationKey obj (Some (remove (slice refs) i)))))"

definition Annotation_ReleaseController :: "string \<Rightarrow> Object \<Rightarrow> Object go" where
  "Annotation_ReleaseController annotationKey obj =
    obind (Annotation_getOwnerReferences annotationKey obj) (\<lambda>refs.
      Val (Annotation_setOwnerReferences annotationKey obj
             (map_option (map (\<lambda>r. r\<lparr>ar_Controller := None\<rparr>)) refs)))"

definition OwnerStrategyAnnotation :: "apimachinery \<Rightarrow> string \<Rightarrow> OwnerStrategy" where
  "OwnerStrategyAnnotation api annotationKey =
    \<lparr>SetControllerReference = Annotation_SetControllerReference api annotationKey,
     GetController = Annotation_GetController annotationKey,
     IsController = Annotation_IsController api annotationKey,
     CopyOwnerReferences = Annotation_CopyOwnerReferences annotationKey,
     ReleaseController = Annotation_ReleaseController annotationKey,
     RemoveOwner = Annotation_RemoveOwner api annotationKey\<rparr>"

section \<open>The event handler\<close>

record AnnotationEnqueueRequestForOwner =
  aeq_IsController :: bool
  aeq_ownerGK :: GroupKind
  aeq_annotationKey :: string

text \<open>\<open>scheme.ObjectKinds(OwnerType)\<close> is the parameter; more or fewer kinds than one is
  \<open>ErrMultipleKinds\<close>.\<close>

definition parseOwnerTypeGroupKind ::
  "go_error + GroupVersionKind list \<Rightarrow> AnnotationEnqueueRequestForOwner \<Rightarrow> AnnotationEnqueueRequestForOwner go"
where
  "parseOwnerTypeGroupKind objectKinds e =
    (case objectKinds of
       Inl err \<Rightarrow> Fail err
     | Inr [k] \<Rightarrow> Val (e\<lparr>aeq_ownerGK := GroupKind_of k\<rparr>)
     | Inr _ \<Rightarrow> Fail (PlainError ''multiple kinds error: expected exactly one kind''))"

definition Annotation_EnqueueRequestForOwner ::
  "string \<Rightarrow> go_error + GroupVersionKind list \<Rightarrow> bool \<Rightarrow> AnnotationEnqueueRequestForOwner go" where
  "Annotation_EnqueueRequestForOwner annotationKey objectKinds isController =
    (case parseOwnerTypeGroupKind objectKinds
            \<lparr>aeq_IsController = isController, aeq_ownerGK = \<lparr>gk_Group = [], gk_Kind = []\<rparr>,
             aeq_annotationKey = annotationKey\<rparr> of
       Fail e \<Rightarrow> Panics ''EnqueueRequestForOwner: parseOwnerTypeGroupKind''
     | r \<Rightarrow> r)"

fun collect_requests ::
  "apimachinery \<Rightarrow> AnnotationEnqueueRequestForOwner \<Rightarrow> ObjectKey list \<Rightarrow> annotationOwnerRef list \<Rightarrow> ObjectKey list"
where
  "collect_requests api e requests [] = requests"
| "collect_requests api e requests (r # rs) =
    (case ParseGroupVersion api (ar_APIVersion r) of
       Inl err \<Rightarrow> []
     | Inr (refGroup, refVersion) \<Rightarrow>
         if refGroup \<noteq> gk_Group (aeq_ownerGK e) \<or> ar_Kind r \<noteq> gk_Kind (aeq_ownerGK e)
         then collect_requests api e requests rs
         else if aeq_IsController e \<and> \<not> ar_isController r
         then collect_requests api e requests rs
         else collect_requests api e
                (requests @ [\<lparr>Namespace = ar_Namespace r, Name = ar_Name r\<rparr>]) rs)"

definition getOwnerReconcileRequest ::
  "apimachinery \<Rightarrow> AnnotationEnqueueRequestForOwner \<Rightarrow> Object \<Rightarrow> ObjectKey list go" where
  "getOwnerReconcileRequest api e obj =
    obind (Annotation_getOwnerReferences (aeq_annotationKey e) obj) (\<lambda>refs.
      Val (collect_requests api e [] (slice refs)))"

datatype event =
    CreateEvent Object
  | UpdateEvent Object Object
  | DeleteEvent Object
  | GenericEvent Object

text \<open>The handler's methods: the queue with the requests added, in order.\<close>

fun Annotation_handle ::
  "apimachinery \<Rightarrow> AnnotationEnqueueRequestForOwner \<Rightarrow> event \<Rightarrow> ObjectKey list \<Rightarrow> ObjectKey list go" where
  "Annotation_handle api e (CreateEvent obj) q =
    obind (getOwnerReconcileRequest api e obj) (\<lambda>reqs. Val (q @ reqs))"
| "Annotation_handle api e (UpdateEvent old new) q =
    obind (getOwnerReconcileRequest api e old) (\<lambda>reqs1.
    obind (getOwnerReconcileRequest api e new) (\<lambda>reqs2. Val (q @ reqs1 @ reqs2)))"
| "Annotation_handle api e (DeleteEvent obj) q =
    obind (getOwnerReconcileRequest api e obj) (\<lambda>reqs. Val (q @ reqs))"
| "Annotation_handle api e (GenericEvent obj) q =
    obind (getOwnerReconcileRequest api e obj) (\<lambda>reqs. Val (q @ reqs))"

section \<open>The laws of the interface\<close>

definition annotation_obj_ok :: "string \<Rightarrow> Object \<Rightarrow> bool" where
  "annotation_obj_ok annotationKey obj \<longleftrightarrow>
    (\<exists>refs. Annotation_getOwnerReferences annotationKey obj = Val refs \<and> ascii_refs refs)"

definition annotation_owner_ok :: "apimachinery \<Rightarrow> Object \<Rightarrow> Object \<Rightarrow> bool" where
  "annotation_owner_ok api owner obj \<longleftrightarrow>
    (\<exists>gvk. GVKForObject api owner = Inr gvk \<and> parses api (GroupVersionString api gvk) \<and>
       (\<forall>ctrl. ascii_ref (owner_annotation_ref api owner gvk ctrl)))"

lemma get_set_refs:
  "ascii_refs refs \<Longrightarrow>
    Annotation_getOwnerReferences k (Annotation_setOwnerReferences k obj refs) = Val refs"
proof -
  assume ok: "ascii_refs refs"
  obtain m where m: "map_put (GetAnnotations obj) k (marshal_refs refs) = Some m"
    by (cases "GetAnnotations obj") auto
  then have "map_index (Some m) k = marshal_refs refs" by (simp flip: m)
  with m marshal_refs_nonempty [OF ok] unmarshal_marshal [OF ok] show ?thesis
    by (simp add: Annotation_getOwnerReferences_def Annotation_setOwnerReferences_def)
qed

lemma same_but_owners_annotation:
  "same_but_owners {k} obj (Annotation_setOwnerReferences k obj refs)"
  unfolding same_but_owners_def Annotation_setOwnerReferences_def
  by (rule exI [of _ "GetOwnerReferences obj"], rule exI) auto

lemma set_refs_ok: "ascii_refs refs \<Longrightarrow> annotation_obj_ok k (Annotation_setOwnerReferences k obj refs)"
  by (auto simp: annotation_obj_ok_def get_set_refs)

lemma index_where_None: "index_where P xs = None \<longleftrightarrow> (\<forall>x\<in>set xs. \<not> P x)"
  by (induction xs) auto

lemma index_where_Some: "index_where P xs = Some i \<Longrightarrow> i < length xs \<and> P (xs ! i)"
  by (induction xs arbitrary: i) (auto split: if_splits)

lemma upsert_ref_mem: "r \<in> set (upsert_ref api rs r)"
  by (auto simp: upsert_ref_def Annotation_indexOf_def dest: index_where_Some
      intro: set_update_memI split: option.splits)

lemma upsert_ref_subset: "set (upsert_ref api rs r) \<subseteq> insert r (set rs)"
  by (auto simp: upsert_ref_def split: option.splits dest!: set_update_subset_insert [THEN subsetD])

lemma ascii_refs_Some: "ascii_refs (Some rs) \<longleftrightarrow> (\<forall>r\<in>set rs. ascii_ref r)"
  by (simp add: ascii_refs_def list_all_iff)

lemma ascii_slice: "ascii_refs refs \<Longrightarrow> r \<in> set (slice refs) \<Longrightarrow> ascii_ref r"
  by (auto simp: slice_def ascii_refs_Some split: option.splits)

lemma annotation_set_ok:
  assumes owner: "annotation_owner_ok api owner obj" and obj: "annotation_obj_ok k obj"
    and none: "Annotation_GetController k obj = Val None"
  shows "\<exists>obj' r. Annotation_SetControllerReference api k owner obj = Val obj' \<and>
    annotation_obj_ok k obj' \<and> same_but_owners {k} obj obj' \<and>
    Annotation_IsController api k owner obj' = Val True \<and>
    Annotation_GetController k obj' = Val (Some r) \<and> or_UID r = GetUID owner"
proof -
  from owner obtain gvk where gvk: "GVKForObject api owner = Inr gvk"
    "parses api (GroupVersionString api gvk)"
    "\<And>ctrl. ascii_ref (owner_annotation_ref api owner gvk ctrl)"
    by (auto simp: annotation_owner_ok_def)
  from obj obtain refs where refs: "Annotation_getOwnerReferences k obj = Val refs" "ascii_refs refs"
    by (auto simp: annotation_obj_ok_def)
  let ?n = "owner_annotation_ref api owner gvk (Some True)"
  let ?rs = "upsert_ref api (slice refs) ?n"
  from none refs(1) have noctrl: "\<forall>r\<in>set (slice refs). \<not> ar_isController r"
    by (simp add: Annotation_GetController_def find_None_all)
  then have "find (\<lambda>r. \<not> Annotation_referSameObject api c r \<and> ar_isController r) (slice refs) = None" for c
    by (simp add: find_None_all)
  with refs(1) gvk(1)
  have set: "Annotation_SetControllerReference api k owner obj =
      Val (Annotation_setOwnerReferences k obj (Some ?rs))"
    by (simp add: Annotation_SetControllerReference_def Annotation_ownerRefForCompare_def)
  have asc: "ascii_refs (Some ?rs)"
    using upsert_ref_subset [of api "slice refs" ?n] gvk(3) refs(2) ascii_slice
    by (fastforce simp: ascii_refs_Some)
  have n: "?n \<in> set ?rs" "ar_isController ?n"
    by (rule upsert_ref_mem) (simp add: ar_isController_def owner_annotation_ref_def)
  obtain f where f: "find ar_isController ?rs = Some f" using n find_isSome_ex by metis
  then have "f \<in> set ?rs" "ar_isController f" by (auto dest: find_Some_mem)
  with noctrl upsert_ref_subset [of api "slice refs" ?n] have "f = ?n" by auto
  moreover obtain c where c: "Annotation_ownerRefForCompare api owner = Val c"
    "Annotation_referSameObject api c ?n"
    using gvk(1,2) by (auto simp: Annotation_ownerRefForCompare_def Annotation_referSameObject_def
        owner_annotation_ref_def parses_def)
  then have "Annotation_IsController api k owner
      (Annotation_setOwnerReferences k obj (Some ?rs)) = Val True"
    using n by (auto simp: Annotation_IsController_def get_set_refs [OF asc] list_ex_iff)
  ultimately show ?thesis using set f asc
    by (auto simp: set_refs_ok same_but_owners_annotation Annotation_GetController_def
        get_set_refs ToMetaV1OwnerRef_def owner_annotation_ref_def)
qed

text \<open>A controller other than the owner makes \<open>SetControllerReference\<close> fail and leaves the object
  alone.\<close>

lemma Annotation_SetControllerReference_refuses:
  assumes "Annotation_ownerRefForCompare api owner = Val c"
    and "Annotation_getOwnerReferences k obj = Val refs"
    and "r \<in> set (slice refs)" "ar_isController r" "\<not> Annotation_referSameObject api c r"
  shows "\<exists>o'. Annotation_SetControllerReference api k owner obj = Fail (AlreadyOwnedError o')"
proof -
  from assms(3-5) have "\<exists>f. find (\<lambda>r. \<not> Annotation_referSameObject api c r \<and> ar_isController r) (slice refs) = Some f"
    by (auto simp: find_isSome_ex)
  with assms(1,2) show ?thesis by (auto simp: Annotation_SetControllerReference_def)
qed

lemma annotation_remove_ok:
  assumes owner: "annotation_owner_ok api owner obj" and obj: "annotation_obj_ok k obj"
  shows "\<exists>obj'. Annotation_RemoveOwner api k owner obj = Val obj' \<and> annotation_obj_ok k obj' \<and>
    same_but_owners {k} obj obj'"
proof -
  from owner obtain c where c: "Annotation_ownerRefForCompare api owner = Val c"
    by (auto simp: annotation_owner_ok_def Annotation_ownerRefForCompare_def)
  from obj obtain refs where refs: "Annotation_getOwnerReferences k obj = Val refs" "ascii_refs refs"
    by (auto simp: annotation_obj_ok_def)
  show ?thesis
  proof (cases "index_where (\<lambda>r. Annotation_referSameObject api c r) (slice refs)")
    case None
    with c refs obj show ?thesis by (simp add: Annotation_RemoveOwner_def same_but_owners_refl)
  next
    case (Some i)
    then have "set (remove (slice refs) i) \<subseteq> set (slice refs)"
      using remove_covers [of i "slice refs"] by (auto dest: index_where_Some)
    with ascii_slice [OF refs(2)] have "ascii_refs (Some (remove (slice refs) i))"
      by (auto simp: ascii_refs_Some)
    with c refs Some show ?thesis
      by (simp add: Annotation_RemoveOwner_def same_but_owners_annotation set_refs_ok)
  qed
qed

lemma annotation_release_ok:
  assumes "annotation_obj_ok k obj"
  shows "\<exists>obj'. Annotation_ReleaseController k obj = Val obj' \<and> annotation_obj_ok k obj' \<and>
    same_but_owners {k} obj obj' \<and> Annotation_GetController k obj' = Val None"
proof -
  from assms obtain refs where refs: "Annotation_getOwnerReferences k obj = Val refs" "ascii_refs refs"
    by (auto simp: annotation_obj_ok_def)
  let ?refs' = "map_option (map (\<lambda>r. r\<lparr>ar_Controller := None\<rparr>)) refs"
  have asc: "ascii_refs ?refs'"
    using refs(2) by (auto simp: ascii_refs_def list_all_iff ascii_ref_def)
  have "find ar_isController (slice ?refs') = None"
    by (auto simp: find_None_all slice_def ar_isController_def split: option.splits)
  with refs(1) asc show ?thesis
    by (auto simp: Annotation_ReleaseController_def Annotation_GetController_def get_set_refs
        set_refs_ok same_but_owners_annotation)
qed

interpretation annotation: owner_strategy
  "OwnerStrategyAnnotation api k" "{k}" "annotation_owner_ok api" "annotation_obj_ok k" for api k
proof (unfold_locales, goal_cases)
  case (3 owner obj)
  then show ?case
    by (auto simp: OwnerStrategyAnnotation_def Annotation_IsController_def Annotation_GetController_def
        obind_eq_Val list_ex_iff find_isSome_ex [unfolded Bex_def])
next
  case (4 a b)
  then obtain refs where "Annotation_getOwnerReferences k a = Val refs" "ascii_refs refs"
    by (auto simp: annotation_obj_ok_def)
  then show ?case
    by (auto simp: OwnerStrategyAnnotation_def Annotation_CopyOwnerReferences_def set_refs_ok
        Annotation_GetController_def get_set_refs same_but_owners_annotation)
next
  case (5 obj)
  then show ?case using annotation_release_ok by (simp add: OwnerStrategyAnnotation_def)
next
  case (6 owner obj)
  then show ?case using annotation_set_ok [of api owner obj k] by (simp add: OwnerStrategyAnnotation_def)
next
  case (7 owner obj)
  then show ?case using annotation_remove_ok by (simp add: OwnerStrategyAnnotation_def)
next
  case (8 owner obj obj')
  then show ?case by (simp add: annotation_owner_ok_def)
qed (auto simp: Annotation_IsController_def Annotation_getOwnerReferences_def OwnerStrategyAnnotation_def Annotation_GetController_def Annotation_IsController_def
      annotation_obj_ok_def annotation_owner_ok_def Annotation_ownerRefForCompare_def)

lemma annotation_set_frames:
  "Annotation_SetControllerReference api k owner obj = Val obj' \<Longrightarrow> same_but_owners {k} obj obj'"
  by (cases "GVKForObject api owner")
    (auto simp: Annotation_SetControllerReference_def obind_eq_Val same_but_owners_annotation
      split: option.splits)

lemma annotation_frames: "strategy_frames (OwnerStrategyAnnotation api k) {k}"
  unfolding strategy_frames_def
  by (auto simp: OwnerStrategyAnnotation_def annotation_set_frames
      Annotation_CopyOwnerReferences_def Annotation_ReleaseController_def Annotation_RemoveOwner_def
      obind_eq_Val same_but_owners_annotation same_but_owners_refl split: option.splits)

end
