(* ===== verification/Samples.thy ===== *)
theory Samples
  imports Results OwnerNative OwnerAnnotation
begin

text \<open>
  Concrete instances of the parameters of the model, on which the properties are evaluated: an API
  server that keeps a list of objects, the functions of apimachinery for it, an owner and two
  objects.
\<close>

section \<open>apimachinery\<close>

fun sample_status :: "go_error \<Rightarrow> string" where
  "sample_status (StatusError reason msg) = reason"
| "sample_status (Wrap msg err) = sample_status err"
| "sample_status (WrapRef msg ref err) = sample_status err"
| "sample_status _ = []"

definition sample_api :: apimachinery where
  "sample_api =
    \<lparr>GVKForObject = (\<lambda>obj. Inr (GVK obj)),
     ParseGroupVersion = (\<lambda>s. Inr (takeWhile (\<lambda>c. c \<noteq> CHR ''/'') s, drop 1 (dropWhile (\<lambda>c. c \<noteq> CHR ''/'') s))),
     GroupVersionString = (\<lambda>g. Group g @ ''/'' @ Version g),
     IsNotFound = (\<lambda>err. sample_status err = ''NotFound''),
     IsAlreadyExists = (\<lambda>err. sample_status err = ''AlreadyExists''),
     IsTooManyRequests = (\<lambda>err. sample_status err = ''TooManyRequests''),
     IsNoMatchError = (\<lambda>err. err = NoMatchError),
     ContainsFinalizer = (\<lambda>obj f. f \<in> set (GetFinalizers obj)),
     UpgradeManagedFieldsPatch = (\<lambda>obj owner. Inr [])\<rparr>"

lemma sample_api_simps [simp]:
  "GVKForObject sample_api obj = Inr (GVK obj)"
  "GroupVersionString sample_api g = Group g @ ''/'' @ Version g"
  "IsNotFound sample_api err \<longleftrightarrow> sample_status err = ''NotFound''"
  "IsAlreadyExists sample_api err \<longleftrightarrow> sample_status err = ''AlreadyExists''"
  "IsTooManyRequests sample_api err \<longleftrightarrow> sample_status err = ''TooManyRequests''"
  "IsNoMatchError sample_api err \<longleftrightarrow> err = NoMatchError"
  "ContainsFinalizer sample_api obj f \<longleftrightarrow> f \<in> set (GetFinalizers obj)"
  "UpgradeManagedFieldsPatch sample_api obj owner = Inr []"
  "ParseGroupVersion sample_api s =
     Inr (takeWhile (\<lambda>c. c \<noteq> CHR ''/'') s, drop 1 (dropWhile (\<lambda>c. c \<noteq> CHR ''/'') s))"
  by (simp_all add: sample_api_def)

section \<open>An API server\<close>

definition stored :: "Object \<Rightarrow> Object list \<Rightarrow> Object option" where
  "stored obj w = find (\<lambda>x. ToObjectRef x = ToObjectRef obj) w"

definition store :: "Object \<Rightarrow> Object list \<Rightarrow> Object list" where
  "store obj w = obj # filter (\<lambda>x. ToObjectRef x \<noteq> ToObjectRef obj) w"

fun sample_serve :: "Writer \<Rightarrow> request \<Rightarrow> Object list \<Rightarrow> (go_error option \<times> Object) \<times> Object list" where
  "sample_serve wr (Create obj opts) w =
    (if stored obj w \<noteq> None then ((Some (StatusError ''AlreadyExists'' []), obj), w)
     else ((None, obj), if DryRunAll opts then w else store obj w))"
| "sample_serve wr (Patch obj p opts) w = ((None, obj), if DryRunAll opts then w else store obj w)"
| "sample_serve wr (Apply obj opts) w =
    (case stored obj w of
       Some x \<Rightarrow>
         if GetResourceVersion obj \<noteq> [] \<and> GetResourceVersion obj \<noteq> GetResourceVersion x
         then ((Some (StatusError ''Conflict'' []), obj), w)
         else ((None, obj), if DryRunAll opts then w else store obj w)
     | None \<Rightarrow> ((None, obj), if DryRunAll opts then w else store obj w))"
| "sample_serve wr (Delete obj pre) w =
    (case stored obj w of
       None \<Rightarrow> ((Some (StatusError ''NotFound'' []), obj), w)
     | Some x \<Rightarrow>
         if pre_UID pre = GetUID x \<and> pre_ResourceVersion pre = GetResourceVersion x
         then ((None, obj), filter (\<lambda>x. ToObjectRef x \<noteq> ToObjectRef obj) w)
         else ((Some (StatusError ''Conflict'' []), obj), w))"

definition sample_cluster :: "Object list cluster" where
  "sample_cluster =
    \<lparr>fetch = (\<lambda>r into w. case stored into w of
        None \<Rightarrow> (Inl (StatusError ''NotFound'' []), w)
      | Some obj \<Rightarrow> (Inr obj, w)),
     serve = sample_serve\<rparr>"

lemma sample_cluster_simps [simp]:
  "fetch sample_cluster r into w = (case stored into w of
     None \<Rightarrow> (Inl (StatusError ''NotFound'' []), w) | Some obj \<Rightarrow> (Inr obj, w))"
  "serve sample_cluster = sample_serve"
  by (simp_all add: sample_cluster_def)

lemma sample_cluster_well_behaved: "well_behaved sample_cluster"
proof -
  have "ToObjectRef obj = ToObjectRef into" if "fetch sample_cluster r into x = (Inr obj, x')"
    for r into x obj x'
    using that by (auto simp: stored_def dest: find_Some_mem split: option.splits)
  moreover have "ToObjectRef obj = ToObjectRef (request_object req)"
    if "serve sample_cluster w req x = ((err, obj), x')" for w req x err obj x'
    using that by (cases req) (auto split: option.splits if_splits)
  moreover have "d' = d" if "serve sample_cluster w (Create d opts) x = ((Some err, d'), x')"
    for w d opts x err d' x'
    using that by (auto split: if_splits)
  ultimately show ?thesis unfolding well_behaved_def by blast
qed

definition sample_st :: "Object list \<Rightarrow> Object list st" where
  "sample_st w = \<lparr>world = w, sent = []\<rparr>"

lemma sample_st_simps [simp]: "world (sample_st w) = w" "sent (sample_st w) = []"
  by (simp_all add: sample_st_def)

section \<open>Objects\<close>

definition sample_object :: Object where
  "sample_object =
    \<lparr>repr = Unstructured, GVK = \<lparr>Group = ''apps'', Version = ''v1'', Kind = ''Deployment''\<rparr>,
     GetName = ''web'', GetNamespace = ''default'', GetGenerateName = [], GetUID = [],
     GetGeneration = 0, GetResourceVersion = [], GetLabels = None, GetAnnotations = None,
     GetFinalizers = [], GetOwnerReferences = [], GetManagedFields = [], content = JMap []\<rparr>"

text \<open>The object as somebody else created it.\<close>

definition sample_actual :: Object where
  "sample_actual = sample_object\<lparr>GetUID := ''u1'', GetResourceVersion := ''7''\<rparr>"

definition sample_owner :: Object where
  "sample_owner =
    \<lparr>repr = Unstructured, GVK = \<lparr>Group = ''pko'', Version = ''v1'', Kind = ''Revision''\<rparr>,
     GetName = ''rev'', GetNamespace = ''default'', GetGenerateName = [], GetUID = ''owner'',
     GetGeneration = 0, GetResourceVersion = ''1'', GetLabels = None, GetAnnotations = None,
     GetFinalizers = [], GetOwnerReferences = [], GetManagedFields = [], content = JMap []\<rparr>"

text \<open>\<open>controllerutil.SetControllerReference\<close> on an object that names no other controller.\<close>

definition sample_ref :: "Object \<Rightarrow> OwnerReference" where
  "sample_ref owner =
    \<lparr>or_APIVersion = Group (GVK owner) @ ''/'' @ Version (GVK owner), or_Kind = Kind (GVK owner),
     or_Name = GetName owner, or_UID = GetUID owner, or_Controller = Some True,
     or_BlockOwnerDeletion = Some True\<rparr>"

definition sample_scr :: "Object \<Rightarrow> Object \<Rightarrow> Object go" where
  "sample_scr owner obj =
    (case find is_ctrl (GetOwnerReferences obj) of
       Some r \<Rightarrow> if or_UID r = GetUID owner then Val obj else Fail (AlreadyOwnedError r)
     | None \<Rightarrow> Val (obj\<lparr>GetOwnerReferences :=
         filter (\<lambda>r. or_UID r \<noteq> GetUID owner) (GetOwnerReferences obj) @ [sample_ref owner]\<rparr>))"

lemma sample_object_simps [simp]:
  "GetNamespace sample_owner = ''default''" "GetNamespace sample_object = ''default''"
  "GetUID sample_owner = ''owner''" "repr sample_object = Unstructured"
  "GetAnnotations sample_actual = None" "GetResourceVersion sample_actual = ''7''"
  by (simp_all add: sample_owner_def sample_object_def sample_actual_def)

lemma sample_finalizers [simp]: "GetFinalizers sample_owner = []"
  by (simp add: sample_owner_def)

definition no_diff :: CompareResult where
  "no_diff = \<lparr>ConflictingMangers = [], OtherManagers = [], DesiredFieldSet = None, Comparison = None\<rparr>"

definition contested :: CompareResult where
  "contested = no_diff\<lparr>ConflictingMangers := [\<lparr>Manager = ''kubectl'', Fields = [''.spec'']\<rparr>]\<rparr>"

lemma sample_scr_contract: "scr_contract sample_api sample_scr owner obj"
  unfolding scr_contract_def
proof (intro impI exI conjI)
  assume none: "find is_ctrl (GetOwnerReferences obj) = None"
  show "sample_scr owner obj = Val (obj\<lparr>GetOwnerReferences :=
      filter (\<lambda>r. or_UID r \<noteq> GetUID owner) (GetOwnerReferences obj) @ [sample_ref owner]\<rparr>)"
    by (simp add: sample_scr_def none)
  show "sample_ref owner \<in> set (filter (\<lambda>r. or_UID r \<noteq> GetUID owner) (GetOwnerReferences obj) @
      [sample_ref owner])" by simp
qed (auto simp: sample_ref_def is_ctrl_def)

lemma sample_owner_ok: "native_owner_ok sample_api sample_scr owner obj"
  by (simp add: native_owner_ok_def sample_scr_contract parses_def)

lemma sample_scr_frames: "sample_scr owner obj = Val obj' \<Longrightarrow> same_but_owners {} obj obj'"
  by (auto simp: sample_scr_def same_but_owners_refs same_but_owners_refl split: option.splits if_splits)

lemma sample_native_frames: "strategy_frames (OwnerStrategyNative sample_api sample_scr) {}"
  by (rule native_frames) (rule sample_scr_frames)

section \<open>Options on the samples\<close>

theorem object_options_override_defaults_witness:
  "CollisionProtection (object_reconcile_options (PhaseReconcileOptions_ForObject
     (phase_reconcile_options [PRObject (WithCollisionProtection CollisionProtectionNone),
        WithObjectReconcileOptions (ToObjectRef sample_object)
          [WithCollisionProtection CollisionProtectionIfNoController, WithPaused]]) sample_object)) =
   CollisionProtectionIfNoController"
  by (rule object_options_override_defaults [where after = "[WithPaused]" and before = "[]"
      and earlier = "[PRObject (WithCollisionProtection CollisionProtectionNone)]" and later = "[]"]) simp_all

theorem WithReconcileOptions_phase_appends_revision_replaces_witness:
  "\<exists>r. NewRevisionWithOwner ''rev'' 3 [] sample_owner None = Val r \<and>
    RevisionReconcileOptions_GetOwner (revision_reconcile_options (rev_ReconcileOptions
      (revision_WithReconcileOptions r [RRPhase (PRObject WithPaused)]))) = None"
  using WithReconcileOptions_phase_appends_revision_replaces [of sample_owner "''rev''" "[]" None 3 "[]"]
  by auto

end
