(* ===== verification/ObjectEngine.thy ===== *)
theory ObjectEngine
  imports Samples
begin

text \<open>
  machinery/objects.go: the object engine. Every method of \<open>ObjectEngine\<close> is a definition here, in
  the order reads and writes happen. An object passed by pointer is passed by value and returned
  when the method changes it; only the change an orphaning teardown makes to the caller's object, the
  loss of the revision annotation, is not returned, since nothing reads it afterwards. \<open>Teardown\<close> returns its two results as a pair, because one path
  returns \<open>true\<close> together with an error. The cluster, the reader and writer handles and the
  functions of apimachinery are parameters.
\<close>

section \<open>The engine\<close>

record ObjectEngine =
  cache :: Reader
  writer :: Writer
  comparator :: comparator
  fieldOwner :: string
  systemPrefix :: string
  managedBy :: string
  unfilteredReader :: "Reader option"

definition managedByLabel :: string where
  "managedByLabel = ''app.kubernetes.io/managed-by''"
definition managedByLabelDefaultValue :: string where
  "managedByLabelDefaultValue = ''boxcutter''"
definition boxcutterManagedLabel :: string where
  "boxcutterManagedLabel = ''boxcutter-managed''"

definition NewObjectEngine ::
  "Reader \<Rightarrow> Writer \<Rightarrow> comparator \<Rightarrow> string \<Rightarrow> string \<Rightarrow> string \<Rightarrow> Reader option \<Rightarrow> ObjectEngine" where
  "NewObjectEngine cache' writer' comparator' fieldOwner' systemPrefix' managedBy' unfilteredReader' =
    \<lparr>cache = cache', writer = writer', comparator = comparator', fieldOwner = fieldOwner',
     systemPrefix = systemPrefix',
     managedBy = (if managedBy' = [] then managedByLabelDefaultValue else managedBy'),
     unfilteredReader = unfilteredReader'\<rparr>"

section \<open>The revision annotation\<close>

definition revisionAnnotation :: "ObjectEngine \<Rightarrow> string" where
  "revisionAnnotation e = systemPrefix e @ ''/revision''"

definition setObjectRevision :: "ObjectEngine \<Rightarrow> Object \<Rightarrow> int \<Rightarrow> Object" where
  "setObjectRevision e obj revision =
    obj\<lparr>GetAnnotations := map_put (GetAnnotations obj) (revisionAnnotation e) (FormatInt revision)\<rparr>"

definition getObjectRevision :: "ObjectEngine \<Rightarrow> Object \<Rightarrow> int go" where
  "getObjectRevision e obj =
    (let a = GetAnnotations obj
     in if a = None then Val 0
        else if map_index a (revisionAnnotation e) = [] then Val 0
        else case ParseInt (map_index a (revisionAnnotation e)) of
               Inl err \<Rightarrow> Fail (NumError err)
             | Inr n \<Rightarrow> Val n)"

definition isBoxcutterManaged :: "ObjectEngine \<Rightarrow> Object \<Rightarrow> bool" where
  "isBoxcutterManaged e obj \<longleftrightarrow> map_get (GetAnnotations obj) (revisionAnnotation e) \<noteq> None"

section \<open>Writes\<close>

definition create_object ::
  "'w cluster \<Rightarrow> ObjectEngine \<Rightarrow> Object \<Rightarrow> ObjectReconcileOptions \<Rightarrow> WriteOptions \<Rightarrow>
    ('w, go_error option \<times> Object) run" where
  "create_object cl e obj options opts =
    (let opts' = (if Paused options then opts\<lparr>DryRunAll := True\<rparr> else opts)
     in send_raw cl (writer e) (Create obj opts'))"

definition JSONPatchType :: string where
  "JSONPatchType = ''application/json-patch+json''"

definition migrateFieldManagersToSSA ::
  "'w cluster \<Rightarrow> apimachinery \<Rightarrow> ObjectEngine \<Rightarrow> Object \<Rightarrow> ObjectReconcileOptions \<Rightarrow> ('w, Object) run"
where
  "migrateFieldManagersToSSA cl api e object options =
    (if Paused options then ret object
     else case UpgradeManagedFieldsPatch api object (fieldOwner e) of
            Inl err \<Rightarrow> fail err
          | Inr patch \<Rightarrow>
              if patch = [] then ret object
              else wrap_err (Wrap ''update field managers'')
                     (send cl (writer e) (Patch object (RawPatch JSONPatchType patch) no_opts)))"

text \<open>\<open>force\<close> says whether the caller passes \<open>client.ForceOwnership\<close>.\<close>

definition apply_object ::
  "'w cluster \<Rightarrow> apimachinery \<Rightarrow> ObjectEngine \<Rightarrow> Object \<Rightarrow> Object \<Rightarrow> ObjectReconcileOptions \<Rightarrow> bool \<Rightarrow>
    ('w, Object) run" where
  "apply_object cl api e desiredObject actualObject options force =
    (if Paused options then ret desiredObject
     else bind (migrateFieldManagersToSSA cl api e actualObject options) (\<lambda>actual.
       let desired = desiredObject\<lparr>GetResourceVersion := GetResourceVersion actual\<rparr>;
           o' = \<lparr>FieldOwner = Some (fieldOwner e), ForceOwnership = force, DryRunAll = False\<rparr>
       in case repr desired of
            ApplyConfiguration \<Rightarrow> send cl (writer e) (Apply desired o')
          | Unstructured \<Rightarrow> send cl (writer e) (Apply desired o')
          | Structured \<Rightarrow> fail (UnsupportedApplyConfigurationError (repr desired))))"

text \<open>The base of the merge patch is the passed object, after its revision annotation was deleted;
  the patched object is a copy made before, less the labels.\<close>

definition removeBoxcutterManagedLabelsAndAnnotations ::
  "'w cluster \<Rightarrow> ObjectEngine \<Rightarrow> Writer \<Rightarrow> Object \<Rightarrow> ('w, unit) run" where
  "removeBoxcutterManagedLabelsAndAnnotations cl e w obj =
    (let updated = obj;
         obj' = obj\<lparr>GetAnnotations := map_delete (GetAnnotations obj) (revisionAnnotation e)\<rparr>;
         labels = map_delete (map_delete (GetLabels updated) managedByLabel) boxcutterManagedLabel;
         updated' = updated\<lparr>GetLabels := labels\<rparr>
     in bind (wrap_err (Wrap ''patching object labels'')
                (send cl w (Patch updated' (MergeFrom obj') no_opts)))
          (\<lambda>_. ret ()))"

section \<open>Who controls the object\<close>

datatype ctrlSituation =
    ctrlSituationIsController
  | ctrlSituationSiblingIsController
  | ctrlSituationUnknownController
  | ctrlSituationNoController

definition detectOwner ::
  "Object \<Rightarrow> OwnerStrategy \<Rightarrow> Object \<Rightarrow> SiblingOwnerClassifierFunc option \<Rightarrow>
    (ctrlSituation \<times> OwnerReference option) go" where
  "detectOwner owner ownerStrategy actualObject siblingOwnerClassifier =
    obind (GetController ownerStrategy actualObject) (\<lambda>c.
      case c of
        None \<Rightarrow> Val (ctrlSituationNoController, None)
      | Some ownerRef \<Rightarrow>
          obind (IsController ownerStrategy owner actualObject) (\<lambda>isController.
            if isController then Val (ctrlSituationIsController, Some ownerRef)
            else case siblingOwnerClassifier of
                   None \<Rightarrow> Val (ctrlSituationUnknownController, Some ownerRef)
                 | Some classify \<Rightarrow>
                     if classify ownerRef
                     then Val (ctrlSituationSiblingIsController, Some ownerRef)
                     else Val (ctrlSituationUnknownController, Some ownerRef)))"

text \<open>Calling a method of a nil owner strategy panics.\<close>

definition deref :: "'a option \<Rightarrow> 'a go" where
  "deref x = (case x of None \<Rightarrow> Panics ''nil pointer dereference'' | Some v \<Rightarrow> Val v)"

definition zero_ComparatorOptions :: ComparatorOptions where
  "zero_ComparatorOptions = \<lparr>co_Owner = None, co_OwnerStrategy = None\<rparr>"

definition checkSituation ::
  "ObjectEngine \<Rightarrow> Object \<Rightarrow> Object \<Rightarrow> ObjectReconcileOptions \<Rightarrow>
    (ctrlSituation \<times> CompareResult \<times> OwnerReference option) go" where
  "checkSituation e desiredObject actualObject options =
    obind (case Owner options of
        Some owner \<Rightarrow>
          obind (deref (OwnerStrategyOpt options)) (\<lambda>S.
          obind (detectOwner owner S actualObject (SiblingOwnerClassifier options)) (\<lambda>(ctrlSit, actualOwner).
          obind (WithOwner owner (OwnerStrategyOpt options)) (\<lambda>oo.
            Val (ctrlSit, actualOwner, comparatorFn oo zero_ComparatorOptions))))
      | None \<Rightarrow>
          Val (if isBoxcutterManaged e actualObject then ctrlSituationIsController
               else ctrlSituationNoController, None, zero_ComparatorOptions))
     (\<lambda>(ctrlSit, actualOwner, compareOpts).
       obind (owrap (Wrap ''diverge check'')
                (comparator e desiredObject actualObject compareOpts)) (\<lambda>compareRes.
         Val (ctrlSit, compareRes, actualOwner)))"

section \<open>Updating an object that exists\<close>

text \<open>Lines 504 to 515: the object that claims the controller role.\<close>

definition adopted_object ::
  "ObjectEngine \<Rightarrow> int \<Rightarrow> Object \<Rightarrow> Object \<Rightarrow> ObjectReconcileOptions \<Rightarrow> Object go" where
  "adopted_object e revision desiredObject actualObject options =
    (let desired = setObjectRevision e desiredObject revision
     in case Owner options of
          None \<Rightarrow> Val desired
        | Some owner \<Rightarrow>
            obind (deref (OwnerStrategyOpt options)) (\<lambda>S. adopt S owner actualObject desired))"

definition objectAdoptionHandling ::
  "'w cluster \<Rightarrow> apimachinery \<Rightarrow> ObjectEngine \<Rightarrow> CompareResult \<Rightarrow> int \<Rightarrow> Object \<Rightarrow> Object \<Rightarrow>
    ObjectReconcileOptions \<Rightarrow> ('w, ObjectResult) run" where
  "objectAdoptionHandling cl api e compareRes revision desiredObject actualObject options =
    bind (lift (adopted_object e revision desiredObject actualObject options)) (\<lambda>desired.
    bind (wrap_err (Wrap ''patching (owner change)'')
            (apply_object cl api e desired actualObject options True)) (\<lambda>desired.
    if Paused options then lift (newObjectResultUpdated actualObject compareRes options)
    else lift (newObjectResultUpdated desired compareRes options)))"

definition objectUpdateHandling ::
  "'w cluster \<Rightarrow> apimachinery \<Rightarrow> ObjectEngine \<Rightarrow> int \<Rightarrow> Object \<Rightarrow> Object \<Rightarrow>
    ObjectReconcileOptions \<Rightarrow> ('w, ObjectResult) run" where
  "objectUpdateHandling cl api e revision desiredObject actualObject options =
    bind (lift (checkSituation e desiredObject actualObject options))
      (\<lambda>(ctrlSit, compareRes, actualOwner).
    bind (lift (owrap (Wrap ''getting revision of object'') (getObjectRevision e actualObject)))
      (\<lambda>actualObjectRevision.
    case ctrlSit of
      ctrlSituationUnknownController \<Rightarrow>
        if CollisionProtection options \<noteq> CollisionProtectionNone
        then lift (newObjectResultConflict actualObject compareRes actualOwner options)
        else objectAdoptionHandling cl api e compareRes revision desiredObject actualObject options
    | ctrlSituationNoController \<Rightarrow>
        if CollisionProtection options = CollisionProtectionPrevent \<or> isBoxcutterManaged e actualObject
        then lift (newObjectResultConflict actualObject compareRes actualOwner options)
        else objectAdoptionHandling cl api e compareRes revision desiredObject actualObject options
    | ctrlSituationSiblingIsController \<Rightarrow>
        if actualObjectRevision > revision
        then lift (newObjectResultProgressed actualObject compareRes options)
        else if actualObjectRevision < revision
        then objectAdoptionHandling cl api e compareRes revision desiredObject actualObject options
        else lift (newObjectResultConflict actualObject compareRes actualOwner options)
    | ctrlSituationIsController \<Rightarrow>
        let modified = (case Comparison compareRes of
               None \<Rightarrow> False
             | Some c \<Rightarrow> ModifiedFields c \<noteq> [] \<or> Removed c \<noteq> [])
        in if \<not> IsConflict compareRes \<and> \<not> modified
           then lift (newObjectResultIdle actualObject compareRes options)
           else if \<not> IsConflict compareRes \<and> modified
           then bind (wrap_err (Wrap ''patching (modified)'')
                        (apply_object cl api e desiredObject actualObject options False))
                  (\<lambda>desired. lift (newObjectResultUpdated desired compareRes options))
           else bind (wrap_err (Wrap ''patching (conflict)'')
                        (apply_object cl api e desiredObject actualObject options True))
                  (\<lambda>desired.
                     if Paused options
                     then lift (newObjectResultRecovered actualObject compareRes options)
                     else lift (newObjectResultRecovered desired compareRes options))))"

section \<open>Reconcile\<close>

definition setManagedBy :: "ObjectEngine \<Rightarrow> Object \<Rightarrow> Object" where
  "setManagedBy e obj = obj\<lparr>GetLabels := map_put (GetLabels obj) managedByLabel (managedBy e)\<rparr>"

text \<open>Lines 212 to 241: the copy of the caller's object that is sent to the cluster.\<close>

definition prepare_desired ::
  "apimachinery \<Rightarrow> ObjectEngine \<Rightarrow> int \<Rightarrow> Object \<Rightarrow> ObjectReconcileOptions \<Rightarrow> Object go" where
  "prepare_desired api e revision desiredObject options =
    (if revision = 0 then Panics ''owner revision must be set and start at 1''
     else obind (ensureGVKIsSet api (setManagedBy e desiredObject)) (\<lambda>desired.
       let desired = setObjectRevision e desired revision
       in case Owner options of
            None \<Rightarrow> Val desired
          | Some owner \<Rightarrow>
              obind (deref (OwnerStrategyOpt options)) (\<lambda>S.
                owrap (Wrap ''set controller reference'') (SetControllerReference S owner desired))))"

text \<open>Lines 261 to 293: what happens after the create call returned.\<close>

definition reconcile_created ::
  "'w cluster \<Rightarrow> apimachinery \<Rightarrow> ObjectEngine \<Rightarrow> int \<Rightarrow> ObjectReconcileOptions \<Rightarrow>
    go_error option \<times> Object \<Rightarrow> ('w, ObjectResult) run" where
  "reconcile_created cl api e revision options reply =
    (case reply of
       (Some err, desired) \<Rightarrow>
         if IsAlreadyExists api err
         then (case unfilteredReader e of
                 None \<Rightarrow> fail (CreateCollisionError desired err)
               | Some reader \<Rightarrow>
                   bind (wrap_err (Wrap ''getting object after create collision'')
                           (read_object cl reader desired)) (\<lambda>actual.
                     objectUpdateHandling cl api e revision desired actual options))
         else fail (Wrap ''creating resource'' err)
     | (None, desired) \<Rightarrow>
         bind (wrap_err (Wrap ''migrating to SSA after create'')
                 (migrateFieldManagersToSSA cl api e desired options)) (\<lambda>desired.
           lift (newObjectResultCreated desired options)))"

text \<open>Lines 251 to 293: the cache has no such object.\<close>

definition reconcile_create ::
  "'w cluster \<Rightarrow> apimachinery \<Rightarrow> ObjectEngine \<Rightarrow> int \<Rightarrow> Object \<Rightarrow> ObjectReconcileOptions \<Rightarrow>
    ('w, ObjectResult) run" where
  "reconcile_create cl api e revision desiredObject options =
    bind (create_object cl e desiredObject options (no_opts\<lparr>FieldOwner := Some (fieldOwner e)\<rparr>))
      (reconcile_created cl api e revision options)"

definition ObjectEngine_Reconcile ::
  "'w cluster \<Rightarrow> apimachinery \<Rightarrow> ObjectEngine \<Rightarrow> int \<Rightarrow> Object \<Rightarrow> ObjectReconcileOption list \<Rightarrow>
    ('w, ObjectResult) run" where
  "ObjectEngine_Reconcile cl api e revision desiredObject opts =
    bind (lift (ObjectReconcileOptions_Default (object_reconcile_options opts))) (\<lambda>options.
    bind (lift (prepare_desired api e revision desiredObject options)) (\<lambda>desired.
    attempt (read_object cl (cache e) desired)
      (\<lambda>err. if IsNotFound api err then reconcile_create cl api e revision desired options
             else fail (Wrap ''getting object'' err))
      (\<lambda>actual. objectUpdateHandling cl api e revision desired actual options)))"

text \<open>What \<open>Reconcile\<close> leaves in the caller's object: the label, and the kind when it was missing.\<close>

definition Reconcile_caller_object :: "apimachinery \<Rightarrow> ObjectEngine \<Rightarrow> Object \<Rightarrow> Object" where
  "Reconcile_caller_object api e desiredObject =
    (case ensureGVKIsSet api (setManagedBy e desiredObject) of
       Val obj \<Rightarrow> obj
     | _ \<Rightarrow> setManagedBy e desiredObject)"

section \<open>Teardown\<close>

text \<open>Lines 179 to 197.\<close>

definition teardown_delete ::
  "'w cluster \<Rightarrow> apimachinery \<Rightarrow> ObjectEngine \<Rightarrow> Object \<Rightarrow> Object \<Rightarrow> ObjectTeardownOptions \<Rightarrow>
    ('w, bool \<times> go_error option) run" where
  "teardown_delete cl api e desiredObject actualObject options =
    (let w = (case TeardownWriter options of None \<Rightarrow> writer e | Some tw \<Rightarrow> tw)
     in attempt (send cl w (Delete desiredObject
            \<lparr>pre_UID = GetUID actualObject, pre_ResourceVersion = GetResourceVersion actualObject\<rparr>))
          (\<lambda>err. if IsNotFound api err then ret (True, None)
                 else ret (False, Some (Wrap ''deleting object'' err)))
          (\<lambda>_. ret (False, None)))"

text \<open>Lines 154 to 177.\<close>

definition teardown_existing ::
  "'w cluster \<Rightarrow> apimachinery \<Rightarrow> ObjectEngine \<Rightarrow> int \<Rightarrow> Object \<Rightarrow> Object \<Rightarrow> ObjectTeardownOptions \<Rightarrow>
    ('w, bool \<times> go_error option) run" where
  "teardown_existing cl api e revision desiredObject actualObject options =
    (case td_Owner options of
       Some owner \<Rightarrow>
         bind (lift (deref (td_OwnerStrategy options))) (\<lambda>S.
         bind (lift (detectOwner owner S actualObject None)) (\<lambda>(ctrlSit, _).
           if ctrlSit \<noteq> ctrlSituationIsController
           then bind (lift (RemoveOwner S owner actualObject)) (\<lambda>patch.
                  attempt (send cl (writer e) (Patch patch (MergeFrom actualObject) no_opts))
                    (\<lambda>err. ret (True, Some err))
                    (\<lambda>_. ret (True, None)))
           else teardown_delete cl api e desiredObject actualObject options))
     | None \<Rightarrow>
         attempt (lift (getObjectRevision e actualObject))
           (\<lambda>err. ret (False, Some (Wrap ''getting object revision'' err)))
           (\<lambda>actualRevision.
              if actualRevision \<noteq> revision then ret (True, None)
              else teardown_delete cl api e desiredObject actualObject options))"

definition ObjectEngine_Teardown ::
  "'w cluster \<Rightarrow> apimachinery \<Rightarrow> ObjectEngine \<Rightarrow> int \<Rightarrow> Object \<Rightarrow> ObjectTeardownOption list \<Rightarrow>
    ('w, bool \<times> go_error option) run" where
  "ObjectEngine_Teardown cl api e revision desiredObject opts =
    bind (lift (ObjectTeardownOptions_Default (object_teardown_options opts))) (\<lambda>options.
    if revision = 0 then panic ''owner revision must be set and start at 1''
    else if Orphan options \<or>
      (case td_Owner options of None \<Rightarrow> False | Some owner \<Rightarrow> ContainsFinalizer api owner ''orphan'')
    then attempt (removeBoxcutterManagedLabelsAndAnnotations cl e (writer e) desiredObject)
           (\<lambda>err. ret (False, Some err))
           (\<lambda>_. ret (True, None))
    else attempt (read_object cl (cache e) desiredObject)
           (\<lambda>err. if IsNoMatchError api err then ret (True, None)
                  else if IsNotFound api err then ret (True, None)
                  else ret (False, Some (Wrap ''getting object before deletion'' err)))
           (\<lambda>actual. teardown_existing cl api e revision desiredObject actual options))"

section \<open>Evaluation rules\<close>

text \<open>How the parts run, as facts the properties below rest on.\<close>

lemma getObjectRevision_cases:
  "\<not> is_panic (getObjectRevision e obj)"
  by (simp add: getObjectRevision_def Let_def split: sum.splits)

lemma getObjectRevision_unmanaged:
  "\<not> isBoxcutterManaged e obj \<Longrightarrow> getObjectRevision e obj = Val 0"
  by (cases "GetAnnotations obj")
    (auto simp: getObjectRevision_def isBoxcutterManaged_def map_index_def)

lemma setObjectRevision_frame [simp]:
  "GetLabels (setObjectRevision e obj n) = GetLabels obj"
  "ToObjectRef (setObjectRevision e obj n) = ToObjectRef obj"
  "repr (setObjectRevision e obj n) = repr obj"
  "GVK (setObjectRevision e obj n) = GVK obj"
  "GetOwnerReferences (setObjectRevision e obj n) = GetOwnerReferences obj"
  "map_get (GetAnnotations (setObjectRevision e obj n)) (revisionAnnotation e) = Some (FormatInt n)"
  by (simp_all add: setObjectRevision_def ToObjectRef_def ObjectKeyFromObject_def)

lemma apply_object_paused [simp]:
  "Paused options \<Longrightarrow> apply_object cl api e d a options force = ret d"
  by (simp add: apply_object_def)

lemma migrate_paused [simp]:
  "Paused options \<Longrightarrow> migrateFieldManagersToSSA cl api e d options = ret d"
  by (simp add: migrateFieldManagersToSSA_def)

lemma migrate_nothing:
  "UpgradeManagedFieldsPatch api d (fieldOwner e) = Inr [] \<Longrightarrow>
    migrateFieldManagersToSSA cl api e d options = ret d"
  by (simp add: migrateFieldManagersToSSA_def)

text \<open>The options of every server-side apply.\<close>

definition apply_opts :: "ObjectEngine \<Rightarrow> bool \<Rightarrow> WriteOptions" where
  "apply_opts e force = \<lparr>FieldOwner = Some (fieldOwner e), ForceOwnership = force, DryRunAll = False\<rparr>"

lemma apply_object_unpaused:
  "\<not> Paused options \<Longrightarrow>
    apply_object cl api e d a options force =
      bind (migrateFieldManagersToSSA cl api e a options) (\<lambda>a'.
        if repr d = Structured then fail (UnsupportedApplyConfigurationError Structured)
        else send cl (writer e)
               (Apply (d\<lparr>GetResourceVersion := GetResourceVersion a'\<rparr>) (apply_opts e force)))"
  by (auto simp: apply_object_def apply_opts_def Let_def fun_eq_iff split: object_repr.splits
      intro!: arg_cong [where f = "\<lambda>f. bind _ f _"])

section \<open>A sample run\<close>

text \<open>An engine on the sample cluster with a comparator that always gives the same answer, and what
  it observes of the sample object under the native strategy.\<close>

definition sample_engine :: "CompareResult \<Rightarrow> ObjectEngine" where
  "sample_engine cr =
    NewObjectEngine (Reader 0) (Writer 0) (\<lambda>d a opts. Val cr) ''bc'' ''pko'' [] None"

definition sample_strategy :: OwnerStrategy where
  "sample_strategy = OwnerStrategyNative sample_api sample_scr"

definition sample_opts :: "CollisionProtection \<Rightarrow> ObjectReconcileOption list" where
  "sample_opts p = [OwnerReconcile sample_owner (Some sample_strategy), WithCollisionProtection p]"

definition sample_options :: "CollisionProtection \<Rightarrow> ObjectReconcileOptions" where
  "sample_options p =
    \<lparr>CollisionProtection = p, SiblingOwnerClassifier = None, Owner = Some sample_owner,
     OwnerStrategyOpt = Some sample_strategy, Paused = False, Probes = []\<rparr>"

definition sample_prepared :: Object where
  "sample_prepared = sample_object\<lparr>GetLabels := Some [managedByLabel \<mapsto> ''boxcutter''],
     GetAnnotations := Some [''pko/revision'' \<mapsto> ''3''], GetOwnerReferences := [sample_ref sample_owner]\<rparr>"

definition sample_controlled :: Object where
  "sample_controlled = sample_prepared\<lparr>GetUID := ''u1'', GetResourceVersion := ''7''\<rparr>"

lemma sample_engine_simps [simp]:
  "cache (sample_engine cr) = Reader 0" "writer (sample_engine cr) = Writer 0"
  "comparator (sample_engine cr) d a opts = Val cr" "fieldOwner (sample_engine cr) = ''bc''"
  "managedBy (sample_engine cr) = ''boxcutter''" "unfilteredReader (sample_engine cr) = None"
  "revisionAnnotation (sample_engine cr) = ''pko/revision''"
  by (simp_all add: sample_engine_def NewObjectEngine_def managedByLabelDefaultValue_def
      revisionAnnotation_def)

lemma sample_default:
  "p \<noteq> [] \<Longrightarrow>
    ObjectReconcileOptions_Default (object_reconcile_options (sample_opts p)) = Val (sample_options p)"
  by (simp add: ObjectReconcileOptions_Default_def object_reconcile_options_def sample_opts_def
      zero_ObjectReconcileOptions_def sample_options_def)

lemma sample_revision_number: "FormatInt 3 = ''3''" "ParseInt ''3'' = Inr 3"
proof -
  have "digit_char 3 = CHR ''3''" by code_simp
  then show f: "FormatInt 3 = ''3''" by (simp add: FormatInt_def format_nat.simps)
  show "ParseInt ''3'' = Inr 3"
    using ParseInt_FormatInt [of 3, unfolded f] by (simp add: int64_defs)
qed

lemma sample_prepare:
  "prepare_desired sample_api (sample_engine cr) 3 sample_object (sample_options p) = Val sample_prepared"
  by (simp add: prepare_desired_def sample_options_def deref_def sample_strategy_def
      OwnerStrategyNative_def sample_scr_def setManagedBy_def setObjectRevision_def sample_revision_number
      ensureGVKIsSet_def sample_object_def emptyGVK_def sample_prepared_def)

lemma sample_stored:
  "stored sample_prepared [sample_actual] = Some sample_actual"
  "stored sample_prepared [sample_controlled] = Some sample_controlled"
  "stored sample_object [sample_actual] = Some sample_actual"
  "stored sample_object [sample_controlled] = Some sample_controlled"
  "stored sample_prepared [] = None"
  by (simp_all add: stored_def sample_prepared_def sample_actual_def sample_controlled_def
      sample_object_def ToObjectRef_eq_iff)

lemma sample_controllers:
  "GetController sample_strategy sample_actual = Val None"
  "GetController sample_strategy sample_controlled = Val (Some (sample_ref sample_owner))"
  "IsController sample_strategy sample_owner sample_controlled = Val True"
  by (simp_all add: sample_strategy_def OwnerStrategyNative_def Native_GetController_def
      Native_IsController_def Native_ownerRefForCompare_def Native_referSameObject_def
      sample_actual_def sample_controlled_def sample_prepared_def sample_object_def sample_owner_def
      sample_ref_def is_ctrl_def)

lemma sample_check:
  "checkSituation (sample_engine cr) sample_prepared sample_actual (sample_options p) =
    Val (ctrlSituationNoController, cr, None)"
  "checkSituation (sample_engine cr) sample_prepared sample_controlled (sample_options p) =
    Val (ctrlSituationIsController, cr, Some (sample_ref sample_owner))"
  by (simp_all add: checkSituation_def sample_options_def deref_def detectOwner_def sample_controllers
      WithOwner_def)

lemma sample_revisions:
  "getObjectRevision (sample_engine cr) sample_actual = Val 0"
  "getObjectRevision (sample_engine cr) sample_controlled = Val 3"
  by (simp_all add: getObjectRevision_def sample_actual_def sample_controlled_def sample_prepared_def
      sample_object_def map_index_def sample_revision_number)

section \<open>What reconciling sends\<close>

text \<open>The patch that moves the managed fields of an object to server-side apply.\<close>

definition migration_patch :: "apimachinery \<Rightarrow> ObjectEngine \<Rightarrow> Object \<Rightarrow> string \<Rightarrow> bool" where
  "migration_patch api e d patch \<longleftrightarrow>
    UpgradeManagedFieldsPatch api d (fieldOwner e) = Inr patch \<and> patch \<noteq> []"

lemma keeps_migrate:
  assumes "\<And>patch. \<not> Paused options \<Longrightarrow> migration_patch api e d patch \<Longrightarrow>
      P (writer e, Patch d (RawPatch JSONPatchType patch) no_opts)"
  shows "tr.keeps P (migrateFieldManagersToSSA cl api e d options)"
  unfolding migrateFieldManagersToSSA_def
  by (cases "UpgradeManagedFieldsPatch api d (fieldOwner e)")
    (auto intro!: tr.keeps_rules keeps_calls assms simp: migration_patch_def)

lemma keeps_apply:
  assumes "\<And>patch. \<not> Paused options \<Longrightarrow> migration_patch api e a patch \<Longrightarrow>
      P (writer e, Patch a (RawPatch JSONPatchType patch) no_opts)"
    and "\<And>rv. \<not> Paused options \<Longrightarrow> repr d \<noteq> Structured \<Longrightarrow>
      P (writer e, Apply (d\<lparr>GetResourceVersion := rv\<rparr>) (apply_opts e force))"
  shows "tr.keeps P (apply_object cl api e d a options force)"
proof (cases "Paused options")
  case False
  then show ?thesis
    unfolding apply_object_unpaused [OF False]
    by (intro tr.keeps_rules keeps_migrate keeps_calls assms)
qed (simp add: tr.keeps_ret)

lemma keeps_case_ctrl:
  "tr.keeps P a \<Longrightarrow> tr.keeps P b \<Longrightarrow> tr.keeps P c \<Longrightarrow> tr.keeps P d \<Longrightarrow>
    tr.keeps P (case sit of ctrlSituationIsController \<Rightarrow> a | ctrlSituationSiblingIsController \<Rightarrow> b
      | ctrlSituationUnknownController \<Rightarrow> c | ctrlSituationNoController \<Rightarrow> d)"
  by (cases sit) auto

lemma keeps_update:
  assumes patch: "\<And>p. \<not> Paused options \<Longrightarrow> migration_patch api e actual p \<Longrightarrow>
      P (writer e, Patch actual (RawPatch JSONPatchType p) no_opts)"
    and own: "\<And>rv force. \<not> Paused options \<Longrightarrow> repr desired \<noteq> Structured \<Longrightarrow>
      P (writer e, Apply (desired\<lparr>GetResourceVersion := rv\<rparr>) (apply_opts e force))"
    and adopted: "\<And>rv d. \<not> Paused options \<Longrightarrow> repr d \<noteq> Structured \<Longrightarrow>
      adopted_object e revision desired actual options = Val d \<Longrightarrow>
      P (writer e, Apply (d\<lparr>GetResourceVersion := rv\<rparr>) (apply_opts e True))"
  shows "tr.keeps P (objectUpdateHandling cl api e revision desired actual options)"
proof -
  have adoption: "tr.keeps P (objectAdoptionHandling cl api e cr revision desired actual options)" for cr
    unfolding objectAdoptionHandling_def
    by (intro tr.keeps_bind_lift tr.keeps_rules keeps_apply patch adopted)
  have handled: "tr.keeps P (wrap_err w (apply_object cl api e desired actual options force))" for w force
    by (intro tr.keeps_rules keeps_apply patch own)
  show ?thesis
    unfolding objectUpdateHandling_def Let_def
    by (intro tr.keeps_bind_lift tr.keeps_case_prod keeps_case_ctrl adoption
        tr.keeps_bind [OF handled] tr.keeps_if tr.keeps_lift)
qed

lemma create_write_opts:
  "(if Paused options then no_opts\<lparr>FieldOwner := Some f, DryRunAll := True\<rparr>
    else no_opts\<lparr>FieldOwner := Some f\<rparr>) =
   \<lparr>FieldOwner = Some f, ForceOwnership = False, DryRunAll = Paused options\<rparr>"
  by (simp add: no_opts_def)

lemma reconcile_create_eq:
  "reconcile_create cl api e revision d options =
    bind (send_raw cl (writer e) (Create d \<lparr>FieldOwner = Some (fieldOwner e), ForceOwnership = False,
        DryRunAll = Paused options\<rparr>))
      (reconcile_created cl api e revision options)"
  by (simp add: reconcile_create_def create_object_def no_opts_def)

lemma keeps_created:
  assumes patch: "\<And>p. err = None \<Longrightarrow> \<not> Paused options \<Longrightarrow> migration_patch api e d p \<Longrightarrow>
        P (writer e, Patch d (RawPatch JSONPatchType p) no_opts)"
    and upd: "\<And>er actual r t t'. err = Some er \<Longrightarrow> read_object cl r d t = (Val actual, t') \<Longrightarrow>
        tr.keeps P (objectUpdateHandling cl api e revision d actual options)"
  shows "tr.keeps P (reconcile_created cl api e revision options (err, d))"
proof (cases err)
  case None
  then show ?thesis
    by (auto simp: reconcile_created_def intro!: tr.keeps_rules keeps_migrate patch)
next
  case (Some er)
  have "tr.keeps P (bind (wrap_err w (read_object cl reader d)) (\<lambda>actual.
      objectUpdateHandling cl api e revision d actual options))" for w reader
    using upd Some by (intro tr.keeps_bind_run tr.keeps_wrap_err keeps_read_object) auto
  with Some show ?thesis
    by (auto simp: reconcile_created_def intro: tr.keeps_fail split: option.splits)
qed

lemma keeps_create:
  assumes cr: "P (writer e, Create d \<lparr>FieldOwner = Some (fieldOwner e), ForceOwnership = False,
        DryRunAll = Paused options\<rparr>)"
    and patch: "\<And>obj p s s' opts. \<not> Paused options \<Longrightarrow>
        send_raw cl (writer e) (Create d opts) s = (Val (None, obj), s') \<Longrightarrow>
        migration_patch api e obj p \<Longrightarrow>
        P (writer e, Patch obj (RawPatch JSONPatchType p) no_opts)"
    and upd: "\<And>obj err er s s' opts actual r t t'.
        send_raw cl (writer e) (Create d opts) s = (Val (Some er, obj), s') \<Longrightarrow>
        read_object cl r obj t = (Val actual, t') \<Longrightarrow>
        tr.keeps P (objectUpdateHandling cl api e revision obj actual options)"
  shows "tr.keeps P (reconcile_create cl api e revision d options)"
  unfolding reconcile_create_eq
proof (intro tr.keeps_bind_run keeps_send_raw cr)
  fix s s' reply
  assume run: "send_raw cl (writer e) (Create d \<lparr>FieldOwner = Some (fieldOwner e),
    ForceOwnership = False, DryRunAll = Paused options\<rparr>) s = (Val reply, s')"
  obtain err obj where reply: "reply = (err, obj)" by fastforce
  show "tr.keeps P (reconcile_created cl api e revision options reply)"
    using run unfolding reply by (blast intro: keeps_created patch upd)
qed

lemma update_paused_silent:
  assumes "Paused options"
  shows "tr.keeps (\<lambda>_. False) (objectUpdateHandling cl api e revision d actual options)"
  using assms by (intro keeps_update) auto

lemma create_paused:
  assumes "Paused options" "reconcile_create cl api e revision d options s = (r, s')"
  shows "sent s' = sent s @ [(writer e, Create d \<lparr>FieldOwner = Some (fieldOwner e),
    ForceOwnership = False, DryRunAll = True\<rparr>)]"
proof -
  have "tr.keeps (\<lambda>_. False) (reconcile_created cl api e revision options reply)" for reply
    using assms(1) by (cases reply) (auto intro: keeps_created update_paused_silent)
  from tr.keepsD [OF this] assms show ?thesis
    unfolding reconcile_create_eq bind_send_raw
    by (fastforce simp: emits_nothing_iff split: prod.splits)
qed

text \<open>A run of \<open>Reconcile\<close> stops before any request, creates, or updates.\<close>

lemma Reconcile_cases:
  assumes "ObjectEngine_Reconcile cl api e revision desiredObject opts s = (r, s')"
  obtains (early) "sent s' = sent s" "\<And>x. r \<noteq> Val x"
  | (create) options d s1 err where
      "ObjectReconcileOptions_Default (object_reconcile_options opts) = Val options"
      "prepare_desired api e revision desiredObject options = Val d"
      "read_object cl (cache e) d s = (Fail err, s1)" "IsNotFound api err" "sent s1 = sent s"
      "reconcile_create cl api e revision d options s1 = (r, s')"
  | (update) options d s1 actual where
      "ObjectReconcileOptions_Default (object_reconcile_options opts) = Val options"
      "prepare_desired api e revision desiredObject options = Val d"
      "read_object cl (cache e) d s = (Val actual, s1)" "sent s1 = sent s"
      "objectUpdateHandling cl api e revision d actual options s1 = (r, s')"
proof (cases "ObjectReconcileOptions_Default (object_reconcile_options opts)")
  case (Val options)
  show ?thesis
  proof (cases "prepare_desired api e revision desiredObject options")
    case prep: (Val d)
    obtain got s1 where got: "read_object cl (cache e) d s = (got, s1)" by fastforce
    then have s1: "sent s1 = sent s" by (auto simp: read_object_def split: prod.splits sum.splits)
    show ?thesis
    proof (cases got)
      case (Fail err)
      with assms Val prep got s1 that show ?thesis
        by (cases "IsNotFound api err") (auto simp: ObjectEngine_Reconcile_def attempt_def fail_def)
    next
      case (Panics p)
      with got show ?thesis by (auto simp: read_object_def split: prod.splits sum.splits)
    qed (use assms Val prep got s1 update in \<open>auto simp: ObjectEngine_Reconcile_def attempt_def\<close>)
  qed (use assms Val early in \<open>auto simp: ObjectEngine_Reconcile_def eff_simps\<close>)
qed (use assms early in \<open>auto simp: ObjectEngine_Reconcile_def eff_simps\<close>)

text \<open>With the option WithPaused, reconciling an object changes nothing on the cluster: it sends
  at most one request, and that is a create in dry-run mode.\<close>

theorem Reconcile_paused_only_dry_run:
  assumes "WithPaused \<in> set opts"
    and "ObjectEngine_Reconcile cl api e revision desiredObject opts s = (r, s')"
  shows "sent s' = sent s \<or>
    (\<exists>d. sent s' = sent s @ [(writer e, Create d \<lparr>FieldOwner = Some (fieldOwner e),
       ForceOwnership = False, DryRunAll = True\<rparr>)])"
  using assms(2)
proof (cases rule: Reconcile_cases)
  case (create options d s1 err)
  with assms(1) have "Paused options" by (auto dest: Default_Paused)
  from create_paused [OF this create(6)] create(5) show ?thesis by auto
next
  case (update options d s1 actual)
  with assms(1) have "Paused options" by (auto dest: Default_Paused)
  from tr.keepsD [OF update_paused_silent [OF this] update(5)] update(4) show ?thesis
    by (simp add: emits_nothing_iff)
qed simp

theorem Reconcile_paused_only_dry_run_witness:
  "WithPaused \<in> set [WithPaused] \<and>
   (let t = snd (ObjectEngine_Reconcile sample_cluster sample_api (sample_engine no_diff) 3 sample_object
         [WithPaused] (sample_st []))
    in sent t = sent (sample_st []) \<or>
      (\<exists>d. sent t = sent (sample_st []) @ [(writer (sample_engine no_diff),
         Create d \<lparr>FieldOwner = Some (fieldOwner (sample_engine no_diff)), ForceOwnership = False,
           DryRunAll = True\<rparr>)]))"
  using Reconcile_paused_only_dry_run [of "[WithPaused]" sample_cluster sample_api
      "sample_engine no_diff" 3 sample_object "sample_st []", OF _ prod.collapse [symmetric]]
  by (simp add: Let_def)

subsection \<open>Every request is about the desired object and bears the engine's marks\<close>

definition marked :: "ObjectEngine \<Rightarrow> int \<Rightarrow> Object \<Rightarrow> bool" where
  "marked e revision d \<longleftrightarrow>
    map_get (GetLabels d) managedByLabel = Some (managedBy e) \<and>
    map_get (GetAnnotations d) (revisionAnnotation e) = Some (FormatInt revision)"

definition reconcile_request ::
  "apimachinery \<Rightarrow> ObjectEngine \<Rightarrow> int \<Rightarrow> Object \<Rightarrow> Writer \<times> request \<Rightarrow> bool" where
  "reconcile_request api e revision desiredObject wr \<longleftrightarrow>
    fst wr = writer e \<and>
    ToObjectRef (request_object (snd wr)) = ToObjectRef (Reconcile_caller_object api e desiredObject) \<and>
    (case snd wr of
       Create d opts \<Rightarrow> marked e revision d \<and> FieldOwner opts = Some (fieldOwner e) \<and>
         \<not> ForceOwnership opts
     | Patch d p opts \<Rightarrow> opts = no_opts \<and>
         (\<exists>j. p = RawPatch JSONPatchType j \<and> migration_patch api e d j)
     | Apply d opts \<Rightarrow> marked e revision d \<and> repr d \<noteq> Structured \<and>
         FieldOwner opts = Some (fieldOwner e)
     | Delete d pre \<Rightarrow> False)"

lemma marked_owners:
  "marked e revision a \<Longrightarrow> same_but_owners K a b \<Longrightarrow> revisionAnnotation e \<notin> K \<Longrightarrow> marked e revision b"
  by (simp add: marked_def same_but_owners_frame)

lemma marked_resourceVersion [simp]: "marked e n (d\<lparr>GetResourceVersion := rv\<rparr>) = marked e n d"
  by (simp add: marked_def)

lemma ToObjectRef_resourceVersion [simp]: "ToObjectRef (d\<lparr>GetResourceVersion := rv\<rparr>) = ToObjectRef d"
  by (simp add: ToObjectRef_def ObjectKeyFromObject_def)

lemma prepare_desired_marked:
  assumes "prepare_desired api e revision desiredObject options = Val d"
    and frames: "\<And>S. OwnerStrategyOpt options = Some S \<Longrightarrow> strategy_frames S K"
    and K: "revisionAnnotation e \<notin> K"
  shows "marked e revision d \<and> ToObjectRef d = ToObjectRef (Reconcile_caller_object api e desiredObject)"
proof -
  obtain g where g: "ensureGVKIsSet api (setManagedBy e desiredObject) = Val g"
    using assms(1) by (auto simp: prepare_desired_def obind_eq_Val split: if_splits)
  let ?m = "setObjectRevision e g revision"
  have "map_get (GetLabels g) managedByLabel = Some (managedBy e)"
    using ensureGVKIsSet_frame [OF g] by (auto simp: setManagedBy_def)
  then have m: "marked e revision ?m" by (simp add: marked_def)
  have ref: "ToObjectRef ?m = ToObjectRef (Reconcile_caller_object api e desiredObject)"
    by (simp add: Reconcile_caller_object_def g)
  show ?thesis
  proof (cases "Owner options")
    case None
    with assms(1) g m ref show ?thesis by (auto simp: prepare_desired_def Let_def split: if_splits)
  next
    case (Some owner)
    then obtain S where S: "OwnerStrategyOpt options = Some S"
      "SetControllerReference S owner ?m = Val d"
      using assms(1) g
      by (auto simp: prepare_desired_def Let_def obind_eq_Val deref_def split: if_splits option.splits)
    from strategy_framesD(1) [OF frames [OF S(1)] S(2)] m ref K show ?thesis
      by (auto dest: marked_owners same_but_owners_frame(9))
  qed
qed

lemma adopted_object_marked:
  assumes "adopted_object e revision d actual options = Val d'"
    and m: "marked e revision d"
    and frames: "\<And>S. OwnerStrategyOpt options = Some S \<Longrightarrow> strategy_frames S K"
    and K: "revisionAnnotation e \<notin> K"
  shows "marked e revision d' \<and> ToObjectRef d' = ToObjectRef d"
proof -
  let ?m = "setObjectRevision e d revision"
  have m': "marked e revision ?m" using m by (simp add: marked_def)
  show ?thesis
  proof (cases "Owner options")
    case None
    with assms(1) m' show ?thesis by (auto simp: adopted_object_def Let_def)
  next
    case (Some owner)
    then obtain S where S: "OwnerStrategyOpt options = Some S" "adopt S owner actual ?m = Val d'"
      using assms(1)
      by (auto simp: adopted_object_def Let_def obind_eq_Val deref_def split: option.splits)
    from adopt_frames [OF frames [OF S(1)] S(2)] m' K show ?thesis
      by (auto dest: marked_owners same_but_owners_frame(9))
  qed
qed

lemma update_requests:
  assumes "marked e revision d" "ToObjectRef d = ToObjectRef (Reconcile_caller_object api e obj)"
    and "ToObjectRef actual = ToObjectRef d"
    and "\<And>S. OwnerStrategyOpt options = Some S \<Longrightarrow> strategy_frames S K" "revisionAnnotation e \<notin> K"
  shows "tr.keeps (reconcile_request api e revision obj)
    (objectUpdateHandling cl api e revision d actual options)"
proof (rule keeps_update)
  fix rv d'
  assume "adopted_object e revision d actual options = Val d'"
  from adopted_object_marked [OF this assms(1) assms(4,5)]
  show "repr d' \<noteq> Structured \<Longrightarrow> reconcile_request api e revision obj
      (writer e, Apply (d'\<lparr>GetResourceVersion := rv\<rparr>) (apply_opts e True))"
    using assms(2) by (simp add: reconcile_request_def apply_opts_def)
qed (use assms in \<open>simp_all add: reconcile_request_def apply_opts_def\<close>)

text \<open>C23: reconciling sends requests through the engine's writer only, only for the object it was
  asked to reconcile, and never a delete. What it creates or applies carries the managed-by label
  and the revision annotation and is written under the engine's field owner; a typed object is never
  applied; a patch is the non-empty JSON patch that csaupgrade computes for the patched object and
  the engine's field owner, that is, it migrates the field managers and nothing else. This holds
  for a cluster whose answers are about the object of the request and keep an object whose create
  failed as it was (\<open>well_behaved\<close>), and for an owner strategy that changes nothing but owner
  references and annotations other than the revision annotation (\<open>strategy_frames\<close>).\<close>

theorem Reconcile_requests:
  assumes "well_behaved cl"
    and frames: "\<And>S. OwnerStrategyOpt (object_reconcile_options opts) = Some S \<Longrightarrow> strategy_frames S K"
    and K: "revisionAnnotation e \<notin> K"
    and "ObjectEngine_Reconcile cl api e revision desiredObject opts s = (r, s')"
  shows "emits (reconcile_request api e revision desiredObject) s s'"
  using assms(4)
proof (cases rule: Reconcile_cases)
  case early
  then show ?thesis by (simp add: emits_def)
next
  case (create options d s1 err)
  have fr: "OwnerStrategyOpt options = Some S \<Longrightarrow> strategy_frames S K" for S
    using frames Default_Owner [OF create(1)] by simp
  note d = prepare_desired_marked [OF create(2) fr K]
  have "tr.keeps (reconcile_request api e revision desiredObject)
      (reconcile_create cl api e revision d options)"
  proof (rule keeps_create)
    fix obj er s s' opts actual r t t'
    assume "send_raw cl (writer e) (Create d opts) s = (Val (Some er, obj), s')"
      and r: "read_object cl r obj t = (Val actual, t')"
    then have "obj = d" using send_raw_failed_create [OF assms(1)] by blast
    with r read_object_ref [OF assms(1) r] d
    show "tr.keeps (reconcile_request api e revision desiredObject)
        (objectUpdateHandling cl api e revision obj actual options)"
      by (intro update_requests [OF _ _ _ fr K]) auto
  qed (use d send_raw_ref [OF assms(1)] in \<open>auto simp: reconcile_request_def\<close>)
  from tr.keepsD [OF this create(6)] create(5) show ?thesis by (simp add: emits_def)
next
  case (update options d s1 actual)
  have fr: "OwnerStrategyOpt options = Some S \<Longrightarrow> strategy_frames S K" for S
    using frames Default_Owner [OF update(1)] by simp
  note d = prepare_desired_marked [OF update(2) fr K]
  from read_object_ref [OF assms(1) update(3)] d
  have "tr.keeps (reconcile_request api e revision desiredObject)
      (objectUpdateHandling cl api e revision d actual options)"
    by (intro update_requests [OF _ _ _ fr K]) auto
  from tr.keepsD [OF this update(5)] update(4) show ?thesis by (simp add: emits_def)
qed

theorem Reconcile_requests_witness:
  "emits (reconcile_request sample_api (sample_engine no_diff) 3 sample_object) (sample_st [])
    (snd (ObjectEngine_Reconcile sample_cluster sample_api (sample_engine no_diff) 3 sample_object
       (sample_opts CollisionProtectionPrevent) (sample_st [])))"
  by (rule Reconcile_requests [OF sample_cluster_well_behaved _ _ prod.collapse [symmetric],
        where K = "{}"])
    (use sample_default [of CollisionProtectionPrevent] in \<open>auto dest!: Default_Owner
       simp: sample_options_def sample_strategy_def sample_native_frames\<close>)

section \<open>Collision protection and revision linearity\<close>

text \<open>The policy: when the engine may take over an object it does not control.\<close>

definition may_adopt :: "CollisionProtection \<Rightarrow> ctrlSituation \<Rightarrow> bool \<Rightarrow> int \<Rightarrow> int \<Rightarrow> bool" where
  "may_adopt protection sit managed actualRevision revision =
    (case sit of
       ctrlSituationUnknownController \<Rightarrow> protection = CollisionProtectionNone
     | ctrlSituationNoController \<Rightarrow> protection \<noteq> CollisionProtectionPrevent \<and> \<not> managed
     | ctrlSituationSiblingIsController \<Rightarrow> actualRevision < revision
     | ctrlSituationIsController \<Rightarrow> False)"

text \<open>What a run sees when the object is in the cache: the effective options, the prepared object,
  the actual object and how it stands to the owner.\<close>

record observation =
  ob_options :: ObjectReconcileOptions
  ob_desired :: Object
  ob_actual :: Object
  ob_situation :: ctrlSituation
  ob_compare :: CompareResult
  ob_controller :: "OwnerReference option"
  ob_revision :: int

definition observes ::
  "'w cluster \<Rightarrow> apimachinery \<Rightarrow> ObjectEngine \<Rightarrow> int \<Rightarrow> Object \<Rightarrow> ObjectReconcileOption list \<Rightarrow> 'w st \<Rightarrow>
    observation \<Rightarrow> 'w st \<Rightarrow> bool" where
  "observes cl api e revision desiredObject opts s ob s1 \<longleftrightarrow>
    ObjectReconcileOptions_Default (object_reconcile_options opts) = Val (ob_options ob) \<and>
    prepare_desired api e revision desiredObject (ob_options ob) = Val (ob_desired ob) \<and>
    read_object cl (cache e) (ob_desired ob) s = (Val (ob_actual ob), s1) \<and>
    checkSituation e (ob_desired ob) (ob_actual ob) (ob_options ob) =
      Val (ob_situation ob, ob_compare ob, ob_controller ob) \<and>
    getObjectRevision e (ob_actual ob) = Val (ob_revision ob)"

definition ob_may_adopt :: "ObjectEngine \<Rightarrow> int \<Rightarrow> observation \<Rightarrow> bool" where
  "ob_may_adopt e revision ob \<longleftrightarrow>
    may_adopt (CollisionProtection (ob_options ob)) (ob_situation ob)
      (isBoxcutterManaged e (ob_actual ob)) (ob_revision ob) revision"

lemma observes_sent: "observes cl api e revision desiredObject opts s ob s1 \<Longrightarrow> sent s1 = sent s"
  by (auto simp: observes_def read_object_Val)

lemma observes_run:
  "observes cl api e revision desiredObject opts s ob s1 \<Longrightarrow>
    ObjectEngine_Reconcile cl api e revision desiredObject opts s =
      objectUpdateHandling cl api e revision (ob_desired ob) (ob_actual ob) (ob_options ob) s1"
  by (simp add: observes_def ObjectEngine_Reconcile_def attempt_def)

lemma observes_adopt:
  assumes "observes cl api e revision desiredObject opts s ob s1" "ob_may_adopt e revision ob"
  shows "ObjectEngine_Reconcile cl api e revision desiredObject opts s =
    objectAdoptionHandling cl api e (ob_compare ob) revision (ob_desired ob) (ob_actual ob)
      (ob_options ob) s1"
  using assms unfolding observes_run [OF assms(1)]
  by (cases "ob_situation ob")
    (auto simp: observes_def objectUpdateHandling_def ob_may_adopt_def may_adopt_def)

lemma observes_refuse:
  assumes "observes cl api e revision desiredObject opts s ob s1"
    and "ob_situation ob \<noteq> ctrlSituationIsController" "\<not> ob_may_adopt e revision ob"
  shows "ObjectEngine_Reconcile cl api e revision desiredObject opts s =
    (if ob_situation ob = ctrlSituationSiblingIsController \<and> ob_revision ob > revision
     then newObjectResultProgressed (ob_actual ob) (ob_compare ob) (ob_options ob)
     else newObjectResultConflict (ob_actual ob) (ob_compare ob) (ob_controller ob) (ob_options ob),
     s1)"
  using assms unfolding observes_run [OF assms(1)]
  by (cases "ob_situation ob")
    (auto simp: observes_def objectUpdateHandling_def ob_may_adopt_def may_adopt_def lift_def)

definition sample_ob ::
  "CollisionProtection \<Rightarrow> Object \<Rightarrow> ctrlSituation \<Rightarrow> CompareResult \<Rightarrow> OwnerReference option \<Rightarrow> int \<Rightarrow>
    observation" where
  "sample_ob p actual sit cr ref n =
    \<lparr>ob_options = sample_options p, ob_desired = sample_prepared, ob_actual = actual,
     ob_situation = sit, ob_compare = cr, ob_controller = ref, ob_revision = n\<rparr>"

lemma sample_observes:
  "p \<noteq> [] \<Longrightarrow> observes sample_cluster sample_api (sample_engine cr) 3 sample_object (sample_opts p)
     (sample_st [sample_actual])
     (sample_ob p sample_actual ctrlSituationNoController cr None 0) (sample_st [sample_actual])"
  "p \<noteq> [] \<Longrightarrow> observes sample_cluster sample_api (sample_engine cr) 3 sample_object (sample_opts p)
     (sample_st [sample_controlled])
     (sample_ob p sample_controlled ctrlSituationIsController cr (Some (sample_ref sample_owner)) 3)
     (sample_st [sample_controlled])"
  by (simp_all add: observes_def sample_ob_def sample_default sample_prepare read_object_def
      sample_stored sample_check sample_revisions sample_st_def)



lemma modified_iff:
  "CompareResult_Modified cr \<noteq> [] \<longleftrightarrow>
    (case Comparison cr of None \<Rightarrow> False | Some c \<Rightarrow> ModifiedFields c \<noteq> [] \<or> Removed c \<noteq> [])"
  by (simp add: CompareResult_Modified_def split: option.splits)

lemma observes_idle:
  assumes ob: "observes cl api e revision desiredObject opts s ob s1"
    and own: "ob_situation ob = ctrlSituationIsController"
    and same: "\<not> IsConflict (ob_compare ob)" "CompareResult_Modified (ob_compare ob) = []"
  shows "ObjectEngine_Reconcile cl api e revision desiredObject opts s =
    (newObjectResultIdle (ob_actual ob) (ob_compare ob) (ob_options ob), s1)"
  using own ob same unfolding observes_run [OF ob]
  by (simp add: observes_def objectUpdateHandling_def modified_iff [symmetric] lift_def)

lemma controlled_object_idle:
  assumes ob: "observes cl api e revision desiredObject opts s ob s1"
    and own: "ob_situation ob = ctrlSituationIsController"
    and same: "\<not> IsConflict (ob_compare ob)" "CompareResult_Modified (ob_compare ob) = []"
    and run: "ObjectEngine_Reconcile cl api e revision desiredObject opts s = (r, s')"
  shows "sent s' = sent s \<and>
    (\<forall>res. r = Val res \<longrightarrow> result_Action res = ActionIdle \<and> result_Object res = ob_actual ob)"
  using run observes_sent [OF ob] unfolding observes_idle [OF ob own same] by (auto dest: new_result_Val)

lemma controlled_object_run:
  assumes ob: "observes cl api e revision desiredObject opts s ob s1"
    and own: "ob_situation ob = ctrlSituationIsController" "\<not> Paused (ob_options ob)"
      "repr (ob_desired ob) \<noteq> Structured"
    and mig: "migrateFieldManagersToSSA cl api e (ob_actual ob) (ob_options ob) s1 = (Val actual', s2)"
    and run: "ObjectEngine_Reconcile cl api e revision desiredObject opts s = (r, s')"
    and differs: "IsConflict (ob_compare ob) \<or> CompareResult_Modified (ob_compare ob) \<noteq> []"
  shows "sent s' = sent s2 @ [(writer e,
           Apply ((ob_desired ob)\<lparr>GetResourceVersion := GetResourceVersion actual'\<rparr>)
             (apply_opts e (IsConflict (ob_compare ob))))] \<and>
    (\<forall>res. r = Val res \<longrightarrow> result_Action res =
      (if IsConflict (ob_compare ob) then ActionRecovered else ActionUpdated))"
proof -
  obtain rep d' w where sv: "serve cl (writer e)
      (Apply ((ob_desired ob)\<lparr>GetResourceVersion := GetResourceVersion actual'\<rparr>)
         (apply_opts e (IsConflict (ob_compare ob)))) (world s2) = ((rep, d'), w)"
    by (metis surj_pair)
  with run [unfolded observes_run [OF ob]] own ob mig differs show ?thesis
    by (cases rep)
      (auto simp: observes_def objectUpdateHandling_def modified_iff [symmetric] apply_object_unpaused
        wrap_err_def bind_def send_def send_raw_def ret_def fail_def lift_def Let_def
        split: if_splits dest: new_result_Val)
qed

lemma controlled_object_paused:
  assumes ob: "observes cl api e revision desiredObject opts s ob s1"
    and own: "ob_situation ob = ctrlSituationIsController" "Paused (ob_options ob)"
    and run: "ObjectEngine_Reconcile cl api e revision desiredObject opts s = (r, s')"
    and differs: "IsConflict (ob_compare ob) \<or> CompareResult_Modified (ob_compare ob) \<noteq> []"
  shows "sent s' = sent s \<and> (\<forall>res. r = Val res \<longrightarrow> result_Action res =
      (if IsConflict (ob_compare ob) then ActionRecovered else ActionUpdated))"
  using run [unfolded observes_run [OF ob]] own ob differs observes_sent [OF ob]
  by (auto simp: observes_def objectUpdateHandling_def modified_iff [symmetric] wrap_err_def bind_def
      ret_def lift_def Let_def split: if_splits dest: new_result_Val)

lemma controlled_object_unapplied:
  assumes ob: "observes cl api e revision desiredObject opts s ob s1"
    and own: "ob_situation ob = ctrlSituationIsController" "\<not> Paused (ob_options ob)"
    and mig: "migrateFieldManagersToSSA cl api e (ob_actual ob) (ob_options ob) s1 = (m, s2)"
    and no: "repr (ob_desired ob) = Structured \<or> (\<forall>a. m \<noteq> Val a)"
    and run: "ObjectEngine_Reconcile cl api e revision desiredObject opts s = (r, s')"
    and differs: "IsConflict (ob_compare ob) \<or> CompareResult_Modified (ob_compare ob) \<noteq> []"
  shows "sent s' = sent s2 \<and> (\<forall>res. r \<noteq> Val res)"
  using run [unfolded observes_run [OF ob]] own ob mig differs no
  by (cases m)
    (auto simp: observes_def objectUpdateHandling_def modified_iff [symmetric] apply_object_unpaused
        wrap_err_def bind_def ret_def fail_def lift_def Let_def split: if_splits)

text \<open>C7: an object the owner controls is written exactly when it has to be. Nothing is sent when no
  other manager contests a field and nothing was modified, and the action is then idle. Otherwise,
  when the options say paused, nothing is sent either and the result only says what would have been
  done. When they do not, the field managers are migrated first: if that fails, or if the desired
  object is a typed one, no further request follows and the run ends in an error; else exactly one
  server-side apply follows, it carries the resource version last seen, and it forces ownership
  exactly when fields are contested.\<close>

theorem Reconcile_controlled_object:
  assumes ob: "observes cl api e revision desiredObject opts s ob s1"
    and own: "ob_situation ob = ctrlSituationIsController"
    and mig: "migrateFieldManagersToSSA cl api e (ob_actual ob) (ob_options ob) s1 = (m, s2)"
    and run: "ObjectEngine_Reconcile cl api e revision desiredObject opts s = (r, s')"
  shows "if \<not> IsConflict (ob_compare ob) \<and> CompareResult_Modified (ob_compare ob) = []
    then sent s' = sent s \<and>
         (\<forall>res. r = Val res \<longrightarrow> result_Action res = ActionIdle \<and> result_Object res = ob_actual ob)
    else (\<forall>res. r = Val res \<longrightarrow> result_Action res =
           (if IsConflict (ob_compare ob) then ActionRecovered else ActionUpdated)) \<and>
         (if Paused (ob_options ob) then sent s' = sent s
          else if repr (ob_desired ob) = Structured then sent s' = sent s2 \<and> (\<forall>res. r \<noteq> Val res)
          else case m of
            Val actual' \<Rightarrow> sent s' = sent s2 @ [(writer e,
              Apply ((ob_desired ob)\<lparr>GetResourceVersion := GetResourceVersion actual'\<rparr>)
                (apply_opts e (IsConflict (ob_compare ob))))]
          | _ \<Rightarrow> sent s' = sent s2 \<and> (\<forall>res. r \<noteq> Val res))"
proof (cases "\<not> IsConflict (ob_compare ob) \<and> CompareResult_Modified (ob_compare ob) = []")
  case True
  with controlled_object_idle [OF ob own _ _ run] show ?thesis by simp
next
  case False
  then have differs: "IsConflict (ob_compare ob) \<or> CompareResult_Modified (ob_compare ob) \<noteq> []" by simp
  show ?thesis
  proof (cases "Paused (ob_options ob)")
    case True
    with controlled_object_paused [OF ob own True run differs] False show ?thesis by auto
  next
    case live: False
    show ?thesis
    proof (cases "repr (ob_desired ob) = Structured \<or> (\<forall>a. m \<noteq> Val a)")
      case True
      with controlled_object_unapplied [OF ob own live mig True run differs] False live show ?thesis
        by (cases m) auto
    next
      case applied: False
      then obtain actual' where "m = Val actual'" by blast
      with controlled_object_run [OF ob own live _ _ run differs] mig applied False live show ?thesis
        by auto
    qed
  qed
qed

theorem Reconcile_controlled_object_witness:
  "sent (snd (ObjectEngine_Reconcile sample_cluster sample_api (sample_engine contested) 3 sample_object
      (sample_opts CollisionProtectionPrevent) (sample_st [sample_controlled]))) =
    [(Writer 0, Apply (sample_prepared\<lparr>GetResourceVersion := ''7''\<rparr>)
       (apply_opts (sample_engine contested) True))]"
  using Reconcile_controlled_object [OF sample_observes(2) _ _ prod.collapse [symmetric],
      of CollisionProtectionPrevent contested "Val sample_controlled" "sample_st [sample_controlled]"]
  by (simp add: sample_ob_def sample_options_def sample_prepared_def sample_object_def
      migrate_nothing ret_def contested_def IsConflict_def sample_controlled_def)

section \<open>Adoption\<close>

lemma adoption_run:
  assumes ob: "observes cl api e revision desiredObject opts s ob s1"
    and may: "ob_may_adopt e revision ob" "\<not> Paused (ob_options ob)"
    and adopted: "adopted_object e revision (ob_desired ob) (ob_actual ob) (ob_options ob) = Val d"
      "repr d \<noteq> Structured"
    and mig: "migrateFieldManagersToSSA cl api e (ob_actual ob) (ob_options ob) s1 = (Val actual', s2)"
    and run: "ObjectEngine_Reconcile cl api e revision desiredObject opts s = (r, s')"
  shows "sent s' = sent s2 @ [(writer e,
      Apply (d\<lparr>GetResourceVersion := GetResourceVersion actual'\<rparr>) (apply_opts e True))] \<and>
    (\<forall>res. r = Val res \<longrightarrow> result_Action res = ActionUpdated)"
proof -
  obtain rep d' w where sv: "serve cl (writer e)
      (Apply (d\<lparr>GetResourceVersion := GetResourceVersion actual'\<rparr>) (apply_opts e True)) (world s2)
      = ((rep, d'), w)"
    by (metis surj_pair)
  with run may(2) adopted mig show ?thesis
    unfolding observes_adopt [OF ob may(1)] objectAdoptionHandling_def
    by (cases rep)
      (auto simp: apply_object_unpaused wrap_err_def bind_def send_def send_raw_def ret_def fail_def
        lift_def dest: new_result_Val)
qed

context owner_strategy
begin

text \<open>The object applied by an adoption has the owner as its only controller.\<close>

lemma adoption_request:
  assumes ob: "observes cl api e revision desiredObject opts s ob s1"
    and may: "ob_may_adopt e revision ob" "\<not> Paused (ob_options ob)"
    and owner: "Owner (ob_options ob) = Some owner" "OwnerStrategyOpt (ob_options ob) = Some S"
    and ok: "owner_ok owner (setObjectRevision e (ob_desired ob) revision)" "obj_ok (ob_actual ob)"
      "revisionAnnotation e \<notin> K" "repr (ob_desired ob) \<noteq> Structured"
    and mig: "migrateFieldManagersToSSA cl api e (ob_actual ob) (ob_options ob) s1 = (Val actual', s2)"
    and run: "ObjectEngine_Reconcile cl api e revision desiredObject opts s = (r, s')"
  shows "\<exists>d d' ref. sent s' = sent s2 @ [(writer e, Apply d (apply_opts e True))] \<and>
    adopt S owner (ob_actual ob) (setObjectRevision e (ob_desired ob) revision) = Val d' \<and>
    GetOwnerReferences d = GetOwnerReferences d' \<and>
    IsController S owner d = Val True \<and> GetController S d = Val (Some ref) \<and> or_UID ref = GetUID owner \<and>
    GetResourceVersion d = GetResourceVersion actual' \<and>
    map_get (GetAnnotations d) (revisionAnnotation e) = Some (FormatInt revision) \<and>
    content d = content (ob_desired ob)"
proof -
  let ?m = "setObjectRevision e (ob_desired ob) revision"
  obtain d ref where d: "adopt S owner (ob_actual ob) ?m = Val d" "same_but_owners K ?m d"
    "IsController S owner d = Val True" "GetController S d = Val (Some ref)" "or_UID ref = GetUID owner"
    using adopt_makes_controller [OF ok(1,2)] by blast
  have ad: "adopted_object e revision (ob_desired ob) (ob_actual ob) (ob_options ob) = Val d"
    using owner d(1) by (simp add: adopted_object_def deref_def)
  have "repr d \<noteq> Structured" "content d = content (ob_desired ob)"
    "map_get (GetAnnotations d) (revisionAnnotation e) = Some (FormatInt revision)"
    using same_but_owners_frame [OF d(2)] ok(3,4) by (auto simp: setObjectRevision_def)
  with adoption_run [OF ob may ad _ mig run] d(3-5) show ?thesis
    by (intro exI [of _ "d\<lparr>GetResourceVersion := GetResourceVersion actual'\<rparr>"] exI [of _ d]
        exI [of _ ref]) (simp add: reads_owners_only d(1))
qed

end

text \<open>C9: with the native strategy, when the policy allows adoption, the options do not say paused,
  the desired object is not a typed one and the migration of the field managers succeeds, the engine
  sends one more request, a forced server-side apply. In the applied object every owner reference
  with the controller flag is one to the owner and there is one, so the owner is its controller and
  no other is; it has the revision annotation of this revision, the content of the desired object
  and the resource version last seen, so that a change made in between makes the request fail.\<close>

theorem Reconcile_adopts_native:
  assumes "observes cl api e revision desiredObject opts s ob s1"
    and "ob_may_adopt e revision ob" "\<not> Paused (ob_options ob)"
    and "Owner (ob_options ob) = Some owner"
      "OwnerStrategyOpt (ob_options ob) = Some (OwnerStrategyNative api scr)"
    and "native_owner_ok api scr owner (setObjectRevision e (ob_desired ob) revision)"
      "native_obj_ok api (ob_actual ob)" "repr (ob_desired ob) \<noteq> Structured"
    and "migrateFieldManagersToSSA cl api e (ob_actual ob) (ob_options ob) s1 = (Val actual', s2)"
    and "ObjectEngine_Reconcile cl api e revision desiredObject opts s = (r, s')"
  shows "\<exists>d ref. sent s' = sent s2 @ [(writer e, Apply d (apply_opts e True))] \<and>
    Native_IsController api owner d = Val True \<and>
    Native_GetController d = Val (Some ref) \<and> or_UID ref = GetUID owner \<and>
    (\<exists>r\<in>set (GetOwnerReferences d). is_ctrl r) \<and>
    (\<forall>r\<in>set (GetOwnerReferences d). is_ctrl r \<longrightarrow> or_UID r = GetUID owner) \<and>
    GetResourceVersion d = GetResourceVersion actual' \<and>
    map_get (GetAnnotations d) (revisionAnnotation e) = Some (FormatInt revision) \<and>
    content d = content (ob_desired ob)"
proof -
  obtain d d' ref where d: "sent s' = sent s2 @ [(writer e, Apply d (apply_opts e True))]"
    "adopt (OwnerStrategyNative api scr) owner (ob_actual ob)
       (setObjectRevision e (ob_desired ob) revision) = Val d'"
    "GetOwnerReferences d = GetOwnerReferences d'"
    "Native_IsController api owner d = Val True" "Native_GetController d = Val (Some ref)"
    "or_UID ref = GetUID owner" "GetResourceVersion d = GetResourceVersion actual'"
    "map_get (GetAnnotations d) (revisionAnnotation e) = Some (FormatInt revision)"
    "content d = content (ob_desired ob)"
    using native.adoption_request [OF assms(1-7) _ assms(8-10)]
    by (auto simp: OwnerStrategyNative_def)
  with native_adopt_controllers [OF assms(6,7) d(2)] show ?thesis by auto
qed

theorem Reconcile_adopts_native_witness:
  "\<exists>d ref. sent (snd (ObjectEngine_Reconcile sample_cluster sample_api (sample_engine contested) 3
        sample_object (sample_opts CollisionProtectionIfNoController) (sample_st [sample_actual]))) =
      [(Writer 0, Apply d (apply_opts (sample_engine contested) True))] \<and>
    Native_IsController sample_api sample_owner d = Val True \<and>
    Native_GetController d = Val (Some ref) \<and> or_UID ref = ''owner'' \<and>
    (\<forall>r\<in>set (GetOwnerReferences d). is_ctrl r \<longrightarrow> or_UID r = ''owner'') \<and> GetResourceVersion d = ''7''"
  using Reconcile_adopts_native [OF sample_observes(1) _ _ _ _ _ _ _ _ prod.collapse [symmetric],
      of CollisionProtectionIfNoController contested sample_owner sample_scr sample_actual
        "sample_st [sample_actual]"]
  by (auto simp: sample_ob_def ob_may_adopt_def may_adopt_def sample_options_def sample_strategy_def
      sample_owner_ok native_obj_ok_def isBoxcutterManaged_def sample_actual_def sample_object_def
      sample_prepared_def migrate_nothing ret_def sample_owner_def collision_protection_defs)

text \<open>The same with the annotation strategy, whose annotation must not be the revision
  annotation.\<close>

theorem Reconcile_adopts_annotation:
  assumes "observes cl api e revision desiredObject opts s ob s1"
    and "ob_may_adopt e revision ob" "\<not> Paused (ob_options ob)"
    and "Owner (ob_options ob) = Some owner"
      "OwnerStrategyOpt (ob_options ob) = Some (OwnerStrategyAnnotation api k)"
    and "annotation_owner_ok api owner (setObjectRevision e (ob_desired ob) revision)"
      "annotation_obj_ok k (ob_actual ob)" "revisionAnnotation e \<noteq> k" "repr (ob_desired ob) \<noteq> Structured"
    and "migrateFieldManagersToSSA cl api e (ob_actual ob) (ob_options ob) s1 = (Val actual', s2)"
    and "ObjectEngine_Reconcile cl api e revision desiredObject opts s = (r, s')"
  shows "\<exists>d ref. sent s' = sent s2 @ [(writer e, Apply d (apply_opts e True))] \<and>
    Annotation_IsController api k owner d = Val True \<and>
    Annotation_GetController k d = Val (Some ref) \<and> or_UID ref = GetUID owner \<and>
    GetResourceVersion d = GetResourceVersion actual' \<and>
    map_get (GetAnnotations d) (revisionAnnotation e) = Some (FormatInt revision) \<and>
    content d = content (ob_desired ob)"
  using annotation.adoption_request [OF assms(1-7) _ assms(9-11)] assms(8)
  by (auto simp: OwnerStrategyAnnotation_def)

definition sample_annotation_options :: ObjectReconcileOptions where
  "sample_annotation_options = (sample_options CollisionProtectionIfNoController)
    \<lparr>OwnerStrategyOpt := Some (OwnerStrategyAnnotation sample_api ''owners'')\<rparr>"

definition sample_annotation_opts :: "ObjectReconcileOption list" where
  "sample_annotation_opts =
    [OwnerReconcile sample_owner (Some (OwnerStrategyAnnotation sample_api ''owners'')),
     WithCollisionProtection CollisionProtectionIfNoController]"

lemma sample_annotation_ok:
  "annotation_owner_ok sample_api sample_owner obj"
  "GetAnnotations obj = None \<Longrightarrow> annotation_obj_ok ''owners'' obj"
  by (simp_all add: annotation_owner_ok_def annotation_obj_ok_def sample_owner_def ascii_def
      Annotation_getOwnerReferences_def ascii_refs_def parses_def ascii_ref_def owner_annotation_ref_def)

text \<open>What the annotation strategy prepares for the sample object.\<close>

lemma sample_annotation_observes:
  obtains d where "ToObjectRef d = ToObjectRef sample_object" "repr d = Unstructured"
    "observes sample_cluster sample_api (sample_engine contested) 3 sample_object sample_annotation_opts
      (sample_st [sample_actual])
      \<lparr>ob_options = sample_annotation_options, ob_desired = d, ob_actual = sample_actual,
       ob_situation = ctrlSituationNoController, ob_compare = contested, ob_controller = None,
       ob_revision = 0\<rparr> (sample_st [sample_actual])"
proof -
  let ?S = "OwnerStrategyAnnotation sample_api ''owners''"
  let ?m = "setObjectRevision (sample_engine contested) (setManagedBy (sample_engine contested) sample_object) 3"
  have m: "GetController ?S ?m = Val None" "annotation_obj_ok ''owners'' ?m"
    by (simp_all add: OwnerStrategyAnnotation_def Annotation_GetController_def annotation_obj_ok_def
        Annotation_getOwnerReferences_def setObjectRevision_def setManagedBy_def sample_object_def
        map_index_def ascii_refs_def)
  obtain d where d: "SetControllerReference ?S sample_owner ?m = Val d" "same_but_owners {''owners''} ?m d"
    using annotation.set_ok [OF sample_annotation_ok(1) m(2,1)] by blast
  have ref: "ToObjectRef d = ToObjectRef sample_object" "repr d = Unstructured"
    using same_but_owners_frame(1,9) [OF d(2)]
    by (simp_all add: setManagedBy_def ToObjectRef_eq_iff sample_object_def)
  have prep: "prepare_desired sample_api (sample_engine contested) 3 sample_object
      sample_annotation_options = Val d"
    using d(1)
    by (simp add: prepare_desired_def sample_annotation_options_def sample_options_def deref_def
        ensureGVKIsSet_def setManagedBy_def sample_object_def emptyGVK_def)
  have "stored d [sample_actual] = Some sample_actual"
    using ref(1) by (simp add: stored_def sample_actual_def sample_object_def ToObjectRef_eq_iff)
  moreover have "GetController ?S sample_actual = Val None"
    by (simp add: OwnerStrategyAnnotation_def Annotation_GetController_def
        Annotation_getOwnerReferences_def sample_actual_def sample_object_def)
  ultimately have "observes sample_cluster sample_api (sample_engine contested) 3 sample_object
      sample_annotation_opts (sample_st [sample_actual])
      \<lparr>ob_options = sample_annotation_options, ob_desired = d, ob_actual = sample_actual,
       ob_situation = ctrlSituationNoController, ob_compare = contested, ob_controller = None,
       ob_revision = 0\<rparr> (sample_st [sample_actual])"
    using prep
    by (simp add: observes_def read_object_def sample_st_def sample_revisions checkSituation_def
        sample_annotation_options_def sample_options_def deref_def detectOwner_def WithOwner_def
        sample_annotation_opts_def ObjectReconcileOptions_Default_def object_reconcile_options_def
        zero_ObjectReconcileOptions_def sample_owner_def collision_protection_defs)
  with ref that show thesis by blast
qed

theorem Reconcile_adopts_annotation_witness:
  "\<exists>d ref. sent (snd (ObjectEngine_Reconcile sample_cluster sample_api (sample_engine contested) 3
        sample_object sample_annotation_opts (sample_st [sample_actual]))) =
      [(Writer 0, Apply d (apply_opts (sample_engine contested) True))] \<and>
    Annotation_IsController sample_api ''owners'' sample_owner d = Val True \<and>
    Annotation_GetController ''owners'' d = Val (Some ref) \<and> or_UID ref = ''owner''"
proof -
  obtain d where "repr d = Unstructured" and ob:
    "observes sample_cluster sample_api (sample_engine contested) 3 sample_object sample_annotation_opts
      (sample_st [sample_actual])
      \<lparr>ob_options = sample_annotation_options, ob_desired = d, ob_actual = sample_actual,
       ob_situation = ctrlSituationNoController, ob_compare = contested, ob_controller = None,
       ob_revision = 0\<rparr> (sample_st [sample_actual])"
    by (rule sample_annotation_observes)
  then show ?thesis
    using Reconcile_adopts_annotation [OF ob _ _ _ _ _ _ _ _ _ prod.collapse [symmetric],
        of sample_owner "''owners''" sample_actual "sample_st [sample_actual]"]
    by (auto simp: ob_may_adopt_def may_adopt_def sample_annotation_options_def sample_options_def
        sample_annotation_ok isBoxcutterManaged_def migrate_nothing ret_def)
qed

text \<open>C37: the revision written by setObjectRevision is the one getObjectRevision reads, for every
  int64, and it marks the object as managed.\<close>

theorem revision_round_trip:
  assumes "in_int64 revision"
  shows "getObjectRevision e (setObjectRevision e obj revision) = Val revision \<and>
    isBoxcutterManaged e (setObjectRevision e obj revision)"
  using ParseInt_FormatInt [OF assms]
  by (simp add: getObjectRevision_def setObjectRevision_def isBoxcutterManaged_def)

theorem revision_round_trip_witness:
  "getObjectRevision (sample_engine no_diff) (setObjectRevision (sample_engine no_diff) sample_object
    (2 ^ 63 - 1)) = Val (2 ^ 63 - 1)"
  using revision_round_trip [of "2 ^ 63 - 1" "sample_engine no_diff" sample_object]
  by (simp add: int64_defs)

text \<open>The classification of the controller. It reports the reference the strategy finds;
  the owner counts as controller only if the strategy says so, a sibling only if the owner is not
  the controller and the classifier accepts the reference.\<close>

theorem detectOwner_classifies:
  assumes "detectOwner owner S actual classifier = Val (sit, ref)"
  shows "GetController S actual = Val ref \<and>
    (sit = ctrlSituationNoController \<longleftrightarrow> ref = None) \<and>
    (sit = ctrlSituationIsController \<longleftrightarrow> ref \<noteq> None \<and> IsController S owner actual = Val True) \<and>
    (sit = ctrlSituationSiblingIsController \<longleftrightarrow>
       (\<exists>r classify. ref = Some r \<and> classifier = Some classify \<and> classify r \<and>
          IsController S owner actual = Val False))"
proof (cases "GetController S actual")
  case (Val c)
  show ?thesis
  proof (cases c)
    case (Some r)
    with assms Val show ?thesis
      by (cases "IsController S owner actual"; cases classifier)
        (auto simp: detectOwner_def split: if_splits)
  qed (use assms Val in \<open>auto simp: detectOwner_def\<close>)
qed (use assms in \<open>auto simp: detectOwner_def\<close>)

theorem detectOwner_classifies_witness:
  "GetController sample_strategy sample_controlled = Val (Some (sample_ref sample_owner))"
  using detectOwner_classifies [of sample_owner sample_strategy sample_controlled None
      ctrlSituationIsController "Some (sample_ref sample_owner)"]
  by (simp add: detectOwner_def sample_controllers)

section \<open>Creating\<close>

text \<open>An object the cache does not have is created, never applied: the first request is a create
  under the engine's field owner. When the cluster answers that the object exists, the run fails
  with a create collision if there is no unfiltered reader, and otherwise goes on exactly as for an
  object found in the cache, so collision protection decides.\<close>

theorem Reconcile_create_collision:
  assumes opts: "ObjectReconcileOptions_Default (object_reconcile_options opts) = Val options"
    and prep: "prepare_desired api e revision desiredObject options = Val d"
    and miss: "read_object cl (cache e) d s = (Fail err, s1)" "IsNotFound api err"
    and create: "serve cl (writer e) (Create d \<lparr>FieldOwner = Some (fieldOwner e),
        ForceOwnership = False, DryRunAll = Paused options\<rparr>) (world s1) = ((Some exists, d'), w)"
      "IsAlreadyExists api exists"
  defines "s2 \<equiv> s1\<lparr>world := w, sent := sent s @ [(writer e, Create d \<lparr>FieldOwner = Some (fieldOwner e),
        ForceOwnership = False, DryRunAll = Paused options\<rparr>)]\<rparr>"
  shows "ObjectEngine_Reconcile cl api e revision desiredObject opts s =
    (case unfilteredReader e of
       None \<Rightarrow> (Fail (CreateCollisionError d' exists), s2)
     | Some reader \<Rightarrow>
         (case read_object cl reader d' s2 of
            (Val actual, s3) \<Rightarrow> objectUpdateHandling cl api e revision d' actual options s3
          | (Fail err', s3) \<Rightarrow> (Fail (Wrap ''getting object after create collision'' err'), s3)
          | (Panics p, s3) \<Rightarrow> (Panics p, s3)))"
proof -
  have "sent s1 = sent s" using miss(1) by (auto simp: read_object_def split: prod.splits sum.splits)
  then have "ObjectEngine_Reconcile cl api e revision desiredObject opts s =
      reconcile_created cl api e revision options (Some exists, d') s2"
    using opts prep miss create(1)
    by (simp add: ObjectEngine_Reconcile_def attempt_def reconcile_create_eq bind_send_raw s2_def)
  with create(2) show ?thesis
    by (auto simp: reconcile_created_def fail_def bind_def wrap_err_def
        split: option.splits prod.splits outcome.splits)
qed

theorem Reconcile_create_collision_witness:
  "fst (ObjectEngine_Reconcile
     (sample_cluster\<lparr>fetch := \<lambda>r into w. (Inl (StatusError ''NotFound'' []), w)\<rparr>) sample_api
     (sample_engine no_diff) 3 sample_object (sample_opts CollisionProtectionPrevent)
     (sample_st [sample_actual])) =
   Fail (CreateCollisionError sample_prepared (StatusError ''AlreadyExists'' []))"
  by (subst Reconcile_create_collision [OF sample_default sample_prepare])
    (auto simp: read_object_def sample_stored)

section \<open>Completeness\<close>

definition probed :: "ObjectReconcileOptions \<Rightarrow> ObjectResult \<Rightarrow> bool" where
  "probed options res \<longleftrightarrow> result_options res = options \<and>
    runProbes (result_Object res) (Probes options) = Val (result_ProbeResults res)"

lemma new_result_probed:
  "newObjectResultCreated obj opts = Val r \<Longrightarrow> probed opts r"
  "newObjectResultUpdated obj cr opts = Val r \<Longrightarrow> probed opts r"
  "newObjectResultProgressed obj cr opts = Val r \<Longrightarrow> probed opts r"
  "newObjectResultIdle obj cr opts = Val r \<Longrightarrow> probed opts r"
  "newObjectResultRecovered obj cr opts = Val r \<Longrightarrow> probed opts r"
  "newObjectResultConflict obj cr ref opts = Val r \<Longrightarrow> probed opts r"
  unfolding probed_def by (auto dest: new_result_Val)

lemma yields_case_ctrl:
  "yields P a \<Longrightarrow> yields P b \<Longrightarrow> yields P c \<Longrightarrow> yields P d \<Longrightarrow>
    yields P (case sit of ctrlSituationIsController \<Rightarrow> a | ctrlSituationSiblingIsController \<Rightarrow> b
      | ctrlSituationUnknownController \<Rightarrow> c | ctrlSituationNoController \<Rightarrow> d)"
  by (cases sit) auto

lemma yields_adoption: "yields (probed options) (objectAdoptionHandling cl api e cr n d actual options)"
  unfolding objectAdoptionHandling_def by (intro yields_rules) (auto intro: new_result_probed)

lemma yields_update: "yields (probed options) (objectUpdateHandling cl api e n d actual options)"
  unfolding objectUpdateHandling_def Let_def
  by (intro yields_bind yields_case_prod yields_case_ctrl yields_if yields_adoption yields_lift)
    (auto intro: new_result_probed)

lemma yields_create: "yields (probed options) (reconcile_create cl api e n d options)"
  unfolding reconcile_create_eq reconcile_created_def
  by (intro yields_rules yields_update) (auto intro: new_result_probed)

lemma yields_Reconcile:
  "yields (\<lambda>res. \<exists>options. ObjectReconcileOptions_Default (object_reconcile_options opts) = Val options \<and>
     probed options res) (ObjectEngine_Reconcile cl api e n d opts)"
proof (rule yieldsI)
  fix s res s'
  assume "ObjectEngine_Reconcile cl api e n d opts s = (Val res, s')"
  then show "\<exists>options. ObjectReconcileOptions_Default (object_reconcile_options opts) = Val options \<and>
     probed options res"
    by (cases rule: Reconcile_cases) (auto dest: yieldsD [OF yields_create] yieldsD [OF yields_update])
qed

text \<open>C24: a result that reports itself complete is not a collision; when paused, it says that there
  was nothing to do; and if a progress probe is set, that probe returned True on the very object
  the result carries.\<close>

theorem Reconcile_complete_sound:
  assumes "ObjectEngine_Reconcile cl api e revision desiredObject opts s = (Val res, s')"
    and "result_IsComplete res"
  shows "result_Action res \<noteq> ActionCollision \<and>
    (WithPaused \<in> set opts \<longrightarrow> result_Action res = ActionIdle \<or> result_Action res = ActionProgressed) \<and>
    (\<forall>probe. map_of (Probes (object_reconcile_options opts)) ProgressProbeType = Some (Some probe) \<longrightarrow>
       (\<exists>pr. probe (result_Object res) = Val pr \<and> Status pr = ProbeStatusTrue))"
proof -
  obtain options where options: "ObjectReconcileOptions_Default (object_reconcile_options opts) = Val options"
    "probed options res"
    using yieldsD [OF yields_Reconcile assms(1)] by blast
  with complete_result [OF assms(2)] Default_Owner [OF options(1)] Default_Paused [OF options(1)]
  show ?thesis by (auto simp: probed_def)
qed

theorem Reconcile_complete_sound_witness:
  "\<exists>res s'. ObjectEngine_Reconcile sample_cluster sample_api (sample_engine no_diff) 3 sample_object
      (sample_opts CollisionProtectionPrevent) (sample_st [sample_controlled]) = (Val res, s') \<and>
    result_IsComplete res \<and> result_Action res \<noteq> ActionCollision"
proof -
  obtain res s' where run: "ObjectEngine_Reconcile sample_cluster sample_api (sample_engine no_diff) 3
      sample_object (sample_opts CollisionProtectionPrevent) (sample_st [sample_controlled]) =
      (Val res, s')" and c: "result_IsComplete res"
    using observes_run [OF sample_observes(2) [of CollisionProtectionPrevent no_diff]]
      sample_observes(2) [of CollisionProtectionPrevent no_diff]
    by (auto simp: objectUpdateHandling_def observes_def sample_ob_def no_diff_def IsConflict_def
        new_result_defs lift_def sample_options_def result_IsComplete_def isComplete_def)
  from Reconcile_complete_sound [OF run c] run c show ?thesis by blast
qed

section \<open>Teardown\<close>

definition orphaning :: "apimachinery \<Rightarrow> ObjectTeardownOptions \<Rightarrow> bool" where
  "orphaning api options \<longleftrightarrow> Orphan options \<or>
    (case td_Owner options of None \<Rightarrow> False | Some owner \<Rightarrow> ContainsFinalizer api owner ''orphan'')"

text \<open>When the engine may delete the object it read.\<close>

definition may_delete :: "ObjectEngine \<Rightarrow> int \<Rightarrow> ObjectTeardownOptions \<Rightarrow> Object \<Rightarrow> bool" where
  "may_delete e revision options actual =
    (case td_Owner options of
       Some owner \<Rightarrow>
         (case td_OwnerStrategy options of
            None \<Rightarrow> False
          | Some S \<Rightarrow>
              (case GetController S actual of
                 Val (Some ref) \<Rightarrow> IsController S owner actual = Val True
               | _ \<Rightarrow> False))
     | None \<Rightarrow> getObjectRevision e actual = Val revision)"

definition delete_writer :: "ObjectEngine \<Rightarrow> ObjectTeardownOptions \<Rightarrow> Writer" where
  "delete_writer e options = (case TeardownWriter options of None \<Rightarrow> writer e | Some w \<Rightarrow> w)"

definition delete_request :: "Object \<Rightarrow> Object \<Rightarrow> request" where
  "delete_request desiredObject actual =
    Delete desiredObject \<lparr>pre_UID = GetUID actual, pre_ResourceVersion = GetResourceVersion actual\<rparr>"

lemma Teardown_cases:
  assumes "ObjectEngine_Teardown cl api e revision desiredObject opts s = (r, s')"
  obtains (early) "sent s' = sent s" "\<And>err. r \<noteq> Val (True, err)" "\<And>gone. r \<noteq> Val (gone, None)"
  | (orphan) options where
      "ObjectTeardownOptions_Default (object_teardown_options opts) = Val options" "orphaning api options"
      "attempt (removeBoxcutterManagedLabelsAndAnnotations cl e (writer e) desiredObject)
         (\<lambda>err. ret (False, Some err)) (\<lambda>_. ret (True, None)) s = (r, s')"
  | (missing) err s1 where "read_object cl (cache e) desiredObject s = (Fail err, s1)"
      "IsNoMatchError api err \<or> IsNotFound api err" "r = Val (True, None)" "sent s' = sent s"
  | (existing) options actual s1 where
      "ObjectTeardownOptions_Default (object_teardown_options opts) = Val options" "\<not> orphaning api options"
      "read_object cl (cache e) desiredObject s = (Val actual, s1)" "sent s1 = sent s"
      "teardown_existing cl api e revision desiredObject actual options s1 = (r, s')"
proof (cases "ObjectTeardownOptions_Default (object_teardown_options opts)")
  case (Val options)
  consider "revision = 0" | "revision \<noteq> 0" "orphaning api options" | "revision \<noteq> 0" "\<not> orphaning api options"
    by blast
  then show ?thesis
  proof cases
    case 1
    with assms Val early show ?thesis by (auto simp: ObjectEngine_Teardown_def panic_def)
  next
    case 2
    with assms Val orphan show ?thesis
      by (auto simp: ObjectEngine_Teardown_def orphaning_def [symmetric])
  next
    case 3
    obtain got s1 where got: "read_object cl (cache e) desiredObject s = (got, s1)" by fastforce
    then have s1: "sent s1 = sent s" by (auto simp: read_object_def split: prod.splits sum.splits)
    from 3 assms Val got have run: "(case got of
        Val actual \<Rightarrow> teardown_existing cl api e revision desiredObject actual options s1
      | Fail err \<Rightarrow> (if IsNoMatchError api err then ret (True, None)
                  else if IsNotFound api err then ret (True, None)
                  else ret (False, Some (Wrap ''getting object before deletion'' err))) s1
      | Panics p \<Rightarrow> (Panics p, s1)) = (r, s')"
      by (cases got) (auto simp: ObjectEngine_Teardown_def orphaning_def [symmetric] attempt_def)
    show ?thesis
    proof (cases got)
      case (Val actual)
      with run got s1 3 existing \<open>ObjectTeardownOptions_Default _ = _\<close> show ?thesis by auto
    next
      case (Fail err)
      with run got s1 early missing show ?thesis by (auto simp: ret_def split: if_splits)
    next
      case (Panics p)
      with run s1 early show ?thesis by auto
    qed
  qed
qed (use assms early in \<open>auto simp: ObjectEngine_Teardown_def eff_simps\<close>)

lemma remove_marks_run:
  "removeBoxcutterManagedLabelsAndAnnotations cl e w obj s = (r, s') \<Longrightarrow>
    sent s' = sent s @ [(w, Patch
      (obj\<lparr>GetLabels := map_delete (map_delete (GetLabels obj) managedByLabel) boxcutterManagedLabel\<rparr>)
      (MergeFrom (obj\<lparr>GetAnnotations := map_delete (GetAnnotations obj) (revisionAnnotation e)\<rparr>))
      no_opts)]"
  by (auto simp: removeBoxcutterManagedLabelsAndAnnotations_def Let_def bind_def wrap_err_def send_def
      send_raw_def ret_def fail_def split: prod.splits option.splits outcome.splits)

lemma teardown_delete_run:
  "teardown_delete cl api e d actual options s =
    (case serve cl (delete_writer e options) (delete_request d actual) (world s) of ((err, obj), w) \<Rightarrow>
      (Val (case err of
              None \<Rightarrow> (False, None)
            | Some er \<Rightarrow> if IsNotFound api er then (True, None)
                         else (False, Some (Wrap ''deleting object'' er))),
       s\<lparr>world := w, sent := sent s @ [(delete_writer e options, delete_request d actual)]\<rparr>))"
  by (auto simp: teardown_delete_def Let_def delete_writer_def delete_request_def attempt_def send_def
      bind_def send_raw_def ret_def fail_def split: prod.splits option.splits)

definition orphan_patch :: "ObjectEngine \<Rightarrow> Object \<Rightarrow> request" where
  "orphan_patch e obj =
    Patch (obj\<lparr>GetLabels := map_delete (map_delete (GetLabels obj) managedByLabel) boxcutterManagedLabel\<rparr>)
      (MergeFrom (obj\<lparr>GetAnnotations := map_delete (GetAnnotations obj) (revisionAnnotation e)\<rparr>))
      no_opts"

lemma detectOwner_may_delete:
  assumes "detectOwner owner S actual None = Val (sit, ref)"
    and "td_Owner options = Some owner" "td_OwnerStrategy options = Some S"
  shows "sit = ctrlSituationIsController \<longleftrightarrow> may_delete e revision options actual"
proof (cases "GetController S actual")
  case (Val c)
  with assms show ?thesis
    by (cases c; cases "IsController S owner actual")
      (auto simp: detectOwner_def may_delete_def split: if_splits)
qed (use assms in \<open>auto simp: detectOwner_def\<close>)

text \<open>The three ways to handle an object that was read.\<close>

lemma teardown_existing_cases:
  assumes run: "teardown_existing cl api e revision d actual options s = (r, s')"
  obtains (delete) "may_delete e revision options actual"
      "teardown_delete cl api e d actual options s = (r, s')"
  | (release) owner S p where "\<not> may_delete e revision options actual"
      "td_Owner options = Some owner" "td_OwnerStrategy options = Some S"
      "RemoveOwner S owner actual = Val p"
      "attempt (send cl (writer e) (Patch p (MergeFrom actual) no_opts))
         (\<lambda>err. ret (True, Some err)) (\<lambda>_. ret (True, None)) s = (r, s')"
  | (silent) "\<not> may_delete e revision options actual" "s' = s"
      "r = Val (True, err) \<Longrightarrow> td_Owner options = None \<and> err = None" "r \<noteq> Val (False, None)"
  | (stopped) "s' = s" "\<And>err. r \<noteq> Val (True, err)" "\<And>gone. r \<noteq> Val (gone, None)"
proof (cases "td_Owner options")
  case None
  show ?thesis
  proof (cases "getObjectRevision e actual")
    case (Val n)
    with None run delete silent show ?thesis
      by (cases "n = revision")
        (auto simp: teardown_existing_def attempt_def lift_def ret_def may_delete_def)
  qed (use None run stopped in \<open>auto simp: teardown_existing_def attempt_def lift_def ret_def\<close>)
next
  case (Some owner)
  show ?thesis
  proof (cases "td_OwnerStrategy options")
    case None
    with Some run stopped show ?thesis
      by (auto simp: teardown_existing_def deref_def bind_def lift_def)
  next
    case S: (Some S)
    show ?thesis
    proof (cases "detectOwner owner S actual None")
      case (Val x)
      obtain sit ref where x: "x = (sit, ref)" by fastforce
      note md = detectOwner_may_delete [OF Val [unfolded x] Some S, of e revision]
      show ?thesis
      proof (cases "sit = ctrlSituationIsController")
        case True
        with md Val x Some S run delete show ?thesis by (simp add: teardown_existing_def deref_def)
      next
        case False
        with md Val x Some S run release stopped show ?thesis
          by (cases "RemoveOwner S owner actual") (auto simp: teardown_existing_def deref_def bind_def lift_def)
      qed
    qed (use Some S run stopped in \<open>auto simp: teardown_existing_def deref_def bind_def lift_def\<close>)
  qed
qed

definition teardown_request ::
  "'w cluster \<Rightarrow> apimachinery \<Rightarrow> ObjectEngine \<Rightarrow> int \<Rightarrow> Object \<Rightarrow> ObjectTeardownOption list \<Rightarrow> 'w st \<Rightarrow>
    Writer \<times> request \<Rightarrow> bool" where
  "teardown_request cl api e revision desiredObject opts s wr \<longleftrightarrow>
    (let options = object_teardown_options opts
     in if orphaning api options then wr = (writer e, orphan_patch e desiredObject)
        else case fetch cl (cache e) desiredObject (world s) of
               (Inl err, w) \<Rightarrow> False
             | (Inr actual, w) \<Rightarrow>
                 if may_delete e revision options actual
                 then wr = (delete_writer e options, delete_request desiredObject actual)
                 else (\<exists>owner S p. td_Owner options = Some owner \<and> td_OwnerStrategy options = Some S \<and>
                         RemoveOwner S owner actual = Val p \<and>
                         wr = (writer e, Patch p (MergeFrom actual) no_opts)))"

lemma Teardown_Default: "ObjectTeardownOptions_Default opts = Val options \<Longrightarrow> options = opts"
  by (simp add: ObjectTeardownOptions_Default_def split: if_splits)

lemma attempt_send_sent:
  "attempt (send cl w req) (\<lambda>err. ret (f err)) (\<lambda>obj. ret (g obj)) s = (r, s') \<Longrightarrow>
    sent s' = sent s @ [(w, req)]"
  by (auto simp: attempt_def send_def bind_def send_raw_def ret_def fail_def
      split: prod.splits option.splits)

text \<open>C2: a teardown sends at most one request. It deletes only an object it has just read, only when
  the owner controls that object (or, without an owner, when the object bears this revision), and
  with the UID and the resource version it read as preconditions; an object controlled by somebody
  else only loses the reference to the owner; while orphaning, nothing is deleted.\<close>

theorem Teardown_requests:
  assumes "ObjectEngine_Teardown cl api e revision desiredObject opts s = (r, s')"
  shows "sent s' = sent s \<or>
    (\<exists>wr. sent s' = sent s @ [wr] \<and> teardown_request cl api e revision desiredObject opts s wr)"
  using assms
proof (cases rule: Teardown_cases)
  case (orphan options)
  then show ?thesis
    using Teardown_Default [OF orphan(1)]
    by (cases "removeBoxcutterManagedLabelsAndAnnotations cl e (writer e) desiredObject s")
      (auto simp: attempt_def ret_def teardown_request_def orphan_patch_def
        split: outcome.splits dest!: remove_marks_run)
next
  case (existing options actual s1)
  obtain w where f: "fetch cl (cache e) desiredObject (world s) = (Inr actual, w)"
    using existing(3) by (auto simp: read_object_Val)
  note d = Teardown_Default [OF existing(1)]
  from existing(5) show ?thesis
  proof (cases rule: teardown_existing_cases)
    case delete
    with f d existing(2,4) show ?thesis
      by (auto simp: teardown_request_def teardown_delete_run split: prod.splits)
  next
    case (release owner S p)
    with f d existing(2,4) attempt_send_sent [OF release(5)] show ?thesis
      by (auto simp: teardown_request_def)
  qed (use existing(4) in auto)
qed auto

definition sample_teardown_opts :: "ObjectTeardownOption list" where
  "sample_teardown_opts = [OwnerTeardown sample_owner (Some sample_strategy)]"

lemma sample_teardown_options:
  "object_teardown_options sample_teardown_opts =
    \<lparr>Orphan = False, TeardownWriter = None, td_Owner = Some sample_owner,
     td_OwnerStrategy = Some sample_strategy\<rparr>"
  by (simp add: sample_teardown_opts_def object_teardown_options_def zero_ObjectTeardownOptions_def)

lemma sample_may_delete:
  "may_delete e n (object_teardown_options sample_teardown_opts) sample_controlled"
  "\<not> orphaning sample_api (object_teardown_options sample_teardown_opts)"
  by (simp_all add: sample_teardown_options may_delete_def sample_controllers orphaning_def)

theorem Teardown_requests_witness:
  "(let t = snd (ObjectEngine_Teardown sample_cluster sample_api (sample_engine no_diff) 3 sample_object
        sample_teardown_opts (sample_st [sample_controlled]))
    in sent t = [] \<or> sent t = [(Writer 0, delete_request sample_object sample_controlled)])"
  using Teardown_requests [OF prod.collapse [symmetric], of sample_cluster sample_api
      "sample_engine no_diff" 3 sample_object sample_teardown_opts "sample_st [sample_controlled]"]
  by (auto simp: Let_def teardown_request_def sample_stored sample_teardown_options delete_writer_def
      sample_may_delete [unfolded sample_teardown_options])

text \<open>A delete that the cluster accepted does not count as gone: the object is reported gone only
  when a later read or delete answers that it does not exist.\<close>

theorem Teardown_waits_for_not_found:
  assumes "ObjectTeardownOptions_Default (object_teardown_options opts) = Val options"
    and "revision \<noteq> 0" "\<not> orphaning api options"
    and "fetch cl (cache e) desiredObject (world s) = (Inr actual, w1)"
    and "may_delete e revision options actual"
    and "serve cl (delete_writer e options) (delete_request desiredObject actual) w1 = ((err, obj), w2)"
  shows "fst (ObjectEngine_Teardown cl api e revision desiredObject opts s) =
    Val (case err of
           None \<Rightarrow> (False, None)
         | Some er \<Rightarrow> if IsNotFound api er then (True, None)
                      else (False, Some (Wrap ''deleting object'' er)))"
proof -
  have rd: "read_object cl (cache e) desiredObject s = (Val actual, s\<lparr>world := w1\<rparr>)"
    using assms(4) by (simp add: read_object_def)
  have "teardown_existing cl api e revision desiredObject actual options (s\<lparr>world := w1\<rparr>) =
      teardown_delete cl api e desiredObject actual options (s\<lparr>world := w1\<rparr>)"
  proof (cases "td_Owner options")
    case None
    with assms(5) show ?thesis by (auto simp: teardown_existing_def may_delete_def attempt_def lift_def)
  next
    case (Some owner)
    then obtain S sit ref where S: "td_OwnerStrategy options = Some S"
      "detectOwner owner S actual None = Val (sit, ref)"
      using assms(5) by (auto simp: may_delete_def detectOwner_def split: option.splits outcome.splits)
    with detectOwner_may_delete [OF S(2) Some S(1)] assms(5) Some show ?thesis
      by (simp add: teardown_existing_def deref_def)
  qed
  with assms rd show ?thesis
    by (simp add: ObjectEngine_Teardown_def orphaning_def [symmetric] attempt_def teardown_delete_run)
qed

theorem Teardown_waits_for_not_found_witness:
  "fst (ObjectEngine_Teardown sample_cluster sample_api (sample_engine no_diff) 3 sample_object
     sample_teardown_opts (sample_st [sample_controlled])) = Val (False, None)"
  using Teardown_waits_for_not_found [of sample_teardown_opts
      "object_teardown_options sample_teardown_opts" 3 sample_api sample_cluster "sample_engine no_diff"
      sample_object "sample_st [sample_controlled]" sample_controlled "[sample_controlled]"]
  by (simp add: sample_may_delete sample_stored ObjectTeardownOptions_Default_def
      delete_request_def)
    (simp add: sample_teardown_options sample_controlled_def)

text \<open>Orphaning removes the two labels from the patched object but not the revision annotation:
  the annotation is deleted from the base of the merge patch instead, so the patched object keeps
  the value the desired object had, and the base never has one that the patch could remove.\<close>

theorem orphan_patch_keeps_revision_annotation:
  assumes "ObjectTeardownOptions_Default (object_teardown_options opts) = Val options"
    and "revision \<noteq> 0" "orphaning api options"
    and "ObjectEngine_Teardown cl api e revision desiredObject opts s = (r, s')"
  shows "\<exists>updated base. sent s' = sent s @ [(writer e, Patch updated (MergeFrom base) no_opts)] \<and>
    map_get (GetLabels updated) managedByLabel = None \<and>
    map_get (GetLabels updated) boxcutterManagedLabel = None \<and>
    map_get (GetAnnotations updated) (revisionAnnotation e) =
      map_get (GetAnnotations desiredObject) (revisionAnnotation e) \<and>
    map_get (GetAnnotations base) (revisionAnnotation e) = None"
proof -
  obtain r' s1 where run:
    "removeBoxcutterManagedLabelsAndAnnotations cl e (writer e) desiredObject s = (r', s1)" by fastforce
  have "s' = s1"
    using assms run
    by (cases r') (auto simp: ObjectEngine_Teardown_def orphaning_def [symmetric] attempt_def ret_def)
  with remove_marks_run [OF run] show ?thesis by simp
qed

definition sample_orphan :: "ObjectTeardownOption list" where
  "sample_orphan = [WithOrphan]"

theorem orphan_patch_keeps_revision_annotation_witness:
  "\<exists>updated base. sent (snd (ObjectEngine_Teardown sample_cluster sample_api (sample_engine no_diff) 3
      sample_controlled sample_orphan (sample_st [sample_controlled]))) =
      [(Writer 0, Patch updated (MergeFrom base) no_opts)] \<and>
    map_get (GetAnnotations updated) ''pko/revision'' = Some ''3'' \<and>
    map_get (GetAnnotations base) ''pko/revision'' = None"
  using orphan_patch_keeps_revision_annotation [OF _ _ _ prod.collapse [symmetric], of sample_orphan
      "object_teardown_options sample_orphan" 3 sample_api sample_cluster "sample_engine no_diff"
      sample_controlled "sample_st [sample_controlled]"]
  by (auto simp: ObjectTeardownOptions_Default_def object_teardown_options_def sample_orphan_def
      zero_ObjectTeardownOptions_def orphaning_def sample_controlled_def sample_prepared_def)

section \<open>What the phase engine relies on\<close>

text \<open>A predicate that holds of every request reconciling can send.\<close>

lemma keeps_Reconcile:
  assumes cr: "\<And>d. P (writer e, Create d \<lparr>FieldOwner = Some (fieldOwner e), ForceOwnership = False,
        DryRunAll = WithPaused \<in> set opts\<rparr>)"
    and patch: "\<And>d j. WithPaused \<notin> set opts \<Longrightarrow> P (writer e, Patch d (RawPatch JSONPatchType j) no_opts)"
    and app: "\<And>d force. WithPaused \<notin> set opts \<Longrightarrow> P (writer e, Apply d (apply_opts e force))"
  shows "tr.keeps P (ObjectEngine_Reconcile cl api e revision desiredObject opts)"
proof (rule tr.keepsI)
  fix s r s'
  assume "ObjectEngine_Reconcile cl api e revision desiredObject opts s = (r, s')"
  then show "emits P s s'"
  proof (cases rule: Reconcile_cases)
    case early
    then show ?thesis by (simp add: emits_def)
  next
    case (create options d s1 err)
    have p: "Paused options \<longleftrightarrow> WithPaused \<in> set opts" using Default_Paused [OF create(1)] by simp
    then have "tr.keeps P (reconcile_create cl api e revision d options)"
      using assms by (intro keeps_create keeps_update) auto
    from tr.keepsD [OF this create(6)] create(5) show ?thesis by (simp add: emits_def)
  next
    case (update options d s1 actual)
    have p: "Paused options \<longleftrightarrow> WithPaused \<in> set opts" using Default_Paused [OF update(1)] by simp
    then have "tr.keeps P (objectUpdateHandling cl api e revision d actual options)"
      using assms by (intro keeps_update) auto
    from tr.keepsD [OF this update(5)] update(4) show ?thesis by (simp add: emits_def)
  qed
qed

lemma Reconcile_paused_keeps:
  "WithPaused \<in> set opts \<Longrightarrow>
    tr.keeps (\<lambda>wr. is_dry_run (snd wr)) (ObjectEngine_Reconcile cl api e revision d opts)"
  by (rule keeps_Reconcile) auto

lemma Reconcile_never_deletes:
  "tr.keeps (\<lambda>wr. \<not> is_delete (snd wr)) (ObjectEngine_Reconcile cl api e revision d opts)"
  by (rule keeps_Reconcile) auto

lemma Teardown_orphan_never_deletes:
  assumes "WithOrphan \<in> set opts"
  shows "tr.keeps (\<lambda>wr. \<not> is_delete (snd wr)) (ObjectEngine_Teardown cl api e revision d opts)"
proof (rule tr.keepsI)
  fix s r s'
  assume run: "ObjectEngine_Teardown cl api e revision d opts s = (r, s')"
  have step: "Orphan (ApplyToObjectTeardownOptions o' opts) \<longleftrightarrow> Orphan opts \<or> o' = WithOrphan" for o' opts
    by (cases o') auto
  have "Orphan (fold ApplyToObjectTeardownOptions os opts) \<longleftrightarrow> Orphan opts \<or> WithOrphan \<in> set os" for os opts
    by (induction os arbitrary: opts) (auto simp: step)
  with assms have o: "Orphan (object_teardown_options opts)" by (simp add: object_teardown_options_def)
  from run show "emits (\<lambda>wr. \<not> is_delete (snd wr)) s s'"
  proof (cases rule: Teardown_cases)
    case (orphan options)
    obtain r' s1 where rm: "removeBoxcutterManagedLabelsAndAnnotations cl e (writer e) d s = (r', s1)"
      by fastforce
    with orphan(3) have "s' = s1" by (cases r') (auto simp: attempt_def ret_def)
    with remove_marks_run [OF rm] show ?thesis by (simp add: emits_def)
  next
    case (existing options actual s1)
    with o Teardown_Default [OF existing(1)] show ?thesis by (simp add: orphaning_def)
  qed (simp_all add: emits_def)
qed

end
