(* ===== verification/Validation.thy ===== *)
theory Validation
  imports Options Samples
begin

text \<open>
  The package validation: object, phase and revision preflight checks. A returned \<open>error\<close> is
  \<open>go_error option\<close>. Third-party parts are parameters: the REST mapper, the DNS label check, JSON
  encoding of an object. A Go map that is iterated is an association list in insertion order; its
  iteration order is unspecified, so the properties speak of the set of entries.
\<close>

section \<open>validation/errors.go\<close>

definition NewObjectValidationError :: "ObjectRef \<Rightarrow> go_error list \<Rightarrow> go_error option" where
  "NewObjectValidationError objRef errs =
    (if errs = [] then None else Some (PtrObjectValidation (ObjectValidationError objRef errs)))"

definition NewPhaseValidationError ::
  "string \<Rightarrow> go_error option \<Rightarrow> ObjectValidationError list \<Rightarrow> go_error option" where
  "NewPhaseValidationError phaseName phaseErr oErrs =
    (if phaseErr = None \<and> oErrs = [] then None
     else Some (PtrPhaseValidation (PhaseValidationError phaseName phaseErr oErrs)))"

definition NewRevisionValidationError ::
  "string \<Rightarrow> int \<Rightarrow> PhaseValidationError list \<Rightarrow> go_error option" where
  "NewRevisionValidationError revisionName revisionNumber phaseErrs =
    (if phaseErrs = [] then None
     else Some (PtrRevisionValidation (RevisionValidationError revisionName revisionNumber phaseErrs)))"

section \<open>validation/metadata.go\<close>

definition validateObjectMetadata :: "Object \<Rightarrow> go_error list" where
  "validateObjectMetadata obj =
    (if Version (GVK obj) = [] then [FieldRequired ''apiVersion'' ''must not be empty''] else []) @
    (if Kind (GVK obj) = [] then [FieldRequired ''kind'' ''must not be empty''] else []) @
    (if GetUID obj \<noteq> [] then [FieldForbidden ''metadata.uid'' ''must be empty''] else []) @
    (if GetGeneration obj > 0 then [FieldForbidden ''metadata.generation'' ''must be empty''] else []) @
    (if GetGenerateName obj \<noteq> [] then [FieldForbidden ''metadata.generateName'' ''must be empty''] else []) @
    (if GetFinalizers obj \<noteq> [] then [FieldForbidden ''metadata.finalizers'' ''must be empty''] else []) @
    (if GetOwnerReferences obj \<noteq> []
     then [FieldForbidden ''metadata.ownerReferences'' ''must be empty''] else []) @
    (if GetResourceVersion obj \<noteq> []
     then [FieldForbidden ''metadata.resourceVersion'' ''must be empty''] else [])"

section \<open>validation/object.go\<close>

datatype RESTScope = RESTScopeRoot | RESTScopeNamespace | OtherScope string

type_synonym restMapper = "GroupKind \<Rightarrow> string \<Rightarrow> go_error + RESTScope"

record ObjectValidator =
  ov_restMapper :: restMapper
  ov_writer :: Writer
  allowNamespaceEscalation :: bool

definition NewClusterObjectValidator :: "restMapper \<Rightarrow> Writer \<Rightarrow> ObjectValidator" where
  "NewClusterObjectValidator rm w =
    \<lparr>ov_restMapper = rm, ov_writer = w, allowNamespaceEscalation = True\<rparr>"

definition NewNamespacedObjectValidator :: "restMapper \<Rightarrow> Writer \<Rightarrow> ObjectValidator" where
  "NewNamespacedObjectValidator rm w =
    \<lparr>ov_restMapper = rm, ov_writer = w, allowNamespaceEscalation = False\<rparr>"

text \<open>After an error other than no-match the mapping is nil and \<open>mapping.Scope\<close> panics.\<close>

definition validateNamespace ::
  "apimachinery \<Rightarrow> restMapper \<Rightarrow> string \<Rightarrow> Object \<Rightarrow> go_error option go" where
  "validateNamespace api rm namespace obj =
    (if namespace = [] then Val None
     else case rm (GroupKind_of (GVK obj)) (Version (GVK obj)) of
            Inl err \<Rightarrow>
              if IsNoMatchError api err then Val (Some err)
              else Panics ''nil pointer dereference''
          | Inr RESTScopeRoot \<Rightarrow> Val (Some MustBeNamespaceScopedResourceError)
          | Inr RESTScopeNamespace \<Rightarrow>
              if GetNamespace obj = namespace then Val None
              else Val (Some (MustBeInNamespaceError namespace (GetNamespace obj)))
          | Inr (OtherScope scope) \<Rightarrow> Panics ''unexpected REST Mapping Scope'')"

fun strings_Contains :: "string \<Rightarrow> string \<Rightarrow> bool" where
  "strings_Contains [] sub = (sub = [])"
| "strings_Contains (c # cs) sub =
    (take (length sub) (c # cs) = sub \<or> strings_Contains cs sub)"

definition dry_run_reasons :: "string list" where
  "dry_run_reasons =
    [''Unauthorized'', ''Forbidden'', ''AlreadyExists'', ''Conflict'', ''Invalid'', ''BadRequest'',
     ''MethodNotAllowed'', ''RequestEntityTooLarge'', ''UnsupportedMediaType'', ''NotAcceptable'',
     ''NotFound'']"

text \<open>Lines 190 to 226: which answers of the API server are the object's fault.\<close>

definition classify_dry_run :: "apimachinery \<Rightarrow> go_error option \<Rightarrow> go_error option" where
  "classify_dry_run api answer =
    (case answer of
       None \<Rightarrow> None
     | Some err \<Rightarrow>
         if IsNoMatchError api err then Some (DryRunValidationError err)
         else case errors_As as_StatusError err of
                None \<Rightarrow> Some err
              | Some (reason, message) \<Rightarrow>
                  if reason \<in> set dry_run_reasons
                  then Some (DryRunValidationError (StatusError reason message))
                  else if reason = [] \<and>
                    strings_Contains message ''failed to create typed patch object''
                  then Some (DryRunValidationError err)
                  else Some err)"

definition ApplyPatchType :: string where
  "ApplyPatchType = ''application/apply-patch+yaml''"

definition dry_run_patch_opts :: WriteOptions where
  "dry_run_patch_opts = \<lparr>FieldOwner = Some ''dummy'', ForceOwnership = True, DryRunAll = True\<rparr>"

definition dry_run_create_opts :: WriteOptions where
  "dry_run_create_opts = \<lparr>FieldOwner = None, ForceOwnership = False, DryRunAll = True\<rparr>"

record validation_api =
  MarshalObject :: "Object \<Rightarrow> go_error + string"
  IsDNS1035Label :: "string \<Rightarrow> string list"

definition validateDryRun ::
  "'w cluster \<Rightarrow> apimachinery \<Rightarrow> validation_api \<Rightarrow> Writer \<Rightarrow> Object \<Rightarrow> ('w, go_error option) run" where
  "validateDryRun cl api va w obj =
    (case MarshalObject va obj of
       Inl mErr \<Rightarrow> ret (Some mErr)
     | Inr objectPatch \<Rightarrow>
         bind (send_raw cl w (Patch obj (RawPatch ApplyPatchType objectPatch) dry_run_patch_opts))
           (\<lambda>(err, _).
         bind (case err of
                 Some e \<Rightarrow>
                   if IsNotFound api e
                   then bind (send_raw cl w (Create obj dry_run_create_opts)) (\<lambda>(err', _). ret err')
                   else ret err
               | None \<Rightarrow> ret err)
           (\<lambda>err. ret (classify_dry_run api err))))"

definition ObjectValidator_Validate ::
  "'w cluster \<Rightarrow> apimachinery \<Rightarrow> validation_api \<Rightarrow> ObjectValidator \<Rightarrow> Object \<Rightarrow>
    ObjectReconcileOption list \<Rightarrow> ('w, go_error option) run" where
  "ObjectValidator_Validate cl api va d obj opts =
    (let options = object_reconcile_options opts;
         errs = validateObjectMetadata obj
     in bind (lift (case Owner options of
                 Some owner \<Rightarrow>
                   if \<not> allowNamespaceEscalation d
                   then validateNamespace api (ov_restMapper d) (GetNamespace owner) obj
                   else Val None
               | None \<Rightarrow> Val None))
          (\<lambda>nsErr. case nsErr of
             Some err \<Rightarrow> ret (NewObjectValidationError (ToObjectRef obj) (errs @ [err]))
           | None \<Rightarrow>
               bind (validateDryRun cl api va (ov_writer d) obj) (\<lambda>err.
                 case err of
                   None \<Rightarrow> ret None
                 | Some e \<Rightarrow>
                     (case errors_As as_DryRunValidation e of
                        Some cause \<Rightarrow>
                          ret (NewObjectValidationError (ToObjectRef obj)
                                 (errs @ [DryRunValidationError cause]))
                      | None \<Rightarrow> ret (Some e)))))"

section \<open>validation/phase.go\<close>

definition phaseNameValid :: "validation_api \<Rightarrow> string \<Rightarrow> string list" where
  "phaseNameValid va phaseName = IsDNS1035Label va phaseName"

definition validatePhaseName :: "validation_api \<Rightarrow> phase \<Rightarrow> go_error option" where
  "validatePhaseName va p =
    (let errMsgs = phaseNameValid va (ph_Name p)
     in if errMsgs \<noteq> [] then Some (PhaseNameInvalidError (ph_Name p) errMsgs) else None)"

text \<open>The state of the search for duplicates: the phase an object was first found in, and for every
  object found again the names of its phases.\<close>

record dup_state =
  uniqueObjectsInPhase :: "ObjectRef \<rightharpoonup> string"
  conflicts :: "(ObjectRef \<times> string list) list"

definition dup_init :: dup_state where
  "dup_init = \<lparr>uniqueObjectsInPhase = Map.empty, conflicts = []\<rparr>"

text \<open>Adding a key to a set kept as a list.\<close>

definition set_add :: "'a list \<Rightarrow> 'a \<Rightarrow> 'a list" where
  "set_add xs x = (if x \<in> set xs then xs else xs @ [x])"

definition dup_step :: "string \<Rightarrow> Object \<Rightarrow> dup_state \<Rightarrow> dup_state" where
  "dup_step phaseName obj st' =
    (let ref = ToObjectRef obj
     in case uniqueObjectsInPhase st' ref of
          None \<Rightarrow> st'\<lparr>uniqueObjectsInPhase := (uniqueObjectsInPhase st')(ref \<mapsto> phaseName)\<rparr>
        | Some otherPhase \<Rightarrow>
            let names = (case map_of (conflicts st') ref of None \<Rightarrow> [otherPhase] | Some ns \<Rightarrow> ns)
            in st'\<lparr>conflicts := alist_set (conflicts st') ref (set_add names phaseName)\<rparr>)"

definition dup_phase :: "phase \<Rightarrow> dup_state \<Rightarrow> dup_state" where
  "dup_phase p st' = fold (dup_step (ph_Name p)) (ph_Objects p) st'"

definition sort_strings :: "string list \<Rightarrow> string list" where
  "sort_strings xs = map fst (sort_by_key (map (\<lambda>x. (x, ())) xs))"

definition checkForObjectDuplicates :: "phase list \<Rightarrow> ObjectValidationError list" where
  "checkForObjectDuplicates phases =
    map (\<lambda>(ref, names). ObjectValidationError ref [PhaseObjectDuplicationError (sort_strings names)])
      (conflicts (fold dup_phase phases dup_init))"

definition compactObjectViolations :: "ObjectValidationError list \<Rightarrow> ObjectValidationError list" where
  "compactObjectViolations ovs =
    map (\<lambda>(ref, errs). ObjectValidationError ref errs)
      (fold (\<lambda>ov m. alist_set m (ov_ObjectRef ov)
               ((case map_of m (ov_ObjectRef ov) of None \<Rightarrow> [] | Some es \<Rightarrow> es) @ ov_Errors ov)) ovs [])"

record PhaseValidator =
  objectValidator :: ObjectValidator

definition NewClusterPhaseValidator :: "restMapper \<Rightarrow> Writer \<Rightarrow> PhaseValidator" where
  "NewClusterPhaseValidator rm w = \<lparr>objectValidator = NewClusterObjectValidator rm w\<rparr>"

definition NewNamespacedPhaseValidator :: "restMapper \<Rightarrow> Writer \<Rightarrow> PhaseValidator" where
  "NewNamespacedPhaseValidator rm w = \<lparr>objectValidator = NewNamespacedObjectValidator rm w\<rparr>"

text \<open>The loop over the objects collects object errors and errors of the validation itself.\<close>

fun validate_objects ::
  "(Object \<Rightarrow> ('w, go_error option) run) \<Rightarrow> Object list \<Rightarrow> ObjectValidationError list \<Rightarrow> go_error list \<Rightarrow>
    ('w, ObjectValidationError list \<times> go_error list) run" where
  "validate_objects validate [] objectErrors errs = ret (objectErrors, errs)"
| "validate_objects validate (obj # objs) objectErrors errs =
    bind (validate obj) (\<lambda>err.
      case err of
        None \<Rightarrow> validate_objects validate objs objectErrors errs
      | Some e \<Rightarrow>
          (case errors_As as_PtrObjectValidation e of
             Some oerr \<Rightarrow> validate_objects validate objs (objectErrors @ [oerr]) errs
           | None \<Rightarrow> validate_objects validate objs objectErrors (errs @ [e])))"

definition PhaseValidator_Validate ::
  "'w cluster \<Rightarrow> apimachinery \<Rightarrow> validation_api \<Rightarrow> PhaseValidator \<Rightarrow> phase \<Rightarrow>
    PhaseReconcileOption list \<Rightarrow> ('w, go_error option) run" where
  "PhaseValidator_Validate cl api va v p opts =
    (let options = phase_reconcile_options opts;
         phaseError = validatePhaseName va p
     in bind (validate_objects
            (\<lambda>obj. ObjectValidator_Validate cl api va (objectValidator v) obj
                     (PhaseReconcileOptions_ForObject options obj))
            (ph_Objects p) [] []) (\<lambda>(objectErrors, errs).
          if errs \<noteq> [] then ret (errors_Join errs)
          else ret (NewPhaseValidationError (ph_Name p) phaseError
                 (compactObjectViolations (objectErrors @ checkForObjectDuplicates [p])))))"

section \<open>validation/revision.go\<close>

text \<open>The object errors of one phase: the metadata of its objects, and the duplicates it takes part
  in. The type assertions \<open>oe.(*ObjectValidationError)\<close> and \<open>pe.(*PhaseValidationError)\<close> panic on
  another type.\<close>

fun static_metadata_errors :: "Object list \<Rightarrow> ObjectValidationError list go" where
  "static_metadata_errors [] = Val []"
| "static_metadata_errors (obj # objs) =
    obind (case NewObjectValidationError (ToObjectRef obj) (validateObjectMetadata obj) of
             None \<Rightarrow> Val []
           | Some oe \<Rightarrow>
               (case as_PtrObjectValidation oe of
                  None \<Rightarrow> Panics ''interface conversion''
                | Some v \<Rightarrow> Val [v]))
      (\<lambda>vs. obind (static_metadata_errors objs) (\<lambda>rest. Val (vs @ rest)))"

definition dups_of_phase :: "string \<Rightarrow> ObjectValidationError list \<Rightarrow> ObjectValidationError list" where
  "dups_of_phase phaseName dups =
    filter (\<lambda>dup. case errors_As as_PhaseObjectDuplication (ErrObjectValidation dup) of
        None \<Rightarrow> False | Some names \<Rightarrow> phaseName \<in> set names) dups"

fun static_phase_errors ::
  "validation_api \<Rightarrow> ObjectValidationError list \<Rightarrow> phase list \<Rightarrow> PhaseValidationError list go" where
  "static_phase_errors va dups [] = Val []"
| "static_phase_errors va dups (p # ps) =
    obind (static_metadata_errors (ph_Objects p)) (\<lambda>metadataErrors.
    obind (case NewPhaseValidationError (ph_Name p) (validatePhaseName va p)
                  (metadataErrors @ dups_of_phase (ph_Name p) dups) of
             None \<Rightarrow> Val []
           | Some pe \<Rightarrow>
               (case as_PtrPhaseValidation pe of
                  None \<Rightarrow> Panics ''interface conversion''
                | Some v \<Rightarrow> Val [v]))
      (\<lambda>vs. obind (static_phase_errors va dups ps) (\<lambda>rest. Val (vs @ rest))))"

definition staticValidateMultiplePhases :: "validation_api \<Rightarrow> phase list \<Rightarrow> PhaseValidationError list go"
where
  "staticValidateMultiplePhases va phases =
    static_phase_errors va (checkForObjectDuplicates phases) phases"

definition RevisionValidator_Validate :: "validation_api \<Rightarrow> revision \<Rightarrow> go_error option go" where
  "RevisionValidator_Validate va rv =
    obind (staticValidateMultiplePhases va (rev_Phases rv)) (\<lambda>pvs.
      Val (NewRevisionValidationError (rev_Name rv) (rev_Revision rv) pvs))"

section \<open>Duplicates\<close>

lemma map_of_replace:
  "map_of (map (\<lambda>e. if fst e = k then (k, v) else e) m) k' =
    (if k' = k \<and> k \<in> fst ` set m then Some v else map_of m k')"
  by (induction m) (auto simp: rev_image_eqI)

lemma alist_set_lookup [simp]:
  "map_of (alist_set m k v) k' = (if k' = k then Some v else map_of m k')"
proof (cases "k \<in> fst ` set m")
  case False
  then have "map_of m k = None" by (simp add: map_of_eq_None_iff)
  with False show ?thesis by (auto simp: alist_set_def map_add_def split: option.splits)
qed (simp add: alist_set_def map_of_replace)

lemma alist_set_keys:
  "map fst (alist_set m k v) = (if k \<in> fst ` set m then map fst m else map fst m @ [k])"
  by (auto simp: alist_set_def)

lemma alist_set_distinct: "distinct (map fst m) \<Longrightarrow> distinct (map fst (alist_set m k v))"
  by (auto simp: alist_set_keys)

text \<open>The objects of a list of phases, with the name of their phase, in the order they are visited.\<close>

definition occurrences :: "phase list \<Rightarrow> (ObjectRef \<times> string) list" where
  "occurrences phases =
    concat (map (\<lambda>p. map (\<lambda>obj. (ToObjectRef obj, ph_Name p)) (ph_Objects p)) phases)"

definition phases_of :: "(ObjectRef \<times> string) list \<Rightarrow> ObjectRef \<Rightarrow> string list" where
  "phases_of seen ref = map snd (filter (\<lambda>o'. fst o' = ref) seen)"

text \<open>The invariant of the search: the first phase of every object seen, and the phases of every
  object seen at least twice.\<close>

definition dup_entry :: "string list \<Rightarrow> string list option \<Rightarrow> bool" where
  "dup_entry ps entry \<longleftrightarrow>
    (if length ps < 2 then entry = None
     else \<exists>names. entry = Some names \<and> set names = set ps \<and> distinct names)"

definition dup_inv :: "(ObjectRef \<times> string) list \<Rightarrow> dup_state \<Rightarrow> bool" where
  "dup_inv seen st' \<longleftrightarrow>
    distinct (map fst (conflicts st')) \<and>
    (\<forall>ref. uniqueObjectsInPhase st' ref =
       (case phases_of seen ref of [] \<Rightarrow> None | n # ns \<Rightarrow> Some n)) \<and>
    (\<forall>ref. dup_entry (phases_of seen ref) (map_of (conflicts st') ref))"

lemma phases_of_snoc:
  "phases_of (seen @ [(r, n)]) ref = phases_of seen ref @ (if r = ref then [n] else [])"
  by (simp add: phases_of_def)

lemma set_add_set: "set (set_add xs x) = insert x (set xs)" "distinct xs \<Longrightarrow> distinct (set_add xs x)"
  by (auto simp: set_add_def)

lemma dup_entry_names:
  assumes "dup_entry (m # ms) entry"
  shows "set (case entry of None \<Rightarrow> [m] | Some ns \<Rightarrow> ns) = set (m # ms) \<and>
    distinct (case entry of None \<Rightarrow> [m] | Some ns \<Rightarrow> ns)"
proof (cases ms)
  case Nil
  with assms show ?thesis by (simp add: dup_entry_def)
next
  case (Cons a list)
  with assms have "\<exists>names. entry = Some names \<and> set names = set (m # ms) \<and> distinct names"
    unfolding dup_entry_def by (metis length_Cons not_less_eq not_less_zero numeral_2_eq_2)
  then show ?thesis by (elim exE conjE) simp
qed

lemma dup_step_inv:
  assumes "dup_inv seen st'"
  shows "dup_inv (seen @ [(ToObjectRef obj, n)]) (dup_step n obj st')"
proof (cases "phases_of seen (ToObjectRef obj)")
  case Nil
  with assms have "uniqueObjectsInPhase st' (ToObjectRef obj) = None" by (simp add: dup_inv_def)
  then have "dup_step n obj st' =
      st'\<lparr>uniqueObjectsInPhase := (uniqueObjectsInPhase st')(ToObjectRef obj \<mapsto> n)\<rparr>"
    by (simp add: dup_step_def)
  moreover have "dup_entry [n] (map_of (conflicts st') (ToObjectRef obj))"
  proof -
    have "dup_entry (phases_of seen (ToObjectRef obj)) (map_of (conflicts st') (ToObjectRef obj))"
      using assms unfolding dup_inv_def by blast
    with Nil show ?thesis by (simp add: dup_entry_def)
  qed
  ultimately show ?thesis using assms Nil unfolding dup_inv_def phases_of_snoc by auto
next
  case (Cons m ms)
  define names where "names = (case map_of (conflicts st') (ToObjectRef obj) of
      None \<Rightarrow> [m] | Some ns \<Rightarrow> ns)"
  have "uniqueObjectsInPhase st' (ToObjectRef obj) = Some m" using assms Cons by (simp add: dup_inv_def)
  then have step: "dup_step n obj st' = st'\<lparr>conflicts :=
      alist_set (conflicts st') (ToObjectRef obj) (set_add names n)\<rparr>"
    by (simp add: dup_step_def names_def Let_def)
  have "dup_entry (phases_of seen (ToObjectRef obj)) (map_of (conflicts st') (ToObjectRef obj))"
    using assms unfolding dup_inv_def by blast
  then have "dup_entry (m # ms) (map_of (conflicts st') (ToObjectRef obj))" by (simp only: Cons)
  then have "set names = set (m # ms) \<and> distinct names"
    unfolding names_def by (rule dup_entry_names)
  then have new: "dup_entry ((m # ms) @ [n]) (Some (set_add names n))"
    by (auto simp: dup_entry_def set_add_set)
  show ?thesis
    using assms Cons new unfolding dup_inv_def phases_of_snoc step
    by (auto simp: alist_set_distinct)
qed

lemma dup_fold_inv:
  "dup_inv seen st' \<Longrightarrow>
    dup_inv (seen @ map (\<lambda>obj. (ToObjectRef obj, n)) objs) (fold (dup_step n) objs st')"
proof (induction objs arbitrary: seen st')
  case (Cons obj objs)
  from Cons.IH [OF dup_step_inv [OF Cons.prems]] show ?case by simp
qed simp

lemma dup_phases_inv:
  "dup_inv seen st' \<Longrightarrow> dup_inv (seen @ occurrences phases) (fold dup_phase phases st')"
proof (induction phases arbitrary: seen st')
  case (Cons p phases)
  from Cons.IH [OF dup_fold_inv [OF Cons.prems]] show ?case
    by (simp add: occurrences_def dup_phase_def)
qed (simp add: occurrences_def)

lemma dup_result_inv: "dup_inv (occurrences phases) (fold dup_phase phases dup_init)"
proof -
  have "dup_inv [] dup_init" by (simp add: dup_inv_def phases_of_def dup_init_def dup_entry_def)
  from dup_phases_inv [OF this] show ?thesis by simp
qed

lemma duplicates_reported:
  "ObjectValidationError ref errs \<in> set (checkForObjectDuplicates phases) \<longleftrightarrow>
    (\<exists>names. map_of (conflicts (fold dup_phase phases dup_init)) ref = Some names \<and>
       errs = [PhaseObjectDuplicationError (sort_strings names)])"
proof -
  have "distinct (map fst (conflicts (fold dup_phase phases dup_init)))"
    using dup_result_inv [of phases] by (simp add: dup_inv_def)
  then show ?thesis by (force simp: checkForObjectDuplicates_def)
qed

lemma set_sort_strings [simp]: "set (sort_strings xs) = set xs"
  by (simp add: sort_strings_def image_image)

lemma dup_result_entry:
  "dup_entry (phases_of (occurrences phases) ref)
     (map_of (conflicts (fold dup_phase phases dup_init)) ref)"
  using dup_result_inv [of phases] unfolding dup_inv_def by blast

lemma duplicates_names:
  "map_of (conflicts (fold dup_phase phases dup_init)) ref = Some names \<Longrightarrow>
    length (phases_of (occurrences phases) ref) \<ge> 2 \<and>
    set names = set (phases_of (occurrences phases) ref)"
  using dup_result_entry [of phases ref] by (auto simp: dup_entry_def split: if_splits)

lemma duplicates_complete:
  "length (phases_of (occurrences phases) ref) \<ge> 2 \<Longrightarrow>
    \<exists>names. map_of (conflicts (fold dup_phase phases dup_init)) ref = Some names"
  using dup_result_entry [of phases ref] by (auto simp: dup_entry_def split: if_splits)

text \<open>The search for duplicates reports exactly the objects that occur more than once in the
  phases, each with the names of all phases it occurs in, and each only once.\<close>

theorem checkForObjectDuplicates_exact:
  "((\<exists>names. ObjectValidationError ref [PhaseObjectDuplicationError names]
        \<in> set (checkForObjectDuplicates phases) \<and> set names = {n. (ref, n) \<in> set (occurrences phases)})
     \<longleftrightarrow> length (filter (\<lambda>o'. fst o' = ref) (occurrences phases)) \<ge> 2) \<and>
   distinct (map ov_ObjectRef (checkForObjectDuplicates phases))"
proof (intro conjI)
  have set_phases: "set (phases_of (occurrences phases) r) = {n. (r, n) \<in> set (occurrences phases)}" for r
    by (force simp: phases_of_def)
  have len: "length (filter (\<lambda>o'. fst o' = ref) (occurrences phases)) =
      length (phases_of (occurrences phases) ref)" by (simp add: phases_of_def)
  show "(\<exists>names. ObjectValidationError ref [PhaseObjectDuplicationError names]
        \<in> set (checkForObjectDuplicates phases) \<and> set names = {n. (ref, n) \<in> set (occurrences phases)})
     \<longleftrightarrow> length (filter (\<lambda>o'. fst o' = ref) (occurrences phases)) \<ge> 2"
    unfolding duplicates_reported len
    using duplicates_complete [of phases ref] duplicates_names [of phases ref] set_phases [of ref]
    by (metis go_error.inject(14) list.inject set_sort_strings)
  show "distinct (map ov_ObjectRef (checkForObjectDuplicates phases))"
    using dup_result_inv [of phases]
    by (simp add: checkForObjectDuplicates_def dup_inv_def comp_def case_prod_beta')
qed

section \<open>Revision validation\<close>

lemma static_metadata_errors_Val:
  "static_metadata_errors objs = Val (concat (map (\<lambda>obj. if validateObjectMetadata obj = [] then []
     else [ObjectValidationError (ToObjectRef obj) (validateObjectMetadata obj)]) objs))"
  by (induction objs) (auto simp: NewObjectValidationError_def)

lemma dups_of_phase_eq:
  "dups_of_phase n (checkForObjectDuplicates phases) =
    filter (\<lambda>dup. \<exists>names. ov_Errors dup = [PhaseObjectDuplicationError names] \<and> n \<in> set names)
      (checkForObjectDuplicates phases)"
proof -
  have "errors_As as_PhaseObjectDuplication
      (ErrObjectValidation (ObjectValidationError ref [PhaseObjectDuplicationError names])) = Some names"
    for ref names
    by (subst errors_As.simps) (simp add: ObjectValidationError_Unwrap_def errors_As_hit)
  then show ?thesis
    unfolding dups_of_phase_def checkForObjectDuplicates_def
    by (intro filter_cong) auto
qed

definition clean_phase :: "validation_api \<Rightarrow> phase \<Rightarrow> bool" where
  "clean_phase va p \<longleftrightarrow> IsDNS1035Label va (ph_Name p) = [] \<and>
    (\<forall>obj\<in>set (ph_Objects p). validateObjectMetadata obj = [])"

lemma static_phase_errors_total: "\<exists>vs. static_phase_errors va dups phases = Val vs"
  by (induction phases) (auto simp: static_metadata_errors_Val NewPhaseValidationError_def)

lemma static_phase_errors_empty:
  "static_phase_errors va dups phases = Val [] \<longleftrightarrow>
    (\<forall>p\<in>set phases. clean_phase va p \<and> dups_of_phase (ph_Name p) dups = [])"
proof (induction phases)
  case (Cons p phases)
  obtain vs where vs: "static_phase_errors va dups phases = Val vs"
    using static_phase_errors_total by blast
  with Cons show ?case
    by (auto simp: static_metadata_errors_Val NewPhaseValidationError_def clean_phase_def
        validatePhaseName_def phaseNameValid_def Let_def split: if_splits)
qed simp

lemma phases_of_length: "length (phases_of seen ref) = count_list (map fst seen) ref"
  by (induction seen) (auto simp: phases_of_def)

lemma distinct_iff_count: "distinct xs \<longleftrightarrow> (\<forall>x. count_list xs x < 2)"
proof (induction xs)
  case (Cons y ys)
  have "(\<forall>x. count_list (y # ys) x < 2) \<longleftrightarrow> count_list ys y = 0 \<and> (\<forall>x. count_list ys x < 2)"
    by (auto simp: less_2_cases_iff)
  with Cons show ?case by (simp add: count_list_0_iff)
qed simp

lemma no_duplicates_iff:
  "checkForObjectDuplicates phases = [] \<longleftrightarrow> distinct (map fst (occurrences phases))"
proof -
  have "checkForObjectDuplicates phases = [] \<longleftrightarrow>
      (\<forall>ref. map_of (conflicts (fold dup_phase phases dup_init)) ref = None)"
    unfolding checkForObjectDuplicates_def map_is_Nil_conv
    by (metis list.distinct(1) map_of_eq_None_iff map_of_eq_empty_iff neq_Nil_conv option.simps(3))
  also have "\<dots> \<longleftrightarrow> (\<forall>ref. length (phases_of (occurrences phases) ref) < 2)"
    using dup_result_entry [of phases] duplicates_names [of phases]
    by (metis dup_entry_def leD not_None_eq)
  also have "\<dots> \<longleftrightarrow> distinct (map fst (occurrences phases))"
    by (simp add: phases_of_length distinct_iff_count)
  finally show ?thesis .
qed

text \<open>A duplicate is reported in every phase that contains it, so in one at least.\<close>

lemma duplicate_in_some_phase:
  assumes "checkForObjectDuplicates phases \<noteq> []"
  shows "\<exists>p\<in>set phases. dups_of_phase (ph_Name p) (checkForObjectDuplicates phases) \<noteq> []"
proof -
  obtain ref errs where r: "ObjectValidationError ref errs \<in> set (checkForObjectDuplicates phases)"
    using assms by (metis ObjectValidationError.exhaust last_in_set)
  then obtain names where names: "map_of (conflicts (fold dup_phase phases dup_init)) ref = Some names"
    "errs = [PhaseObjectDuplicationError (sort_strings names)]"
    by (auto simp: duplicates_reported)
  obtain n where n: "n \<in> set names"
    using duplicates_names [OF names(1)] by (cases "phases_of (occurrences phases) ref") auto
  then have "(ref, n) \<in> set (occurrences phases)"
    using duplicates_names [OF names(1)] by (auto simp: phases_of_def)
  then obtain p where "p \<in> set phases" "n = ph_Name p" by (auto simp: occurrences_def)
  with r names(2) n show ?thesis
    by (intro bexI [of _ p]) (force simp: dups_of_phase_eq filter_empty_conv)+
qed

text \<open>C27: the revision validator accepts a revision exactly when every phase name is a DNS label,
  no object has forbidden or missing metadata, and no object occurs twice; it never panics, and what
  it returns otherwise is a RevisionValidationError.\<close>

theorem RevisionValidator_accepts_iff:
  "(RevisionValidator_Validate va rv = Val None \<longleftrightarrow>
      (\<forall>p\<in>set (rev_Phases rv). clean_phase va p) \<and> distinct (map fst (occurrences (rev_Phases rv)))) \<and>
   (RevisionValidator_Validate va rv = Val None \<or>
      (\<exists>pvs. pvs \<noteq> [] \<and> RevisionValidator_Validate va rv = Val (Some (PtrRevisionValidation
         (RevisionValidationError (rev_Name rv) (rev_Revision rv) pvs)))))"
proof -
  let ?ps = "rev_Phases rv"
  obtain vs where vs: "static_phase_errors va (checkForObjectDuplicates ?ps) ?ps = Val vs"
    using static_phase_errors_total by blast
  have "(\<forall>p\<in>set ?ps. dups_of_phase (ph_Name p) (checkForObjectDuplicates ?ps) = []) \<longleftrightarrow>
      distinct (map fst (occurrences ?ps))"
    unfolding no_duplicates_iff [symmetric]
    using duplicate_in_some_phase [of ?ps] by (auto simp: dups_of_phase_def)
  then show ?thesis
    using static_phase_errors_empty [of va "checkForObjectDuplicates ?ps" ?ps] vs
    by (auto simp: RevisionValidator_Validate_def staticValidateMultiplePhases_def
        NewRevisionValidationError_def)
qed

section \<open>Object validation\<close>

definition dry_run_request :: "Writer \<Rightarrow> Writer \<times> request \<Rightarrow> bool" where
  "dry_run_request w wr \<longleftrightarrow> fst wr = w \<and> is_dry_run (snd wr)"

lemma keeps_dry_run: "tr.keeps (dry_run_request w) (validateDryRun cl api va w obj)"
  unfolding validateDryRun_def
  by (intro tr.keeps_rules tr.keeps_case keeps_calls)
    (simp_all add: dry_run_request_def dry_run_patch_opts_def dry_run_create_opts_def)

lemma keeps_ObjectValidator:
  "tr.keeps (dry_run_request (ov_writer d)) (ObjectValidator_Validate cl api va d obj opts)"
  unfolding ObjectValidator_Validate_def Let_def
  by (intro tr.keeps_rules tr.keeps_case keeps_dry_run)

lemma keeps_validate_objects:
  "(\<And>obj. tr.keeps P (validate obj)) \<Longrightarrow> tr.keeps P (validate_objects validate objs oerrs errs)"
  by (induction objs arbitrary: oerrs errs) (auto intro!: tr.keeps_rules tr.keeps_case)

lemma keeps_PhaseValidator:
  "tr.keeps (dry_run_request (ov_writer (objectValidator v))) (PhaseValidator_Validate cl api va v p opts)"
  unfolding PhaseValidator_Validate_def Let_def
  by (intro tr.keeps_rules tr.keeps_case keeps_validate_objects keeps_ObjectValidator)

text \<open>Phase validation changes nothing on the cluster: all it sends, through the validator's
  writer, are dry-run requests.\<close>

theorem PhaseValidator_only_dry_run:
  assumes "PhaseValidator_Validate cl api va v p opts s = (r, s')"
  shows "emits (\<lambda>wr. fst wr = ov_writer (objectValidator v) \<and> is_dry_run (snd wr)) s s'"
  using tr.keepsD [OF keeps_PhaseValidator assms] by (simp add: dry_run_request_def [abs_def])

definition sample_va :: validation_api where
  "sample_va = \<lparr>MarshalObject = (\<lambda>obj. Inr ''{}''),
     IsDNS1035Label = (\<lambda>n. if n = [] then [''must not be empty''] else [])\<rparr>"

definition sample_mapper :: restMapper where
  "sample_mapper gk v = Inr RESTScopeNamespace"

definition sample_phase :: phase where
  "sample_phase = NewPhase ''deploy'' [sample_object]"

lemma sample_phase_clean: "clean_phase sample_va sample_phase"
  by (simp add: clean_phase_def sample_va_def sample_phase_def NewPhase_def validateObjectMetadata_def
      sample_object_def)

theorem RevisionValidator_accepts_iff_witness:
  "RevisionValidator_Validate sample_va (NewRevision ''r'' 1 [sample_phase]) = Val None \<and>
   RevisionValidator_Validate sample_va (NewRevision ''r'' 1 [sample_phase, sample_phase]) \<noteq> Val None"
  using RevisionValidator_accepts_iff [of sample_va "NewRevision ''r'' 1 [sample_phase]"]
    RevisionValidator_accepts_iff [of sample_va "NewRevision ''r'' 1 [sample_phase, sample_phase]"]
    sample_phase_clean
  by (simp add: NewRevision_def occurrences_def sample_phase_def NewPhase_def)

theorem PhaseValidator_only_dry_run_witness:
  "emits (\<lambda>wr. fst wr = Writer 0 \<and> is_dry_run (snd wr)) (sample_st [])
    (snd (PhaseValidator_Validate sample_cluster sample_api sample_va
       (NewClusterPhaseValidator sample_mapper (Writer 0)) sample_phase [] (sample_st [])))"
  using PhaseValidator_only_dry_run [of sample_cluster sample_api sample_va
      "NewClusterPhaseValidator sample_mapper (Writer 0)" sample_phase "[]" "sample_st []",
      OF prod.collapse [symmetric]]
  by (simp add: NewClusterPhaseValidator_def NewClusterObjectValidator_def)

text \<open>C29: the namespaced validator keeps a revision inside the namespace of its owner: when it
  accepts an object, either the owner has no namespace or the object is namespace-scoped and lies
  in the namespace of the owner.\<close>

theorem namespaced_validator_confines:
  assumes "ObjectValidator_Validate cl api va (NewNamespacedObjectValidator rm w) obj opts s = (Val None, s')"
    and "Owner (object_reconcile_options opts) = Some owner" "GetNamespace owner \<noteq> []"
  shows "GetNamespace obj = GetNamespace owner \<and>
    rm (GroupKind_of (GVK obj)) (Version (GVK obj)) = Inr RESTScopeNamespace"
proof -
  from assms have "validateNamespace api rm (GetNamespace owner) obj = Val None"
    by (cases "validateNamespace api rm (GetNamespace owner) obj")
      (auto simp: ObjectValidator_Validate_def NewNamespacedObjectValidator_def Let_def bind_def lift_def
        ret_def NewObjectValidationError_def split: option.splits)
  with assms(3) show ?thesis
    by (auto simp: validateNamespace_def split: sum.splits RESTScope.splits if_splits)
qed

lemma sample_validated:
  "ObjectValidator_Validate sample_cluster sample_api sample_va
     (NewNamespacedObjectValidator sample_mapper (Writer 0)) sample_object
     [OwnerReconcile sample_owner None] (sample_st []) =
   (Val None, \<lparr>world = [], sent = [(Writer 0,
      Patch sample_object (RawPatch ApplyPatchType ''{}'') dry_run_patch_opts)]\<rparr>)"
  by (simp add: ObjectValidator_Validate_def NewNamespacedObjectValidator_def Let_def
      object_reconcile_options_def validateNamespace_def sample_mapper_def
      validateDryRun_def sample_va_def send_raw_def classify_dry_run_def ret_def bind_def lift_def
      sample_st_def dry_run_patch_opts_def)

theorem namespaced_validator_confines_witness:
  "fst (ObjectValidator_Validate sample_cluster sample_api sample_va
      (NewNamespacedObjectValidator sample_mapper (Writer 0)) sample_object
      [OwnerReconcile sample_owner None] (sample_st [])) = Val None \<and>
    GetNamespace sample_object = GetNamespace sample_owner"
  using namespaced_validator_confines [OF sample_validated, of sample_owner] sample_validated
  by (simp add: object_reconcile_options_def)

text \<open>The metadata errors an object validator finds are reported only together with another
  error: when the namespace check passes and the dry run succeeds, the object is accepted whatever
  its metadata.\<close>

theorem ObjectValidator_drops_metadata_errors:
  assumes "Owner (object_reconcile_options opts) = None \<or> allowNamespaceEscalation d"
    and "MarshalObject va obj = Inr patch"
    and "serve cl (ov_writer d) (Patch obj (RawPatch ApplyPatchType patch) dry_run_patch_opts) (world s)
      = ((None, obj'), w)"
  shows "fst (ObjectValidator_Validate cl api va d obj opts s) = Val None"
proof -
  have "validateDryRun cl api va (ov_writer d) obj s =
      (Val None, s\<lparr>world := w, sent := sent s @ [(ov_writer d,
         Patch obj (RawPatch ApplyPatchType patch) dry_run_patch_opts)]\<rparr>)"
    using assms(2,3)
    by (simp add: validateDryRun_def bind_def send_raw_def ret_def classify_dry_run_def)
  with assms(1) show ?thesis
    by (auto simp: ObjectValidator_Validate_def bind_def lift_def ret_def Let_def split: option.splits)
qed

theorem ObjectValidator_drops_metadata_errors_witness:
  "validateObjectMetadata sample_actual \<noteq> [] \<and>
   fst (ObjectValidator_Validate sample_cluster sample_api sample_va
     (NewClusterObjectValidator sample_mapper (Writer 0)) sample_actual [] (sample_st [])) = Val None"
  using ObjectValidator_drops_metadata_errors [of "[]"
      "NewClusterObjectValidator sample_mapper (Writer 0)" sample_va sample_actual "''{}''"
      sample_cluster "sample_st []"]
  by (simp add: object_reconcile_options_def zero_ObjectReconcileOptions_def sample_va_def
      validateObjectMetadata_def)

text \<open>When the REST mapper fails with anything but a no-match error, the namespaced validator
  panics instead of returning the error.\<close>

theorem namespaced_validator_panics:
  assumes "Owner (object_reconcile_options opts) = Some owner" "GetNamespace owner \<noteq> []"
    and "rm (GroupKind_of (GVK obj)) (Version (GVK obj)) = Inl err" "\<not> IsNoMatchError api err"
  shows "is_panic (fst (ObjectValidator_Validate cl api va (NewNamespacedObjectValidator rm w) obj opts s))"
  using assms
  by (simp add: ObjectValidator_Validate_def NewNamespacedObjectValidator_def validateNamespace_def
      bind_def lift_def Let_def)

theorem namespaced_validator_panics_witness:
  "is_panic (fst (ObjectValidator_Validate sample_cluster sample_api sample_va
     (NewNamespacedObjectValidator (\<lambda>gk v. Inl (StatusError ''Timeout'' [])) (Writer 0)) sample_object
     [OwnerReconcile sample_owner None] (sample_st [])))"
  by (rule namespaced_validator_panics [where owner = sample_owner and err = "StatusError ''Timeout'' []"])
    (simp_all add: object_reconcile_options_def)

end
