(* ===== verification/PhaseEngine.thy ===== *)
theory PhaseEngine
  imports ObjectEngine Validation "HOL-Library.Multiset"
begin

text \<open>
  machinery/phases.go: the phase engine. The interfaces \<open>objectEngine\<close> and \<open>phaseValidator\<close> it is
  built from are records of functions, as in the code; the locale \<open>object_engine\<close> states what it
  relies on and is interpreted for the engine of ObjectEngine. Both operations return their result
  together with an optional error.
\<close>

section \<open>Interfaces\<close>

text \<open>\<open>oe_caller\<close> is what \<open>Reconcile\<close> leaves in the object it was passed.\<close>

record 'w objectEngine =
  oe_Reconcile :: "int \<Rightarrow> Object \<Rightarrow> ObjectReconcileOption list \<Rightarrow> ('w, ObjectResult) run"
  oe_caller :: "Object \<Rightarrow> Object"
  oe_Teardown :: "int \<Rightarrow> Object \<Rightarrow> ObjectTeardownOption list \<Rightarrow> ('w, bool \<times> go_error option) run"

type_synonym 'w phaseValidator = "phase \<Rightarrow> PhaseReconcileOption list \<Rightarrow> ('w, go_error option) run"

record 'w PhaseEngine =
  pe_objectEngine :: "'w objectEngine"
  pe_phaseValidator :: "'w phaseValidator"

definition NewPhaseEngine :: "'w objectEngine \<Rightarrow> 'w phaseValidator \<Rightarrow> 'w PhaseEngine" where
  "NewPhaseEngine oe v = \<lparr>pe_objectEngine = oe, pe_phaseValidator = v\<rparr>"

section \<open>Results\<close>

record phaseResult =
  pr_name :: string
  pr_validationError :: "PhaseValidationError option"
  pr_objects :: "ObjectResult list"

definition phaseResult_HasProgressed :: "phaseResult \<Rightarrow> bool" where
  "phaseResult_HasProgressed r =
    (if pr_validationError r \<noteq> None then False
     else length (filter (\<lambda>o'. result_Action o' = ActionProgressed) (pr_objects r)) = length (pr_objects r))"

definition phaseResult_InTransition :: "phaseResult \<Rightarrow> bool" where
  "phaseResult_InTransition r =
    (if pr_validationError r \<noteq> None then False
     else if phaseResult_HasProgressed r then False
     else list_ex (\<lambda>o'. result_Action o' = ActionCollision \<or> result_Action o' = ActionProgressed)
            (pr_objects r))"

definition phaseResult_IsComplete :: "phaseResult \<Rightarrow> bool" where
  "phaseResult_IsComplete r =
    (if pr_validationError r \<noteq> None then False else list_all result_IsComplete (pr_objects r))"

record phaseTeardownResult =
  ptr_name :: string
  ptr_gone :: "ObjectRef list"
  ptr_waiting :: "ObjectRef list"

definition phaseTeardownResult_IsComplete :: "phaseTeardownResult \<Rightarrow> bool" where
  "phaseTeardownResult_IsComplete r \<longleftrightarrow> ptr_waiting r = []"

section \<open>Reconcile\<close>

text \<open>The loop of lines 214 to 234, with the results and errors collected so far.\<close>

fun reconcile_objects ::
  "apimachinery \<Rightarrow> 'w objectEngine \<Rightarrow> int \<Rightarrow> PhaseReconcileOptions \<Rightarrow> Object list \<Rightarrow> ObjectResult list \<Rightarrow>
    go_error list \<Rightarrow> ('w, ObjectResult list \<times> go_error option) run" where
  "reconcile_objects api oe revision options [] results errs = ret (results, errors_Join errs)"
| "reconcile_objects api oe revision options (obj # objs) results errs =
    attempt (oe_Reconcile oe revision obj (PhaseReconcileOptions_ForObject options obj))
      (\<lambda>e. let err = WrapRef ''reconciling'' (ToObjectRef (oe_caller oe obj)) e
           in if pr_AggregateErrors options
              then if IsTooManyRequests api err then ret (results, errors_Join (errs @ [err]))
                   else reconcile_objects api oe revision options objs results (errs @ [err])
              else ret (results, Some err))
      (\<lambda>ores. reconcile_objects api oe revision options objs (results @ [ores]) errs)"

definition PhaseEngine_Reconcile ::
  "apimachinery \<Rightarrow> 'w PhaseEngine \<Rightarrow> int \<Rightarrow> phase \<Rightarrow> PhaseReconcileOption list \<Rightarrow>
    ('w, phaseResult \<times> go_error option) run" where
  "PhaseEngine_Reconcile api e revision p opts =
    (let opts' = opts @ ph_ReconcileOptions p;
         options = phase_reconcile_options opts';
         pres = \<lparr>pr_name = ph_Name p, pr_validationError = None, pr_objects = []\<rparr>
     in bind (pe_phaseValidator e p opts') (\<lambda>err.
          case err of
            Some er \<Rightarrow>
              (case errors_As as_PtrPhaseValidation er of
                 Some perr \<Rightarrow> ret (pres\<lparr>pr_validationError := Some perr\<rparr>, None)
               | None \<Rightarrow> ret (pres, Some (Wrap ''validating'' er)))
          | None \<Rightarrow>
              bind (reconcile_objects api (pe_objectEngine e) revision options (ph_Objects p) [] [])
                (\<lambda>(results, err). ret (pres\<lparr>pr_objects := results\<rparr>, err))))"

section \<open>Teardown\<close>

fun teardown_objects ::
  "apimachinery \<Rightarrow> 'w objectEngine \<Rightarrow> int \<Rightarrow> PhaseTeardownOptions \<Rightarrow> Object list \<Rightarrow> phaseTeardownResult \<Rightarrow>
    go_error list \<Rightarrow> ('w, phaseTeardownResult \<times> go_error option) run" where
  "teardown_objects api oe revision options [] res errs = ret (res, errors_Join errs)"
| "teardown_objects api oe revision options (obj # objs) res errs =
    bind (oe_Teardown oe revision obj (PhaseTeardownOptions_ForObject options obj)) (\<lambda>(gone, e).
      case e of
        Some er \<Rightarrow>
          (let err = WrapRef ''teardown'' (ToObjectRef obj) er
           in if pt_AggregateErrors options
              then if IsTooManyRequests api err then ret (res, errors_Join (errs @ [err]))
                   else teardown_objects api oe revision options objs res (errs @ [err])
              else ret (res, Some err))
      | None \<Rightarrow>
          if gone
          then teardown_objects api oe revision options objs
                 (res\<lparr>ptr_gone := ptr_gone res @ [ToObjectRef obj]\<rparr>) errs
          else teardown_objects api oe revision options objs
                 (res\<lparr>ptr_waiting := ptr_waiting res @ [ToObjectRef obj]\<rparr>) errs)"

definition PhaseEngine_Teardown ::
  "apimachinery \<Rightarrow> 'w PhaseEngine \<Rightarrow> int \<Rightarrow> phase \<Rightarrow> PhaseTeardownOption list \<Rightarrow>
    ('w, phaseTeardownResult \<times> go_error option) run" where
  "PhaseEngine_Teardown api e revision p opts =
    (let options = phase_teardown_options (opts @ ph_TeardownOptions p)
     in teardown_objects api (pe_objectEngine e) revision options (ph_Objects p)
          \<lparr>ptr_name = ph_Name p, ptr_gone = [], ptr_waiting = []\<rparr> [])"

section \<open>The interface of the object engine\<close>

locale object_engine =
  fixes oe :: "'w objectEngine"
  assumes paused_dry_run: "WithPaused \<in> set opts \<Longrightarrow>
      tr.keeps (\<lambda>wr. is_dry_run (snd wr)) (oe_Reconcile oe revision obj opts)"
    and reconcile_never_deletes: "tr.keeps (\<lambda>wr. \<not> is_delete (snd wr)) (oe_Reconcile oe revision obj opts)"
    and orphan_never_deletes: "WithOrphan \<in> set opts' \<Longrightarrow>
      tr.keeps (\<lambda>wr. \<not> is_delete (snd wr)) (oe_Teardown oe revision obj opts')"
    and caller_keeps_key: "ObjectKeyFromObject (oe_caller oe obj) = ObjectKeyFromObject obj"
begin

lemma phase_paused_objects:
  assumes "PRObject WithPaused \<in> set opts"
  shows "tr.keeps (\<lambda>wr. is_dry_run (snd wr))
    (reconcile_objects api oe revision (phase_reconcile_options opts) objs results errs)"
proof (induction objs arbitrary: results errs)
  case (Cons obj objs)
  have "tr.keeps (\<lambda>wr. is_dry_run (snd wr)) (oe_Reconcile oe revision obj
      (PhaseReconcileOptions_ForObject (phase_reconcile_options opts) obj))"
    by (intro paused_dry_run phase_default_reaches_object assms)
  with Cons show ?case by (auto simp: Let_def intro!: tr.keeps_attempt tr.keeps_rules)
qed (simp add: tr.keeps_ret)

lemma phase_reconcile_never_deletes:
  "tr.keeps (\<lambda>wr. \<not> is_delete (snd wr)) (reconcile_objects api oe revision options objs results errs)"
  by (induction objs arbitrary: results errs)
    (auto simp: Let_def intro!: tr.keeps_attempt tr.keeps_rules reconcile_never_deletes)

lemma phase_orphan_never_deletes:
  assumes "PTObject WithOrphan \<in> set opts"
  shows "tr.keeps (\<lambda>wr. \<not> is_delete (snd wr))
    (teardown_objects api oe revision (phase_teardown_options opts) objs res errs)"
proof (induction objs arbitrary: res errs)
  case (Cons obj objs)
  have "tr.keeps (\<lambda>wr. \<not> is_delete (snd wr)) (oe_Teardown oe revision obj
      (PhaseTeardownOptions_ForObject (phase_teardown_options opts) obj))"
    by (intro orphan_never_deletes phase_teardown_default_reaches_object assms)
  with Cons show ?case
    by (auto simp: Let_def intro!: tr.keeps_bind tr.keeps_rules tr.keeps_case)
qed (simp add: tr.keeps_ret)

end

definition objectEngine_of :: "'w cluster \<Rightarrow> apimachinery \<Rightarrow> ObjectEngine \<Rightarrow> 'w objectEngine" where
  "objectEngine_of cl api e =
    \<lparr>oe_Reconcile = ObjectEngine_Reconcile cl api e, oe_caller = Reconcile_caller_object api e,
     oe_Teardown = ObjectEngine_Teardown cl api e\<rparr>"

lemma Reconcile_caller_key:
  "ObjectKeyFromObject (Reconcile_caller_object api e obj) = ObjectKeyFromObject obj"
proof (cases "ensureGVKIsSet api (setManagedBy e obj)")
  case (Val obj')
  from ensureGVKIsSet_frame [OF Val] Val show ?thesis
    by (auto simp: Reconcile_caller_object_def ObjectKeyFromObject_def setManagedBy_def)
qed (simp_all add: Reconcile_caller_object_def ObjectKeyFromObject_def setManagedBy_def)

interpretation oe: object_engine "objectEngine_of cl api e" for cl api e
  by unfold_locales (simp_all add: objectEngine_of_def Reconcile_paused_keeps Reconcile_never_deletes
      Teardown_orphan_never_deletes Reconcile_caller_key)

section \<open>Properties of Reconcile\<close>

definition phaseEngine_of ::
  "'w cluster \<Rightarrow> apimachinery \<Rightarrow> validation_api \<Rightarrow> ObjectEngine \<Rightarrow> PhaseValidator \<Rightarrow> 'w PhaseEngine" where
  "phaseEngine_of cl api va e v =
    NewPhaseEngine (objectEngine_of cl api e) (PhaseValidator_Validate cl api va v)"

lemma phaseEngine_of_simps [simp]:
  "pe_objectEngine (phaseEngine_of cl api va e v) = objectEngine_of cl api e"
  "pe_phaseValidator (phaseEngine_of cl api va e v) = PhaseValidator_Validate cl api va v"
  by (simp_all add: phaseEngine_of_def NewPhaseEngine_def)

lemma keeps_PhaseEngine_Reconcile:
  assumes "tr.keeps P (pe_phaseValidator e p (opts @ ph_ReconcileOptions p))"
    and "tr.keeps P (reconcile_objects api (pe_objectEngine e) revision
      (phase_reconcile_options (opts @ ph_ReconcileOptions p)) (ph_Objects p) [] [])"
  shows "tr.keeps P (PhaseEngine_Reconcile api e revision p opts)"
  unfolding PhaseEngine_Reconcile_def Let_def
  by (intro tr.keeps_rules tr.keeps_case assms)

lemma validator_dry_run:
  "tr.keeps (\<lambda>wr. is_dry_run (snd wr)) (PhaseValidator_Validate cl api va v p opts)"
  by (rule keeps_mono [OF keeps_PhaseValidator]) (simp add: dry_run_request_def)

lemma dry_run_not_delete: "is_dry_run r \<Longrightarrow> \<not> is_delete r"
  by (cases r) auto

lemma validator_never_deletes:
  "tr.keeps (\<lambda>wr. \<not> is_delete (snd wr)) (PhaseValidator_Validate cl api va v p opts)"
  by (rule keeps_mono [OF validator_dry_run]) (rule dry_run_not_delete)

lemma phase_paused_keeps:
  assumes "PRObject WithPaused \<in> set (opts @ ph_ReconcileOptions p)"
  shows "tr.keeps (\<lambda>wr. is_dry_run (snd wr))
    (PhaseEngine_Reconcile api (phaseEngine_of cl api va e v) revision p opts)"
  using assms
  by (intro keeps_PhaseEngine_Reconcile) (auto intro: validator_dry_run oe.phase_paused_objects)

text \<open>A phase that is paused, by an option of the call or of the phase itself, is reconciled
  with dry-run requests only: preflight and objects alike change nothing.\<close>

theorem PhaseEngine_Reconcile_paused:
  assumes "PRObject WithPaused \<in> set (opts @ ph_ReconcileOptions p)"
    and "PhaseEngine_Reconcile api (phaseEngine_of cl api va e v) revision p opts s = (r, s')"
  shows "emits (\<lambda>wr. is_dry_run (snd wr)) s s'"
  by (rule tr.keepsD [OF phase_paused_keeps [OF assms(1)] assms(2)])

definition sample_phase_engine :: "Object list PhaseEngine" where
  "sample_phase_engine = phaseEngine_of sample_cluster sample_api sample_va (sample_engine no_diff)
     (NewClusterPhaseValidator sample_mapper (Writer 0))"

theorem PhaseEngine_Reconcile_paused_witness:
  "emits (\<lambda>wr. is_dry_run (snd wr)) (sample_st [])
    (snd (PhaseEngine_Reconcile sample_api sample_phase_engine 3 sample_phase [PRObject WithPaused]
       (sample_st [])))"
  unfolding sample_phase_engine_def
  by (rule PhaseEngine_Reconcile_paused [OF _ prod.collapse [symmetric]]) simp

text \<open>Preflight comes first: when validation reports an error, no object of the phase is
  reconciled, and the state is the one validation left. A validation error is put in the result,
  which is then neither complete nor in transition; any other error is returned.\<close>

theorem PhaseEngine_Reconcile_preflight:
  assumes "pe_phaseValidator e p (opts @ ph_ReconcileOptions p) s = (Val (Some er), s1)"
  shows "\<exists>pres err. PhaseEngine_Reconcile api e revision p opts s = (Val (pres, err), s1) \<and>
    pr_objects pres = [] \<and> pr_name pres = ph_Name p \<and>
    (case errors_As as_PtrPhaseValidation er of
       Some perr \<Rightarrow> err = None \<and> pr_validationError pres = Some perr \<and>
         \<not> phaseResult_IsComplete pres \<and> \<not> phaseResult_InTransition pres
     | None \<Rightarrow> err = Some (Wrap ''validating'' er))"
  using assms
  by (auto simp: PhaseEngine_Reconcile_def Let_def bind_def ret_def phaseResult_IsComplete_def
      phaseResult_InTransition_def split: option.splits)

lemma sample_phase_rejected:
  "PhaseValidator_Validate sample_cluster sample_api sample_va
     (NewClusterPhaseValidator sample_mapper (Writer 0)) (NewPhase [] []) [] (sample_st []) =
   (Val (Some (PtrPhaseValidation (PhaseValidationError []
      (Some (PhaseNameInvalidError [] [''must not be empty''])) []))), sample_st [])"
  by (simp add: PhaseValidator_Validate_def NewPhase_def Let_def ret_def validatePhaseName_def
      phaseNameValid_def sample_va_def NewPhaseValidationError_def checkForObjectDuplicates_def
      dup_init_def dup_phase_def compactObjectViolations_def)

theorem PhaseEngine_Reconcile_preflight_witness:
  "\<exists>pres. PhaseEngine_Reconcile sample_api sample_phase_engine 3 (NewPhase [] []) [] (sample_st []) =
      (Val (pres, None), sample_st []) \<and> \<not> phaseResult_IsComplete pres"
  using PhaseEngine_Reconcile_preflight [of sample_phase_engine "NewPhase [] []" "[]" "sample_st []",
      OF _, of _ "sample_st []" sample_api 3] sample_phase_rejected
  by (force simp: sample_phase_engine_def NewPhase_def errors_As_hit)

text \<open>What the loop over the objects returns.\<close>

lemma reconcile_objects_results:
  "reconcile_objects api oe revision options objs results errs s = (Val (results', err), s') \<Longrightarrow>
    \<exists>new. results' = results @ new \<and> length new \<le> length objs \<and>
      (err = None \<longrightarrow> errs = [] \<and> length new = length objs)"
proof (induction objs arbitrary: results errs s)
  case Nil
  then show ?case by (auto simp: ret_def errors_Join_def split: if_splits)
next
  case (Cons obj objs)
  obtain q s1 where q: "oe_Reconcile oe revision obj (PhaseReconcileOptions_ForObject options obj) s = (q, s1)"
    by fastforce
  show ?case
  proof (cases q)
    case (Val ores)
    with Cons.prems q have
      "reconcile_objects api oe revision options objs (results @ [ores]) errs s1 = (Val (results', err), s')"
      by (simp add: attempt_def)
    from Cons.IH [OF this] show ?thesis by auto
  next
    case (Fail e)
    with Cons.prems q Cons.IH show ?thesis
      by (fastforce simp: attempt_def Let_def ret_def errors_Join_def split: if_splits)
  qed (use Cons.prems q in \<open>simp add: attempt_def\<close>)
qed

lemma phase_results:
  assumes "PhaseEngine_Reconcile api e revision p opts s = (Val (pres, err), s')"
  shows "pr_name pres = ph_Name p \<and> length (pr_objects pres) \<le> length (ph_Objects p) \<and>
    (err = None \<and> pr_validationError pres = None \<longrightarrow> length (pr_objects pres) = length (ph_Objects p))"
proof -
  obtain q s1 where q: "pe_phaseValidator e p (opts @ ph_ReconcileOptions p) s = (q, s1)" by fastforce
  show ?thesis
  proof (cases q)
    case (Val verr)
    show ?thesis
    proof (cases verr)
      case None
      with assms q Val show ?thesis
        by (auto simp: PhaseEngine_Reconcile_def Let_def bind_eq_Val ret_def
            dest!: reconcile_objects_results)
    next
      case (Some er)
      with assms q Val show ?thesis
        by (cases "errors_As as_PtrPhaseValidation er")
          (auto simp: PhaseEngine_Reconcile_def Let_def bind_def ret_def)
    qed
  qed (use assms q in \<open>auto simp: PhaseEngine_Reconcile_def Let_def bind_def\<close>)
qed

text \<open>A phase that is complete without error has a result for every object, and each of these
  results is complete, in particular no collision; a phase never has more results than objects.\<close>

theorem PhaseEngine_complete_covers_objects:
  assumes "PhaseEngine_Reconcile api e revision p opts s = (Val (pres, None), s')"
    and "phaseResult_IsComplete pres"
  shows "length (pr_objects pres) = length (ph_Objects p) \<and>
    (\<forall>res\<in>set (pr_objects pres). result_IsComplete res \<and> result_Action res \<noteq> ActionCollision)"
  using phase_results [OF assms(1)] assms(2) collision_incomplete
  by (auto simp: phaseResult_IsComplete_def list_all_iff split: if_splits)

definition sample_empty_phase :: phase where
  "sample_empty_phase = NewPhase ''deploy'' []"

lemma sample_phase_complete:
  "PhaseEngine_Reconcile sample_api sample_phase_engine 3 sample_empty_phase [] (sample_st []) =
    (Val (\<lparr>pr_name = ''deploy'', pr_validationError = None, pr_objects = []\<rparr>, None), sample_st [])"
  by (simp add: PhaseEngine_Reconcile_def sample_phase_engine_def sample_empty_phase_def NewPhase_def
      PhaseValidator_Validate_def Let_def ret_def validatePhaseName_def phaseNameValid_def sample_va_def
      NewPhaseValidationError_def checkForObjectDuplicates_def dup_init_def dup_phase_def
      compactObjectViolations_def bind_def errors_Join_def)

theorem PhaseEngine_complete_covers_objects_witness:
  "length (pr_objects \<lparr>pr_name = ''deploy'', pr_validationError = None, pr_objects = []\<rparr>) =
    length (ph_Objects sample_empty_phase)"
  using PhaseEngine_complete_covers_objects [OF sample_phase_complete]
  by (simp add: phaseResult_IsComplete_def)

section \<open>Properties of Teardown\<close>

lemma teardown_objects_partition:
  "teardown_objects api oe revision options objs res errs s = (Val (res', err), s') \<Longrightarrow>
    ptr_name res' = ptr_name res \<and>
    (err = None \<longrightarrow> errs = [] \<and>
       mset (ptr_gone res' @ ptr_waiting res') =
       mset (ptr_gone res @ ptr_waiting res @ map ToObjectRef objs))"
proof (induction objs arbitrary: res errs s)
  case Nil
  then show ?case by (auto simp: ret_def errors_Join_def split: if_splits)
next
  case (Cons obj objs)
  from Cons.prems obtain gone e s1 where
    q: "oe_Teardown oe revision obj (PhaseTeardownOptions_ForObject options obj) s = (Val (gone, e), s1)"
    by (auto simp: bind_eq_Val)
  show ?case
  proof (cases e)
    case None
    let ?res = "if gone then res\<lparr>ptr_gone := ptr_gone res @ [ToObjectRef obj]\<rparr>
      else res\<lparr>ptr_waiting := ptr_waiting res @ [ToObjectRef obj]\<rparr>"
    from Cons.prems q None have
      "teardown_objects api oe revision options objs ?res errs s1 = (Val (res', err), s')"
      by (cases gone) (simp_all add: bind_def)
    from Cons.IH [OF this] show ?thesis by (cases gone) auto
  next
    case (Some er)
    with Cons.prems q Cons.IH show ?thesis
      by (fastforce simp: bind_def Let_def ret_def errors_Join_def split: if_splits)
  qed
qed

text \<open>A teardown of a phase without error accounts for every object of the phase, as gone or as
  waiting, and reports complete exactly when all of them are gone.\<close>

theorem PhaseEngine_Teardown_partition:
  assumes "PhaseEngine_Teardown api e revision p opts s = (Val (res, None), s')"
  shows "mset (ptr_gone res @ ptr_waiting res) = mset (map ToObjectRef (ph_Objects p)) \<and>
    (phaseTeardownResult_IsComplete res \<longleftrightarrow> mset (ptr_gone res) = mset (map ToObjectRef (ph_Objects p)))"
  using teardown_objects_partition [OF assms [unfolded PhaseEngine_Teardown_def Let_def]]
  by (auto simp: phaseTeardownResult_IsComplete_def)

theorem PhaseEngine_Teardown_partition_witness:
  "\<exists>res s'. PhaseEngine_Teardown sample_api sample_phase_engine 3 sample_phase
      [PTObject (OwnerTeardown sample_owner (Some sample_strategy))] (sample_st [sample_controlled]) =
      (Val (res, None), s') \<and> mset (ptr_gone res @ ptr_waiting res) = {#ToObjectRef sample_object#}"
proof -
  have "ObjectEngine_Teardown sample_cluster sample_api (sample_engine no_diff) 3 sample_object
      [OwnerTeardown sample_owner (Some sample_strategy)] (sample_st [sample_controlled]) =
      (Val (False, None), \<lparr>world = [], sent = [(Writer 0, delete_request sample_object sample_controlled)]\<rparr>)"
    by (simp add: ObjectEngine_Teardown_def object_teardown_options_def zero_ObjectTeardownOptions_def
        ObjectTeardownOptions_Default_def attempt_def read_object_def sample_stored teardown_existing_def
        deref_def detectOwner_def sample_controllers teardown_delete_run delete_writer_def
        delete_request_def sample_finalizers sample_st_def)
      (simp add: sample_controlled_def sample_prepared_def sample_object_def ToObjectRef_eq_iff)
  then have run: "PhaseEngine_Teardown sample_api sample_phase_engine 3 sample_phase
      [PTObject (OwnerTeardown sample_owner (Some sample_strategy))] (sample_st [sample_controlled]) =
      (Val (\<lparr>ptr_name = ''deploy'', ptr_gone = [], ptr_waiting = [ToObjectRef sample_object]\<rparr>, None),
       \<lparr>world = [], sent = [(Writer 0, delete_request sample_object sample_controlled)]\<rparr>)"
    by (simp add: PhaseEngine_Teardown_def sample_phase_engine_def objectEngine_of_def sample_phase_def
        NewPhase_def bind_def PhaseTeardownOptions_ForObject_def phase_teardown_options_def
        zero_PhaseTeardownOptions_def list_at_def ret_def errors_Join_def Let_def)
  from PhaseEngine_Teardown_partition [OF run] run show ?thesis
    by (auto simp: sample_phase_def NewPhase_def)
qed

end
