(* ===== verification/RevisionEngine.thy ===== *)
theory RevisionEngine
  imports PhaseEngine
begin

text \<open>
  machinery/revision.go: the revision engine rolls the phases of a revision out in order, each only
  after the one before it is complete, and tears them down in reverse order. The phase engine is an
  interface: a record of functions, whose contract is the locale \<open>phase_engine\<close>.
\<close>

section \<open>Interfaces\<close>

record 'w phaseEngine =
  pe_Reconcile :: "int \<Rightarrow> phase \<Rightarrow> PhaseReconcileOption list \<Rightarrow> ('w, phaseResult \<times> go_error option) run"
  pe_Teardown :: "int \<Rightarrow> phase \<Rightarrow> PhaseTeardownOption list \<Rightarrow>
    ('w, phaseTeardownResult \<times> go_error option) run"

record 'w RevisionEngine =
  re_phaseEngine :: "'w phaseEngine"
  re_revisionValidator :: "revision \<Rightarrow> go_error option go"
  re_writer :: Writer

definition NewRevisionEngine ::
  "'w phaseEngine \<Rightarrow> (revision \<Rightarrow> go_error option go) \<Rightarrow> Writer \<Rightarrow> 'w RevisionEngine" where
  "NewRevisionEngine pe v w =
    \<lparr>re_phaseEngine = pe, re_revisionValidator = v, re_writer = w\<rparr>"

section \<open>Results\<close>

record revisionResult =
  rr_phases :: "string list"
  rr_phasesResults :: "phaseResult list"
  rr_validationError :: "RevisionValidationError option"

definition revisionResult_InTransition :: "revisionResult \<Rightarrow> bool" where
  "revisionResult_InTransition r =
    (if list_ex phaseResult_InTransition (rr_phasesResults r) then True
     else if rr_validationError r \<noteq> None then False
     else length (rr_phasesResults r) < length (rr_phases r))"

definition revisionResult_HasProgressed :: "revisionResult \<Rightarrow> bool" where
  "revisionResult_HasProgressed r \<longleftrightarrow>
    length (filter phaseResult_HasProgressed (rr_phasesResults r)) = length (rr_phases r)"

definition revisionResult_IsComplete :: "revisionResult \<Rightarrow> bool" where
  "revisionResult_IsComplete r =
    (if length (rr_phasesResults r) < length (rr_phases r) then False
     else list_all phaseResult_IsComplete (rr_phasesResults r))"

record revisionTeardownResult =
  rt_phases :: "phaseTeardownResult list"
  rt_active :: string
  rt_waiting :: "string list"
  rt_gone :: "string list"

definition revisionTeardownResult_IsComplete :: "revisionTeardownResult \<Rightarrow> bool" where
  "revisionTeardownResult_IsComplete r \<longleftrightarrow> rt_waiting r = [] \<and> rt_active r = []"

definition GetActivePhaseName :: "revisionTeardownResult \<Rightarrow> string \<times> bool" where
  "GetActivePhaseName r = (rt_active r, rt_active r \<noteq> [])"

section \<open>Reconcile\<close>

text \<open>The loop of lines 206 to 221.\<close>

fun reconcile_phases ::
  "'w phaseEngine \<Rightarrow> int \<Rightarrow> RevisionReconcileOptions \<Rightarrow> phase list \<Rightarrow> phaseResult list \<Rightarrow>
    ('w, phaseResult list \<times> go_error option) run" where
  "reconcile_phases pe n options [] results = ret (results, None)"
| "reconcile_phases pe n options (p # ps) results =
    bind (pe_Reconcile pe n p (RevisionReconcileOptions_ForPhase options (ph_Name p))) (\<lambda>(pres, err).
      case err of
        Some e \<Rightarrow> ret (results, Some (Wrap ''reconciling object'' e))
      | None \<Rightarrow>
          if \<not> phaseResult_IsComplete pres then ret (results @ [pres], None)
          else reconcile_phases pe n options ps (results @ [pres]))"

definition RevisionEngine_Reconcile ::
  "'w RevisionEngine \<Rightarrow> revision \<Rightarrow> RevisionReconcileOption list \<Rightarrow>
    ('w, revisionResult \<times> go_error option) run" where
  "RevisionEngine_Reconcile re rv opts =
    (let options = revision_reconcile_options (opts @ rev_ReconcileOptions rv);
         rres = \<lparr>rr_phases = map ph_Name (rev_Phases rv), rr_phasesResults = [],
                 rr_validationError = None\<rparr>
     in bind (lift (re_revisionValidator re rv)) (\<lambda>err.
          case err of
            Some er \<Rightarrow>
              (case errors_As as_PtrRevisionValidation er of
                 Some rerr \<Rightarrow> ret (rres\<lparr>rr_validationError := Some rerr\<rparr>, None)
               | None \<Rightarrow> ret (rres, Some (Wrap ''validating'' er)))
          | None \<Rightarrow>
              bind (reconcile_phases (re_phaseEngine re) (rev_Revision rv) options (rev_Phases rv) [])
                (\<lambda>(results, err). ret (rres\<lparr>rr_phasesResults := results\<rparr>, err))))"

section \<open>Teardown\<close>

text \<open>The loop of lines 339 to 373. The names still waiting are a set, kept as a list.\<close>

fun teardown_phases ::
  "'w phaseEngine \<Rightarrow> int \<Rightarrow> RevisionTeardownOptions \<Rightarrow> phase list \<Rightarrow> phase list \<Rightarrow> string list \<Rightarrow>
    revisionTeardownResult \<Rightarrow> ('w, revisionTeardownResult option \<times> go_error option) run" where
  "teardown_phases pe n options phases [] waiting res =
    ret (Some (res\<lparr>rt_gone := rev (rt_gone res), rt_active := []\<rparr>), None)"
| "teardown_phases pe n options phases (p # ps) waiting res =
    (let waiting' = removeAll (ph_Name p) waiting;
         res' = res\<lparr>rt_active := ph_Name p\<rparr>
     in bind (pe_Teardown pe n p (RevisionTeardownOptions_ForPhase options (ph_Name p))) (\<lambda>(pres, err).
          case err of
            Some e \<Rightarrow> ret (None, Some (Wrap ''teardown phase'' e))
          | None \<Rightarrow>
              let res'' = res'\<lparr>rt_phases := rt_phases res' @ [pres]\<rparr>
              in if phaseTeardownResult_IsComplete pres
                 then teardown_phases pe n options phases ps waiting'
                        (res''\<lparr>rt_gone := rt_gone res'' @ [ph_Name p]\<rparr>)
                 else ret (Some (res''\<lparr>rt_waiting := filter (\<lambda>m. m \<in> set waiting') (map ph_Name phases),
                                      rt_gone := rev (rt_gone res'')\<rparr>), None)))"

definition RevisionEngine_Teardown ::
  "'w RevisionEngine \<Rightarrow> revision \<Rightarrow> RevisionTeardownOption list \<Rightarrow>
    ('w, revisionTeardownResult option \<times> go_error option) run" where
  "RevisionEngine_Teardown re rv opts =
    (let options = revision_teardown_options (opts @ rev_TeardownOptions rv);
         phases = rev_Phases rv
     in teardown_phases (re_phaseEngine re) (rev_Revision rv) options phases (rev phases)
          (remdups (map ph_Name phases))
          \<lparr>rt_phases = [], rt_active = [], rt_waiting = [], rt_gone = []\<rparr>)"

section \<open>The interface of the phase engine\<close>

locale phase_engine =
  fixes pe :: "'w phaseEngine"
  assumes reconcile_names: "pe_Reconcile pe n p opts s = (Val (pres, err), s') \<Longrightarrow> pr_name pres = ph_Name p"
    and teardown_names: "pe_Teardown pe n p topts s = (Val (tres, err), s') \<Longrightarrow> ptr_name tres = ph_Name p"
    and paused_dry_run: "PRObject WithPaused \<in> set opts \<Longrightarrow>
      tr.keeps (\<lambda>wr. is_dry_run (snd wr)) (pe_Reconcile pe n p opts)"
    and reconcile_never_deletes: "tr.keeps (\<lambda>wr. \<not> is_delete (snd wr)) (pe_Reconcile pe n p opts)"
    and orphan_never_deletes: "PTObject WithOrphan \<in> set topts \<Longrightarrow>
      tr.keeps (\<lambda>wr. \<not> is_delete (snd wr)) (pe_Teardown pe n p topts)"
begin

lemma reconcile_in_order:
  "reconcile_phases pe n options ps results s = (Val (results', err), s') \<Longrightarrow>
    \<exists>new. results' = results @ new \<and> map pr_name new = map ph_Name (take (length new) ps) \<and>
      length new \<le> length ps \<and> list_all phaseResult_IsComplete (butlast new) \<and>
      (err = None \<and> length new < length ps \<longrightarrow> new \<noteq> [] \<and> \<not> phaseResult_IsComplete (last new))"
proof (induction ps arbitrary: results s)
  case Nil
  then show ?case by (simp add: ret_def)
next
  case (Cons p ps)
  from Cons.prems obtain pres perr s1 where
    q: "pe_Reconcile pe n p (RevisionReconcileOptions_ForPhase options (ph_Name p)) s = (Val (pres, perr), s1)"
    by (auto simp: bind_eq_Val)
  note name = reconcile_names [OF q]
  show ?case
  proof (cases "perr = None \<and> phaseResult_IsComplete pres")
    case True
    with Cons.prems q have
      "reconcile_phases pe n options ps (results @ [pres]) s1 = (Val (results', err), s')"
      by (simp add: bind_def)
    from Cons.IH [OF this] obtain new where
      "results' = (results @ [pres]) @ new" "map pr_name new = map ph_Name (take (length new) ps)"
      "length new \<le> length ps" "list_all phaseResult_IsComplete (butlast new)"
      "err = None \<and> length new < length ps \<longrightarrow> new \<noteq> [] \<and> \<not> phaseResult_IsComplete (last new)"
      by auto
    with name True show ?thesis by (intro exI [of _ "pres # new"]) auto
  next
    case False
    with Cons.prems q name show ?thesis
      by (cases perr) (auto simp: bind_def ret_def split: if_splits)
  qed
qed

lemma revision_paused:
  assumes "RRPhase (PRObject WithPaused) \<in> set opts"
  shows "tr.keeps (\<lambda>wr. is_dry_run (snd wr))
    (reconcile_phases pe n (revision_reconcile_options opts) ps results)"
proof (induction ps arbitrary: results)
  case (Cons p ps)
  have "tr.keeps (\<lambda>wr. is_dry_run (snd wr)) (pe_Reconcile pe n p
      (RevisionReconcileOptions_ForPhase (revision_reconcile_options opts) (ph_Name p)))"
    by (intro paused_dry_run revision_default_reaches_phase assms)
  with Cons show ?case by (auto intro!: tr.keeps_bind tr.keeps_case tr.keeps_rules)
qed (simp add: tr.keeps_ret)

lemma revision_never_deletes:
  "tr.keeps (\<lambda>wr. \<not> is_delete (snd wr)) (reconcile_phases pe n options ps results)"
  by (induction ps arbitrary: results)
    (auto intro!: tr.keeps_bind tr.keeps_case tr.keeps_rules reconcile_never_deletes)

lemma revision_orphan_never_deletes:
  assumes "RTPhase (PTObject WithOrphan) \<in> set opts"
  shows "tr.keeps (\<lambda>wr. \<not> is_delete (snd wr))
    (teardown_phases pe n (revision_teardown_options opts) phases ps waiting res)"
proof (induction ps arbitrary: waiting res)
  case (Cons p ps)
  have "tr.keeps (\<lambda>wr. \<not> is_delete (snd wr)) (pe_Teardown pe n p
      (RevisionTeardownOptions_ForPhase (revision_teardown_options opts) (ph_Name p)))"
    by (intro orphan_never_deletes revision_teardown_default_reaches_phase assms)
  with Cons show ?case by (auto simp: Let_def intro!: tr.keeps_bind tr.keeps_case tr.keeps_rules)
qed (simp add: tr.keeps_ret)

end

definition phaseEngine_ops :: "apimachinery \<Rightarrow> 'w PhaseEngine \<Rightarrow> 'w phaseEngine" where
  "phaseEngine_ops api e =
    \<lparr>pe_Reconcile = PhaseEngine_Reconcile api e, pe_Teardown = PhaseEngine_Teardown api e\<rparr>"

interpretation pe: phase_engine "phaseEngine_ops api (phaseEngine_of cl api va e v)" for api cl va e v
proof unfold_locales
  fix n p opts
  show "tr.keeps (\<lambda>wr. \<not> is_delete (snd wr))
      (pe_Reconcile (phaseEngine_ops api (phaseEngine_of cl api va e v)) n p opts)"
    unfolding phaseEngine_ops_def phaseEngine.simps
    by (intro keeps_PhaseEngine_Reconcile)
      (simp_all add: validator_never_deletes oe.phase_reconcile_never_deletes)
next
  fix n p topts
  assume "PTObject WithOrphan \<in> set topts"
  then show "tr.keeps (\<lambda>wr. \<not> is_delete (snd wr))
      (pe_Teardown (phaseEngine_ops api (phaseEngine_of cl api va e v)) n p topts)"
    by (auto simp: phaseEngine_ops_def PhaseEngine_Teardown_def Let_def
        intro: oe.phase_orphan_never_deletes)
next
  fix n p topts s tres err s'
  assume "pe_Teardown (phaseEngine_ops api (phaseEngine_of cl api va e v)) n p topts s = (Val (tres, err), s')"
  then show "ptr_name tres = ph_Name p"
    by (auto simp: phaseEngine_ops_def PhaseEngine_Teardown_def Let_def
        dest!: teardown_objects_partition)
qed (auto simp: phaseEngine_ops_def phase_paused_keeps dest: phase_results)

section \<open>Properties of Reconcile\<close>

text \<open>The revision engine over the engines and validators of this development.\<close>

definition revisionEngine_of ::
  "'w cluster \<Rightarrow> apimachinery \<Rightarrow> validation_api \<Rightarrow> ObjectEngine \<Rightarrow> PhaseValidator \<Rightarrow> Writer \<Rightarrow>
    'w RevisionEngine" where
  "revisionEngine_of cl api va e v w =
    NewRevisionEngine (phaseEngine_ops api (phaseEngine_of cl api va e v)) (RevisionValidator_Validate va) w"

lemma revisionEngine_of_simps [simp]:
  "re_phaseEngine (revisionEngine_of cl api va e v w) = phaseEngine_ops api (phaseEngine_of cl api va e v)"
  "re_revisionValidator (revisionEngine_of cl api va e v w) = RevisionValidator_Validate va"
  by (simp_all add: revisionEngine_of_def NewRevisionEngine_def)

lemma Reconcile_Val_cases:
  assumes "RevisionEngine_Reconcile re rv opts s = (Val (rres, err), s')"
  obtains (invalid) verr where "re_revisionValidator re rv = Val (Some verr)" "s' = s"
      "rr_phasesResults rres = []" "rr_phases rres = map ph_Name (rev_Phases rv)"
      "err = None \<longrightarrow> rr_validationError rres \<noteq> None"
  | (valid) results where "re_revisionValidator re rv = Val None" "rr_validationError rres = None"
      "rr_phasesResults rres = results" "rr_phases rres = map ph_Name (rev_Phases rv)"
      "reconcile_phases (re_phaseEngine re) (rev_Revision rv)
         (revision_reconcile_options (opts @ rev_ReconcileOptions rv)) (rev_Phases rv) [] s =
         (Val (results, err), s')"
proof (cases "re_revisionValidator re rv")
  case (Val verr)
  show ?thesis
  proof (cases verr)
    case None
    with assms Val valid show ?thesis
      by (auto simp: RevisionEngine_Reconcile_def Let_def bind_eq_Val ret_def)
  next
    case (Some er)
    with assms Val invalid show ?thesis
      by (cases "errors_As as_PtrRevisionValidation er")
        (auto simp: RevisionEngine_Reconcile_def Let_def ret_def)
  qed
qed (use assms in \<open>auto simp: RevisionEngine_Reconcile_def Let_def bind_def lift_def\<close>)

text \<open>C3: phases are rolled out in order. The results are those of a prefix of the phases; every
  phase before the last one acted on is complete; and when phases are left out without an error,
  the last one acted on is not complete yet.\<close>

theorem RevisionEngine_Reconcile_in_order:
  assumes "RevisionEngine_Reconcile (revisionEngine_of cl api va e v w) rv opts s = (Val (rres, err), s')"
    and "rr_validationError rres = None" "err = None"
  defines "results \<equiv> rr_phasesResults rres"
  shows "map pr_name results = map ph_Name (take (length results) (rev_Phases rv)) \<and>
    length results \<le> length (rev_Phases rv) \<and> list_all phaseResult_IsComplete (butlast results) \<and>
    (length results < length (rev_Phases rv) \<longrightarrow>
       results \<noteq> [] \<and> \<not> phaseResult_IsComplete (last results))"
  using assms(1)
proof (cases rule: Reconcile_Val_cases)
  case (invalid verr)
  with assms(2,3) show ?thesis by simp
next
  case (valid rs)
  from pe.reconcile_in_order [OF valid(5) [simplified]] assms(3) valid(3) show ?thesis
    by (auto simp: results_def)
qed

definition sample_revision_engine :: "Object list RevisionEngine" where
  "sample_revision_engine = revisionEngine_of sample_cluster sample_api sample_va (sample_engine no_diff)
     (NewClusterPhaseValidator sample_mapper (Writer 0)) (Writer 0)"

definition sample_revision :: revision where
  "sample_revision = NewRevision ''rev'' 3 [sample_empty_phase]"

definition sample_revision_result :: revisionResult where
  "sample_revision_result = \<lparr>rr_phases = [''deploy''],
     rr_phasesResults = [\<lparr>pr_name = ''deploy'', pr_validationError = None, pr_objects = []\<rparr>],
     rr_validationError = None\<rparr>"

lemma sample_revision_valid: "RevisionValidator_Validate sample_va sample_revision = Val None"
  by (simp add: RevisionValidator_Validate_def staticValidateMultiplePhases_def sample_revision_def
      NewRevision_def sample_empty_phase_def NewPhase_def NewPhaseValidationError_def validatePhaseName_def
      phaseNameValid_def sample_va_def checkForObjectDuplicates_def dup_init_def dup_phase_def
      dups_of_phase_def NewRevisionValidationError_def)

lemma sample_revision_run:
  "RevisionEngine_Reconcile sample_revision_engine sample_revision [] (sample_st []) =
    (Val (sample_revision_result, None), sample_st [])"
proof -
  have "PhaseEngine_Reconcile sample_api (phaseEngine_of sample_cluster sample_api sample_va
      (sample_engine no_diff) (NewClusterPhaseValidator sample_mapper (Writer 0))) 3 sample_empty_phase []
      (sample_st []) =
      (Val (\<lparr>pr_name = ''deploy'', pr_validationError = None, pr_objects = []\<rparr>, None), sample_st [])"
    using sample_phase_complete by (simp add: sample_phase_engine_def)
  moreover have "rev_Phases sample_revision = [sample_empty_phase]" "rev_Revision sample_revision = 3"
    "rev_ReconcileOptions sample_revision = []" "ph_Name sample_empty_phase = ''deploy''"
    by (simp_all add: sample_revision_def NewRevision_def sample_empty_phase_def NewPhase_def)
  ultimately show ?thesis
    using sample_revision_valid
    by (simp add: RevisionEngine_Reconcile_def sample_revision_engine_def Let_def bind_def ret_def
        phaseEngine_ops_def RevisionReconcileOptions_ForPhase_def revision_reconcile_options_def
        zero_RevisionReconcileOptions_def list_at_def phaseResult_IsComplete_def
        sample_revision_result_def)
qed

theorem RevisionEngine_Reconcile_in_order_witness:
  "\<exists>rres s'. RevisionEngine_Reconcile sample_revision_engine sample_revision [] (sample_st []) =
      (Val (rres, None), s') \<and>
    map pr_name (rr_phasesResults rres) = take (length (rr_phasesResults rres)) [''deploy''] \<and>
    rr_phasesResults rres \<noteq> []"
  using RevisionEngine_Reconcile_in_order [OF sample_revision_run [unfolded sample_revision_engine_def]]
    sample_revision_run
  by (simp add: sample_revision_result_def sample_revision_def NewRevision_def)

text \<open>C25: a revision that is paused by an option is reconciled with dry-run requests only, in every
  phase and for every object.\<close>

theorem RevisionEngine_Reconcile_paused:
  assumes "RRPhase (PRObject WithPaused) \<in> set (opts @ rev_ReconcileOptions rv)"
    and "RevisionEngine_Reconcile (revisionEngine_of cl api va e v w) rv opts s = (r, s')"
  shows "emits (\<lambda>wr. is_dry_run (snd wr)) s s'"
proof -
  have "tr.keeps (\<lambda>wr. is_dry_run (snd wr))
      (RevisionEngine_Reconcile (revisionEngine_of cl api va e v w) rv opts)"
    unfolding RevisionEngine_Reconcile_def Let_def revisionEngine_of_simps
    by (intro tr.keeps_rules tr.keeps_case pe.revision_paused assms(1))
  from tr.keepsD [OF this assms(2)] show ?thesis .
qed

theorem RevisionEngine_Reconcile_paused_witness:
  "emits (\<lambda>wr. is_dry_run (snd wr)) (sample_st [])
    (snd (RevisionEngine_Reconcile sample_revision_engine (NewRevision ''rev'' 3 [sample_phase])
       [RRPhase (PRObject WithPaused)] (sample_st [])))"
  unfolding sample_revision_engine_def
  by (rule RevisionEngine_Reconcile_paused [OF _ prod.collapse [symmetric]]) simp

text \<open>Reconciling a revision never deletes an object.\<close>

theorem RevisionEngine_Reconcile_never_deletes:
  assumes "RevisionEngine_Reconcile (revisionEngine_of cl api va e v w) rv opts s = (r, s')"
  shows "emits (\<lambda>wr. \<not> is_delete (snd wr)) s s'"
proof -
  have "tr.keeps (\<lambda>wr. \<not> is_delete (snd wr))
      (RevisionEngine_Reconcile (revisionEngine_of cl api va e v w) rv opts)"
    unfolding RevisionEngine_Reconcile_def Let_def revisionEngine_of_simps
    by (intro tr.keeps_rules tr.keeps_case pe.revision_never_deletes)
  from tr.keepsD [OF this assms] show ?thesis .
qed

theorem RevisionEngine_Reconcile_never_deletes_witness:
  "emits (\<lambda>wr. \<not> is_delete (snd wr)) (sample_st [])
    (snd (RevisionEngine_Reconcile sample_revision_engine (NewRevision ''rev'' 3 [sample_phase])
       [] (sample_st [])))"
  unfolding sample_revision_engine_def
  by (rule RevisionEngine_Reconcile_never_deletes [OF prod.collapse [symmetric]])

text \<open>C26: a revision that fails its preflight check touches nothing: no request is sent and no phase
  has a result.\<close>

theorem RevisionEngine_Reconcile_preflight:
  assumes "RevisionValidator_Validate va rv \<noteq> Val None"
    and "RevisionEngine_Reconcile (revisionEngine_of cl api va e v w) rv opts s = (r, s')"
  shows "s' = s \<and> (\<exists>rres. r = Val (rres, None) \<and> rr_validationError rres \<noteq> None \<and>
    rr_phasesResults rres = [] \<and> \<not> revisionResult_InTransition rres \<and>
    (rev_Phases rv \<noteq> [] \<longrightarrow> \<not> revisionResult_IsComplete rres))"
proof -
  obtain vs where vs: "staticValidateMultiplePhases va (rev_Phases rv) = Val vs"
    using static_phase_errors_total unfolding staticValidateMultiplePhases_def by blast
  with assms(1) have "RevisionValidator_Validate va rv = Val (Some (PtrRevisionValidation
      (RevisionValidationError (rev_Name rv) (rev_Revision rv) vs)))"
    by (auto simp: RevisionValidator_Validate_def NewRevisionValidationError_def split: if_splits)
  with assms(2) have "s' = s" "r = Val (\<lparr>rr_phases = map ph_Name (rev_Phases rv), rr_phasesResults = [],
      rr_validationError = Some (RevisionValidationError (rev_Name rv) (rev_Revision rv) vs)\<rparr>, None)"
    by (simp_all add: RevisionEngine_Reconcile_def Let_def ret_def errors_As_hit)
  then show ?thesis
    by (simp add: revisionResult_InTransition_def revisionResult_IsComplete_def)
qed

theorem RevisionEngine_Reconcile_preflight_witness:
  "snd (RevisionEngine_Reconcile sample_revision_engine (NewRevision ''rev'' 3 [NewPhase [] []])
     [] (sample_st [])) = sample_st []"
  using RevisionEngine_Reconcile_preflight [of sample_va "NewRevision ''rev'' 3 [NewPhase [] []]",
      OF _ prod.collapse [symmetric], of sample_cluster sample_api "sample_engine no_diff"
        "NewClusterPhaseValidator sample_mapper (Writer 0)" "Writer 0" "[]" "sample_st []"]
  by (simp add: sample_revision_engine_def RevisionValidator_Validate_def
      staticValidateMultiplePhases_def NewRevision_def NewPhase_def NewPhaseValidationError_def
      validatePhaseName_def phaseNameValid_def sample_va_def NewRevisionValidationError_def)

text \<open>Every phase result has as many object results as the phase has objects, unless preflight
  rejected the phase.\<close>

definition covers :: "phase \<Rightarrow> phaseResult \<Rightarrow> bool" where
  "covers p pres \<longleftrightarrow> pr_name pres = ph_Name p \<and>
    (pr_validationError pres = None \<longrightarrow> length (pr_objects pres) = length (ph_Objects p))"

text \<open>A property of every phase result that comes without an error is one of all results of a run.\<close>

lemma reconcile_phases_all:
  assumes "\<And>p pres s s'. p \<in> set ps \<Longrightarrow>
      pe_Reconcile pe n p (RevisionReconcileOptions_ForPhase options (ph_Name p)) s = (Val (pres, None), s') \<Longrightarrow> Q p pres"
    and "reconcile_phases pe n options ps results s = (Val (results', err), s')"
  shows "\<exists>new. results' = results @ new \<and> list_all2 Q (take (length new) ps) new"
  using assms
proof (induction ps arbitrary: results s)
  case Nil
  then show ?case by (simp add: ret_def)
next
  case (Cons p ps)
  from Cons.prems(2) obtain pres perr s1 where
    q: "pe_Reconcile pe n p (RevisionReconcileOptions_ForPhase options (ph_Name p)) s = (Val (pres, perr), s1)"
    by (auto simp: bind_eq_Val)
  have Q: "perr = None \<Longrightarrow> Q p pres" using Cons.prems(1) q by auto
  show ?case
  proof (cases "perr = None \<and> phaseResult_IsComplete pres")
    case True
    with Cons.prems(2) q have "reconcile_phases pe n options ps (results @ [pres]) s1 = (Val (results', err), s')"
      by (simp add: bind_def)
    then have "\<exists>new. results' = (results @ [pres]) @ new \<and> list_all2 Q (take (length new) ps) new"
      by (rule Cons.IH [rotated]) (auto intro: Cons.prems(1))
    then obtain new where
      "results' = (results @ [pres]) @ new" "list_all2 Q (take (length new) ps) new" by blast
    with Q True show ?thesis by (intro exI [of _ "pres # new"]) simp
  next
    case False
    with Cons.prems(2) q Q show ?thesis by (cases perr) (auto simp: bind_def ret_def split: if_splits)
  qed
qed

lemma reconcile_phases_covers:
  assumes "reconcile_phases (phaseEngine_ops api pe) n options ps results s = (Val (results', err), s')"
  shows "\<exists>new. results' = results @ new \<and> list_all2 covers (take (length new) ps) new"
  by (rule reconcile_phases_all [OF _ assms])
    (auto simp: phaseEngine_ops_def covers_def dest: phase_results)

text \<open>A revision that reports itself complete, without an error and after a preflight that
  passed, has a result for every object of every phase, and every one of these results is complete,
  in particular not a collision.\<close>

theorem RevisionEngine_complete_covers_objects:
  assumes "RevisionEngine_Reconcile (revisionEngine_of cl api va e v w) rv opts s = (Val (rres, None), s')"
    and "rr_validationError rres = None" "revisionResult_IsComplete rres"
  shows "list_all2 (\<lambda>p pres. pr_name pres = ph_Name p \<and> length (pr_objects pres) = length (ph_Objects p) \<and>
      (\<forall>res\<in>set (pr_objects pres). result_IsComplete res \<and> result_Action res \<noteq> ActionCollision))
    (rev_Phases rv) (rr_phasesResults rres)"
  using assms(1)
proof (cases rule: Reconcile_Val_cases)
  case (invalid verr)
  with assms(2) show ?thesis by simp
next
  case (valid results)
  have all: "length (rev_Phases rv) \<le> length results" "list_all phaseResult_IsComplete results"
    using assms(3) valid(3,4) by (auto simp: revisionResult_IsComplete_def split: if_splits)
  have "list_all2 covers (take (length results) (rev_Phases rv)) results"
    using reconcile_phases_covers [OF valid(5) [simplified]] by auto
  with all(1) have "list_all2 covers (rev_Phases rv) results" by simp
  then show ?thesis
    unfolding valid(3)
  proof (rule list.rel_mono_strong)
    fix p pres
    assume "pres \<in> set results" "covers p pres"
    with all(2) have "phaseResult_IsComplete pres" by (simp add: list_all_iff)
    then have "pr_validationError pres = None" "\<forall>res\<in>set (pr_objects pres). result_IsComplete res"
      by (auto simp: phaseResult_IsComplete_def list_all_iff split: if_splits)
    with \<open>covers p pres\<close> show "pr_name pres = ph_Name p \<and>
        length (pr_objects pres) = length (ph_Objects p) \<and>
        (\<forall>res\<in>set (pr_objects pres). result_IsComplete res \<and> result_Action res \<noteq> ActionCollision)"
      using collision_incomplete by (auto simp: covers_def)
  qed
qed

theorem RevisionEngine_complete_covers_objects_witness:
  "list_all2 (\<lambda>p pres. pr_name pres = ph_Name p \<and> length (pr_objects pres) = length (ph_Objects p))
    (rev_Phases sample_revision) (rr_phasesResults sample_revision_result)"
  using RevisionEngine_complete_covers_objects [OF sample_revision_run [unfolded sample_revision_engine_def]]
  by (simp add: sample_revision_result_def revisionResult_IsComplete_def phaseResult_IsComplete_def
      sample_revision_def NewRevision_def)

text \<open>A rollout of one object that is already as desired.\<close>

definition sample_rollout :: revision where
  "sample_rollout = NewRevision ''rev'' 3 [sample_phase]"

lemma sample_rollout_phases: "rev_Phases sample_rollout = [sample_phase]" "rev_Revision sample_rollout = 3"
  "ph_Objects sample_phase = [sample_object]" "ph_Name sample_phase = ''deploy''" "ph_TeardownOptions sample_phase = []"
  "rev_TeardownOptions sample_rollout = []" "ph_ReconcileOptions sample_phase = []"
  "rev_ReconcileOptions sample_rollout = []"
  by (simp_all add: sample_rollout_def NewRevision_def sample_phase_def NewPhase_def)

definition sample_rollout_opts :: "RevisionReconcileOption list" where
  "sample_rollout_opts = map RRPhase (map PRObject (sample_opts CollisionProtectionPrevent))"

definition sample_idle :: ObjectResult where
  "sample_idle = ObjectResultIdle \<lparr>nr_action = ActionIdle, nr_obj = sample_controlled, nr_probeResults = [],
     nr_compareResult = no_diff, nr_options = sample_options CollisionProtectionPrevent\<rparr>"

definition sample_checked :: "Object list st" where
  "sample_checked = \<lparr>world = [sample_controlled],
     sent = [(Writer 0, Patch sample_object (RawPatch ApplyPatchType ''{}'') dry_run_patch_opts)]\<rparr>"

lemma sample_phase_accepted:
  "PhaseValidator_Validate sample_cluster sample_api sample_va (NewClusterPhaseValidator sample_mapper (Writer 0))
     sample_phase opts s = (Val None, s\<lparr>sent := sent s @
       [(Writer 0, Patch sample_object (RawPatch ApplyPatchType ''{}'') dry_run_patch_opts)]\<rparr>)"
  by (simp add: PhaseValidator_Validate_def sample_phase_def NewPhase_def NewClusterPhaseValidator_def
      NewClusterObjectValidator_def ObjectValidator_Validate_def Let_def bind_def lift_def ret_def
      validateDryRun_def sample_va_def send_raw_def classify_dry_run_def dry_run_patch_opts_def
      validatePhaseName_def phaseNameValid_def NewPhaseValidationError_def compactObjectViolations_def
      checkForObjectDuplicates_def dup_init_def dup_phase_def dup_step_def split: option.splits)

lemma sample_observes_anytime:
  "world s = [sample_controlled] \<Longrightarrow> observes sample_cluster sample_api (sample_engine no_diff) 3 sample_object
     (sample_opts CollisionProtectionPrevent) s (sample_ob CollisionProtectionPrevent sample_controlled
       ctrlSituationIsController no_diff (Some (sample_ref sample_owner)) 3) s"
  by (simp add: observes_def sample_ob_def sample_default sample_prepare read_object_def
      sample_stored sample_check sample_revisions)

lemma sample_object_idle:
  "world s = [sample_controlled] \<Longrightarrow>
   ObjectEngine_Reconcile sample_cluster sample_api (sample_engine no_diff) 3 sample_object
     (sample_opts CollisionProtectionPrevent) s = (Val sample_idle, s)"
  by (subst observes_idle [OF sample_observes_anytime])
    (simp_all add: sample_ob_def no_diff_def IsConflict_def CompareResult_Modified_def new_result_defs
      sample_options_def sample_idle_def)

definition sample_rollout_result :: revisionResult where
  "sample_rollout_result = \<lparr>rr_phases = [''deploy''],
     rr_phasesResults = [\<lparr>pr_name = ''deploy'', pr_validationError = None, pr_objects = [sample_idle]\<rparr>],
     rr_validationError = None\<rparr>"

lemma sample_rollout_valid: "RevisionValidator_Validate sample_va sample_rollout = Val None"
  by (simp add: RevisionValidator_Validate_def staticValidateMultiplePhases_def sample_rollout_def
      NewRevision_def sample_phase_def NewPhase_def NewPhaseValidationError_def validatePhaseName_def
      phaseNameValid_def sample_va_def checkForObjectDuplicates_def dup_init_def dup_phase_def dup_step_def
      dups_of_phase_def NewRevisionValidationError_def NewObjectValidationError_def validateObjectMetadata_def
      sample_object_def Let_def)

lemma sample_rollout_run:
  "RevisionEngine_Reconcile sample_revision_engine sample_rollout sample_rollout_opts
     (sample_st [sample_controlled]) = (Val (sample_rollout_result, None), sample_checked)"
proof -
  note p = sample_rollout_phases
  have "PhaseEngine_Reconcile sample_api (phaseEngine_of sample_cluster sample_api sample_va
      (sample_engine no_diff) (NewClusterPhaseValidator sample_mapper (Writer 0))) 3 sample_phase
      (map PRObject (sample_opts CollisionProtectionPrevent)) (sample_st [sample_controlled]) =
      (Val (\<lparr>pr_name = ''deploy'', pr_validationError = None, pr_objects = [sample_idle]\<rparr>, None), sample_checked)"
    by (simp add: PhaseEngine_Reconcile_def Let_def p sample_phase_accepted bind_def
        objectEngine_of_def attempt_def sample_object_idle sample_checked_def sample_st_def ret_def errors_Join_def)
  moreover have "result_IsComplete sample_idle"
    by (simp add: sample_idle_def result_IsComplete_def isComplete_def sample_options_def)
  ultimately show ?thesis
    by (simp add: RevisionEngine_Reconcile_def sample_revision_engine_def Let_def bind_def ret_def lift_def
        phaseEngine_ops_def p sample_rollout_valid sample_rollout_opts_def sample_rollout_result_def
        phaseResult_IsComplete_def del: map_map list.map_comp)
qed

section \<open>Properties of Teardown\<close>

text \<open>The loop invariant: with \<open>done\<close> the phases already gone, what is left in \<open>ps\<close> is the reverse of
  a prefix of the phases, and the names waiting are those of that prefix.\<close>

lemma teardown_phases_spec:
  assumes "teardown_phases pe n options phases ps waiting res s = (Val (Some res', err), s')"
    and "phases = rev ps @ gone" "distinct (map ph_Name phases)"
    and "set waiting = set (map ph_Name ps)" "rt_gone res = rev (map ph_Name gone)" "rt_waiting res = []"
  shows "err = None \<and>
    ((rt_active res' = [] \<and> rt_waiting res' = [] \<and> rt_gone res' = map ph_Name phases) \<or>
     map ph_Name phases = rt_waiting res' @ rt_active res' # rt_gone res')"
  using assms
proof (induction ps arbitrary: waiting res gone s)
  case Nil
  then show ?case by (auto simp: ret_def)
next
  case (Cons p ps)
  from Cons.prems(1) obtain pres perr s1 where
    q: "pe_Teardown pe n p (RevisionTeardownOptions_ForPhase options (ph_Name p)) s = (Val (pres, perr), s1)"
    by (auto simp: bind_eq_Val Let_def)
  have none: "perr = None" using Cons.prems(1) q by (cases perr) (auto simp: bind_def Let_def ret_def)
  have w: "set (removeAll (ph_Name p) waiting) = set (map ph_Name ps)"
    using Cons.prems(2-4) by auto
  show ?case
  proof (cases "phaseTeardownResult_IsComplete pres")
    case True
    with Cons.prems(1) q none have
      "teardown_phases pe n options phases ps (removeAll (ph_Name p) waiting)
        (res\<lparr>rt_active := ph_Name p, rt_phases := rt_phases res @ [pres],
          rt_gone := rt_gone res @ [ph_Name p]\<rparr>) s1 = (Val (Some res', err), s')"
      by (simp add: bind_def Let_def)
    from Cons.IH [OF this, of "p # gone"] Cons.prems w show ?thesis by simp
  next
    case False
    let ?waiting = "filter (\<lambda>m. m \<in> set (removeAll (ph_Name p) waiting)) (map ph_Name phases)"
    have "?waiting = map ph_Name (rev ps)"
      unfolding w Cons.prems(2) using Cons.prems(2,3) by (auto simp: filter_empty_conv)
    moreover have "err = None" "res' = res\<lparr>rt_active := ph_Name p, rt_phases := rt_phases res @ [pres],
        rt_waiting := ?waiting, rt_gone := rev (rt_gone res)\<rparr>"
      using False Cons.prems(1) q none by (simp_all add: bind_def Let_def ret_def)
    moreover have "map ph_Name phases = map ph_Name (rev ps) @ ph_Name p # map ph_Name gone"
      using Cons.prems(2) by simp
    ultimately show ?thesis using Cons.prems(5) by simp
  qed
qed

text \<open>C10: teardown runs in reverse order and reports where it stands: if the phases have distinct
  names, their list is the phases still waiting, then the active one, then those that are gone; or
  all are gone and none is active. It never returns a result together with an error.\<close>

theorem RevisionEngine_Teardown_order:
  assumes "RevisionEngine_Teardown re rv opts s = (Val (Some res, err), s')"
    and "distinct (map ph_Name (rev_Phases rv))"
  shows "err = None \<and>
    ((rt_active res = [] \<and> rt_waiting res = [] \<and> rt_gone res = map ph_Name (rev_Phases rv)) \<or>
     map ph_Name (rev_Phases rv) = rt_waiting res @ rt_active res # rt_gone res)"
  using assms
  by (intro teardown_phases_spec [where ps = "rev (rev_Phases rv)" and gone = "[]"])
    (auto simp: RevisionEngine_Teardown_def Let_def)

lemma sample_revision_teardown:
  "RevisionEngine_Teardown sample_revision_engine sample_revision [] (sample_st []) =
    (Val (Some \<lparr>rt_phases = [\<lparr>ptr_name = ''deploy'', ptr_gone = [], ptr_waiting = []\<rparr>],
       rt_active = [], rt_waiting = [], rt_gone = [''deploy'']\<rparr>, None), sample_st [])"
  by (simp add: RevisionEngine_Teardown_def sample_revision_engine_def sample_revision_def NewRevision_def
      sample_empty_phase_def NewPhase_def Let_def bind_def ret_def phaseEngine_ops_def
      PhaseEngine_Teardown_def errors_Join_def phaseTeardownResult_IsComplete_def)

theorem RevisionEngine_Teardown_order_witness:
  "\<exists>res s'. RevisionEngine_Teardown sample_revision_engine sample_revision [] (sample_st []) =
      (Val (Some res, None), s') \<and>
    rt_active res = [] \<and> rt_waiting res = [] \<and> rt_gone res = [''deploy'']"
  using RevisionEngine_Teardown_order [OF sample_revision_teardown] sample_revision_teardown
  by (simp add: sample_revision_def NewRevision_def)

text \<open>While orphaning, the teardown of a revision deletes nothing.\<close>

theorem RevisionEngine_Teardown_orphan:
  assumes "RTPhase (PTObject WithOrphan) \<in> set (opts @ rev_TeardownOptions rv)"
    and "RevisionEngine_Teardown (revisionEngine_of cl api va e v w) rv opts s = (r, s')"
  shows "emits (\<lambda>wr. \<not> is_delete (snd wr)) s s'"
  using tr.keepsD [OF pe.revision_orphan_never_deletes [OF assms(1)]] assms(2)
  by (simp add: RevisionEngine_Teardown_def Let_def)

theorem RevisionEngine_Teardown_orphan_witness:
  "emits (\<lambda>wr. \<not> is_delete (snd wr)) (sample_st [sample_controlled])
    (snd (RevisionEngine_Teardown sample_revision_engine (NewRevision ''rev'' 3 [sample_phase])
       [RTPhase (PTObject WithOrphan)] (sample_st [sample_controlled])))"
  unfolding sample_revision_engine_def
  by (rule RevisionEngine_Teardown_orphan [OF _ prod.collapse [symmetric]]) simp

text \<open>With distinct names, none of them empty, a teardown result reports complete exactly when
  every phase is gone.\<close>

theorem RevisionEngine_Teardown_complete_iff:
  assumes "RevisionEngine_Teardown re rv opts s = (Val (Some res, err), s')"
    and "distinct (map ph_Name (rev_Phases rv))" "[] \<notin> set (map ph_Name (rev_Phases rv))"
  shows "revisionTeardownResult_IsComplete res \<longleftrightarrow> rt_gone res = map ph_Name (rev_Phases rv)"
proof -
  have "err = None \<and>
    ((rt_active res = [] \<and> rt_waiting res = [] \<and> rt_gone res = map ph_Name (rev_Phases rv)) \<or>
     map ph_Name (rev_Phases rv) = rt_waiting res @ rt_active res # rt_gone res)"
    using assms(1,2)
    by (intro teardown_phases_spec [where ps = "rev (rev_Phases rv)" and gone = "[]"])
      (auto simp: RevisionEngine_Teardown_def Let_def)
  then show ?thesis
    using assms(3) by (auto simp: revisionTeardownResult_IsComplete_def)
qed

theorem RevisionEngine_Teardown_complete_iff_witness:
  "\<exists>res. fst (RevisionEngine_Teardown sample_revision_engine sample_revision [] (sample_st [])) =
     Val (Some res, None) \<and> revisionTeardownResult_IsComplete res"
proof -
  have "revisionTeardownResult_IsComplete
      \<lparr>rt_phases = [\<lparr>ptr_name = ''deploy'', ptr_gone = [], ptr_waiting = []\<rparr>],
       rt_active = [], rt_waiting = [], rt_gone = [''deploy'']\<rparr>"
    using RevisionEngine_Teardown_complete_iff [OF sample_revision_teardown]
    by (simp add: sample_revision_def NewRevision_def sample_empty_phase_def NewPhase_def)
  then show ?thesis by (simp add: sample_revision_teardown)
qed

text \<open>A phase with an empty name that still waits for objects to disappear is taken for no active
  phase at all: the result reports complete.\<close>

theorem RevisionEngine_Teardown_empty_name:
  assumes "rev_Phases rv = [p]" "ph_Name p = []"
    and "pe_Teardown (re_phaseEngine re) (rev_Revision rv) p
      (RevisionTeardownOptions_ForPhase (revision_teardown_options (opts @ rev_TeardownOptions rv)) []) s =
      (Val (pres, None), s')"
    and "\<not> phaseTeardownResult_IsComplete pres"
  shows "\<exists>res. RevisionEngine_Teardown re rv opts s = (Val (Some res, None), s') \<and>
    revisionTeardownResult_IsComplete res \<and> rt_gone res = []"
  using assms
  by (simp add: RevisionEngine_Teardown_def Let_def bind_def ret_def revisionTeardownResult_IsComplete_def)

definition sample_stuck_engine :: "unit RevisionEngine" where
  "sample_stuck_engine = NewRevisionEngine
     \<lparr>pe_Reconcile = (\<lambda>n p opts. fail NoMatchError),
      pe_Teardown = (\<lambda>n p opts. ret (\<lparr>ptr_name = ph_Name p, ptr_gone = [],
        ptr_waiting = map ToObjectRef (ph_Objects p)\<rparr>, None))\<rparr> (\<lambda>rv. Val None) (Writer 0)"

theorem RevisionEngine_Teardown_empty_name_witness:
  "\<exists>res. RevisionEngine_Teardown sample_stuck_engine
      (NewRevision ''rev'' 3 [NewPhase [] [sample_object]]) [] \<lparr>world = (), sent = []\<rparr> =
      (Val (Some res, None), \<lparr>world = (), sent = []\<rparr>) \<and>
    revisionTeardownResult_IsComplete res \<and> rt_gone res = []"
  by (rule RevisionEngine_Teardown_empty_name
      [where p = "NewPhase [] [sample_object]" and pres = "\<lparr>ptr_name = [], ptr_gone = [],
         ptr_waiting = [ToObjectRef sample_object]\<rparr>"])
    (simp_all add: NewRevision_def NewPhase_def sample_stuck_engine_def NewRevisionEngine_def ret_def
      phaseTeardownResult_IsComplete_def)

end
