(* ===== verification/Comparator.thy ===== *)
theory Comparator
  imports ObjectEngine
begin

text \<open>
  The comparator, \<open>machinery/comparator.go\<close>: which fields of the desired object another field manager
  has taken over, and which values differ. OpenAPI documents, the schema parser, typed values and
  field sets are code of kube-openapi and structured-merge-diff: they are parameters in
  \<open>compare_env\<close>, an OpenAPI document being of type \<open>'o\<close>, a parser of type \<open>'p\<close> and a typed value of
  type \<open>'t\<close>. A \<open>fieldpath.Set\<close> is the list of its paths as printed, as in the results; that its
  operations are those of sets of paths is the hypothesis \<open>fieldset_laws\<close>.
\<close>

section \<open>Parameters\<close>

record ('o, 'p, 't) compare_env =
  oa_Paths :: "'o \<Rightarrow> string list option"
  ToSchemaFromOpenAPI :: "'o \<Rightarrow> go_error + 'p"
  FromUnstructured :: "'p \<Rightarrow> string \<Rightarrow> Object \<Rightarrow> go_error + 't"
  FromStructured :: "'p \<Rightarrow> string \<Rightarrow> Object \<Rightarrow> go_error + 't"
  ToFieldSet :: "'t \<Rightarrow> go_error + fieldset"
  RemoveItems :: "'t \<Rightarrow> fieldset \<Rightarrow> 't"
  typed_Compare :: "'t \<Rightarrow> 't \<Rightarrow> go_error + typed_Comparison"
  fs_FromJSON :: "string \<Rightarrow> go_error + fieldset"
  fs_NewSet :: "string list \<Rightarrow> fieldset"
  fs_Difference :: "fieldset \<Rightarrow> fieldset \<Rightarrow> fieldset"
  fs_Intersection :: "fieldset \<Rightarrow> fieldset \<Rightarrow> fieldset"
  fs_Leaves :: "fieldset \<Rightarrow> fieldset"
  fs_extends :: "string \<Rightarrow> string \<Rightarrow> bool"
  existingAPIScheme_New :: "GroupVersionKind \<Rightarrow> go_error + Object"
  IsNotRegisteredError :: "go_error \<Rightarrow> bool"
  GetCanonicalTypeName :: "Object \<Rightarrow> string"
  ToRESTFriendlyName :: "string \<Rightarrow> string"

text \<open>The documented behaviour of the operations on field sets: sets of paths, where a path and a path
  that extends it are different elements. \<open>Leaves\<close> keeps the paths that no other path of the set
  extends.\<close>

definition fieldset_laws :: "('o, 'p, 't) compare_env \<Rightarrow> bool" where
  "fieldset_laws env \<longleftrightarrow>
    (\<forall>ps. set (fs_NewSet env ps) = set ps) \<and>
    (\<forall>a b. set (fs_Difference env a b) = set a - set b) \<and>
    (\<forall>a b. set (fs_Intersection env a b) = set a \<inter> set b) \<and>
    (\<forall>a. set (fs_Leaves env a) = {p \<in> set a. \<forall>q\<in>set a. \<not> fs_extends env q p})"

lemma fieldset_lawsD:
  assumes "fieldset_laws env"
  shows "set (fs_NewSet env ps) = set ps" "set (fs_Difference env a b) = set a - set b"
    "set (fs_Intersection env a b) = set a \<inter> set b" 
    "set (fs_Leaves env a) = {p \<in> set a. \<forall>q\<in>set a. \<not> fs_extends env q p}"
  using assms by (auto simp: fieldset_laws_def)

section \<open>The comparator\<close>

record 'o Comparator =
  openAPIAccessor :: "string \<times> string \<Rightarrow> go_error + 'o"
  cmp_scheme :: apimachinery
  cmp_fieldOwner :: string

text \<open>\<open>gvSpec\<close> is \<open>GVSpec\<close> of an \<open>openapi3\<close> root on the discovery client.\<close>

definition NewComparator :: "(string \<times> string \<Rightarrow> go_error + 'o) \<Rightarrow> apimachinery \<Rightarrow> string \<Rightarrow> 'o Comparator" where
  "NewComparator gvSpec scheme owner =
    \<lparr>openAPIAccessor = gvSpec, cmp_scheme = scheme, cmp_fieldOwner = owner\<rparr>"

definition stripPaths :: "string list" where
  "stripPaths =
    [''.apiVersion'', ''.kind'', ''.metadata.name'', ''.metadata.namespace'',
     ''.metadata.creationTimestamp'', ''.metadata.selfLink'', ''.metadata.uid'', ''.metadata.clusterName'',
     ''.metadata.generation'', ''.metadata.managedFields'', ''.metadata.resourceVersion'']"

definition stripSet :: "('o, 'p, 't) compare_env \<Rightarrow> fieldset" where
  "stripSet env = fs_NewSet env stripPaths"

definition HasSuffix :: "string \<Rightarrow> string \<Rightarrow> bool" where
  "HasSuffix s suffix \<longleftrightarrow> length suffix \<le> length s \<and> drop (length s - length suffix) s = suffix"

definition hasStatusSubresource :: "('o, 'p, 't) compare_env \<Rightarrow> 'o \<Rightarrow> bool" where
  "hasStatusSubresource env openAPISchema =
    (case oa_Paths env openAPISchema of
       None \<Rightarrow> False
     | Some paths \<Rightarrow> list_ex (\<lambda>path. HasSuffix path ''{name}/status'') paths)"

definition localStripSet :: "('o, 'p, 't) compare_env \<Rightarrow> 'o \<Rightarrow> fieldset" where
  "localStripSet env s =
    (if hasStatusSubresource env s then fs_NewSet env (stripSet env @ [''.status'']) else stripSet env)"

definition openAPICanonicalName :: "('o, 'p, 't) compare_env \<Rightarrow> Object \<Rightarrow> string go" where
  "openAPICanonicalName env obj =
    (let gvk = GVK obj
     in case existingAPIScheme_New env gvk of
          Inl err \<Rightarrow>
            if IsNotRegisteredError env err
            then Val (ToRESTFriendlyName env (Group gvk @ ''/'' @ Version gvk @ ''.'' @ Kind gvk))
            else Fail err
        | Inr ob \<Rightarrow> Val (GetCanonicalTypeName env ob))"

definition getTyped :: "('o, 'p, 't) compare_env \<Rightarrow> 'p \<Rightarrow> string \<Rightarrow> Object \<Rightarrow> 't go" where
  "getTyped env parser typeName obj =
    (case repr obj of
       Unstructured \<Rightarrow>
         (case FromUnstructured env parser typeName obj of
            Inl err \<Rightarrow> Fail (Wrap ''from unstructured'' err) | Inr t \<Rightarrow> Val t)
     | _ \<Rightarrow>
         (case FromStructured env parser typeName obj of
            Inl err \<Rightarrow> Fail (Wrap ''from structured'' err) | Inr t \<Rightarrow> Val t))"

definition findManagedFields :: "string \<Rightarrow> Object \<Rightarrow> ManagedFieldsEntry option" where
  "findManagedFields owner accessor =
    find (\<lambda>mf. mf_Manager mf = owner \<and> mf_Operation mf = ''Apply'' \<and> mf_Subresource mf = [])
      (GetManagedFields accessor)"

definition checked :: "string \<Rightarrow> go_error + 'a \<Rightarrow> 'a go" where
  "checked msg r = (case r of Inl err \<Rightarrow> Fail (Wrap msg err) | Inr x \<Rightarrow> Val x)"

text \<open>The loop over the managers when none of the entries is ours.\<close>

fun foreign_managers ::
  "('o, 'p, 't) compare_env \<Rightarrow> fieldset \<Rightarrow> ManagedFieldsEntry list \<Rightarrow> CompareResultManagedFields list go" where
  "foreign_managers env desired [] = Val []"
| "foreign_managers env desired (mf # mfs) =
    obind (checked ''field set for actual'' (fs_FromJSON env (mf_FieldsV1 mf))) (\<lambda>fs.
      let common = fs_Intersection env desired fs
      in obind (foreign_managers env desired mfs) (\<lambda>rest.
           Val (if common = [] then rest else \<lparr>Manager = mf_Manager mf, Fields = common\<rparr> # rest)))"

text \<open>The loop that indexes the difference by manager: conflicting and other managers.\<close>

fun index_managers ::
  "('o, 'p, 't) compare_env \<Rightarrow> string \<Rightarrow> fieldset \<Rightarrow> ManagedFieldsEntry list \<Rightarrow>
    (CompareResultManagedFields list \<times> CompareResultManagedFields list) go" where
  "index_managers env owner diff [] = Val ([], [])"
| "index_managers env owner diff (mf # mfs) =
    (if mf_Manager mf = owner then index_managers env owner diff mfs
     else obind (checked ''field set for actual'' (fs_FromJSON env (mf_FieldsV1 mf))) (\<lambda>fs.
       let c = \<lparr>Manager = mf_Manager mf, Fields = fs_Intersection env fs diff\<rparr>;
           o' = \<lparr>Manager = mf_Manager mf, Fields = fs_Difference env fs diff\<rparr>
       in obind (index_managers env owner diff mfs) (\<lambda>(cs, os).
            Val (if Fields c = [] then cs else c # cs, if Fields o' = [] then os else o' # os))))"

text \<open>The first half of \<open>Compare\<close>, up to the field set of the desired object.\<close>

record ('o, 'p, 't) extrapolated =
  ex_actual :: Object
  ex_schema :: 'o
  ex_parser :: 'p
  ex_tName :: string
  ex_typedDesired :: 't
  ex_fieldSet :: fieldset

definition extrapolate ::
  "('o, 'p, 't) compare_env \<Rightarrow> 'o Comparator \<Rightarrow> Object \<Rightarrow> Object \<Rightarrow> ComparatorOptions \<Rightarrow>
    ('o, 'p, 't) extrapolated go" where
  "extrapolate env d desiredObject0 actualObject0 options =
    obind (ensureGVKIsSet (cmp_scheme d) desiredObject0) (\<lambda>desiredObject1.
    obind (ensureGVKIsSet (cmp_scheme d) actualObject0) (\<lambda>actualObject.
    if GVK desiredObject1 \<noteq> GVK actualObject then Panics ''desired and actual must have same GVK''
    else
    obind (checked ''API accessor''
             (openAPIAccessor d (Group (GVK desiredObject1), Version (GVK desiredObject1)))) (\<lambda>s.
    obind (checked ''schema from OpenAPI'' (ToSchemaFromOpenAPI env s)) (\<lambda>parser.
    obind (case co_Owner options of
             None \<Rightarrow> Val desiredObject1
           | Some owner \<Rightarrow>
               obind (deref (co_OwnerStrategy options)) (\<lambda>S.
                 SetControllerReference S owner desiredObject1)) (\<lambda>desiredObject.
    obind (openAPICanonicalName env desiredObject) (\<lambda>tName.
    obind (owrap (Wrap ''desired object'') (getTyped env parser tName desiredObject)) (\<lambda>typedDesired.
    obind (checked ''desired to field set'' (ToFieldSet env typedDesired)) (\<lambda>fieldSet.
    Val \<lparr>ex_actual = actualObject, ex_schema = s, ex_parser = parser, ex_tName = tName,
         ex_typedDesired = typedDesired, ex_fieldSet = fieldSet\<rparr>))))))))"

definition Compare ::
  "('o, 'p, 't) compare_env \<Rightarrow> 'o Comparator \<Rightarrow> Object \<Rightarrow> Object \<Rightarrow>
    (ComparatorOptions \<Rightarrow> ComparatorOptions) list \<Rightarrow> CompareResult go" where
  "Compare env d desiredObject actualObject opts =
    obind (extrapolate env d desiredObject actualObject
             (fold (\<lambda>opt acc. opt acc) opts zero_ComparatorOptions)) (\<lambda>x.
    let strip = localStripSet env (ex_schema x);
        desired = fs_Difference env (ex_fieldSet x) strip;
        managed = GetManagedFields (ex_actual x)
    in case findManagedFields (cmp_fieldOwner d) (ex_actual x) of
         None \<Rightarrow>
           obind (foreign_managers env desired managed) (\<lambda>cs.
             Val \<lparr>ConflictingMangers = cs, OtherManagers = [], DesiredFieldSet = Some desired,
                  Comparison = None\<rparr>)
       | Some mf \<Rightarrow>
           obind (checked ''field set for actual'' (fs_FromJSON env (mf_FieldsV1 mf))) (\<lambda>actualFieldSet.
           let diff = fs_Leaves env (fs_Difference env desired actualFieldSet)
           in obind (index_managers env (cmp_fieldOwner d) diff managed) (\<lambda>(cs, os).
              obind (owrap (Wrap ''actual object'')
                       (getTyped env (ex_parser x) (ex_tName x) (ex_actual x))) (\<lambda>typedActual.
              obind (checked ''compare''
                       (typed_Compare env (RemoveItems env (ex_typedDesired x) strip)
                          (RemoveItems env typedActual strip))) (\<lambda>comparison.
              Val \<lparr>ConflictingMangers = cs, OtherManagers = os, DesiredFieldSet = Some desired,
                   Comparison = Some comparison\<rparr>)))))"

section \<open>What the loops collect\<close>

definition lists_field :: "CompareResultManagedFields list \<Rightarrow> string \<Rightarrow> string \<Rightarrow> bool" where
  "lists_field cs m f \<longleftrightarrow> (\<exists>c\<in>set cs. Manager c = m \<and> f \<in> set (Fields c))"

text \<open>\<open>m\<close> has an entry in the managed fields that names the field \<open>f\<close>.\<close>

definition manages :: "('o, 'p, 't) compare_env \<Rightarrow> ManagedFieldsEntry list \<Rightarrow> string \<Rightarrow> string \<Rightarrow> bool" where
  "manages env mfs m f \<longleftrightarrow>
    (\<exists>mf\<in>set mfs. mf_Manager mf = m \<and> (\<exists>fs. fs_FromJSON env (mf_FieldsV1 mf) = Inr fs \<and> f \<in> set fs))"

lemma checked_Val [simp]: "checked msg r = Val x \<longleftrightarrow> r = Inr x"
  by (cases r) (simp_all add: checked_def)

lemma lists_field_simps [simp]:
  "\<not> lists_field [] m f"
  "lists_field (c # cs) m f \<longleftrightarrow> Manager c = m \<and> f \<in> set (Fields c) \<or> lists_field cs m f"
  by (auto simp: lists_field_def)

lemma manages_simps [simp]:
  "\<not> manages env [] m f"
  "manages env (mf # mfs) m f \<longleftrightarrow>
    mf_Manager mf = m \<and> (\<exists>fs. fs_FromJSON env (mf_FieldsV1 mf) = Inr fs \<and> f \<in> set fs) \<or> manages env mfs m f"
  by (auto simp: manages_def)

lemma foreign_managers_lists:
  assumes "fieldset_laws env" "foreign_managers env desired mfs = Val cs"
  shows "(lists_field cs m f \<longleftrightarrow> manages env mfs m f \<and> f \<in> set desired) \<and> (\<forall>c\<in>set cs. Fields c \<noteq> [])"
  using assms(2)
proof (induction mfs arbitrary: cs)
  case (Cons mf mfs)
  obtain fs rest where fs: "fs_FromJSON env (mf_FieldsV1 mf) = Inr fs"
    and rest: "foreign_managers env desired mfs = Val rest"
    and cs: "cs = (if fs_Intersection env desired fs = [] then rest
      else \<lparr>Manager = mf_Manager mf, Fields = fs_Intersection env desired fs\<rparr> # rest)"
    using Cons.prems by (auto simp: obind_eq_Val Let_def)
  show ?case
    using Cons.IH [OF rest] fs cs fieldset_lawsD(3) [OF assms(1), of desired fs]
    by (cases "fs_Intersection env desired fs = []") auto
qed simp

lemma index_managers_lists:
  assumes "fieldset_laws env" "index_managers env owner diff mfs = Val (cs, os)"
  shows "(lists_field cs m f \<longleftrightarrow> m \<noteq> owner \<and> manages env mfs m f \<and> f \<in> set diff) \<and>
    (\<forall>c\<in>set cs. Fields c \<noteq> [])"
  using assms(2)
proof (induction mfs arbitrary: cs os)
  case (Cons mf mfs)
  show ?case
  proof (cases "mf_Manager mf = owner")
    case True
    then have "index_managers env owner diff mfs = Val (cs, os)" using Cons.prems by simp
    from Cons.IH [OF this] True show ?thesis by auto
  next
    case False
    obtain fs cs' os' where fs: "fs_FromJSON env (mf_FieldsV1 mf) = Inr fs"
      and rest: "index_managers env owner diff mfs = Val (cs', os')"
      and cs: "cs = (if fs_Intersection env fs diff = [] then cs'
        else \<lparr>Manager = mf_Manager mf, Fields = fs_Intersection env fs diff\<rparr> # cs')"
      using Cons.prems False by (auto simp: obind_eq_Val Let_def)
    show ?thesis
      using Cons.IH [OF rest] fs cs False fieldset_lawsD(3) [OF assms(1), of fs diff]
      by (cases "fs_Intersection env fs diff = []") auto
  qed
qed simp

lemma index_managers_total:
  assumes "\<And>s. \<exists>fs. fs_FromJSON env s = Inr fs"
  shows "\<exists>cs os. index_managers env owner diff mfs = Val (cs, os)"
proof (induction mfs)
  case (Cons mf mfs)
  obtain fs where "fs_FromJSON env (mf_FieldsV1 mf) = Inr fs" using assms by blast
  with Cons show ?case by (auto simp: Let_def checked_def)
qed simp

section \<open>What a comparison reports\<close>

lemma extrapolate_managed:
  "extrapolate env d des act options = Val x \<Longrightarrow> GetManagedFields (ex_actual x) = GetManagedFields act"
  by (auto simp: extrapolate_def obind_eq_Val split: if_splits dest!: ensureGVKIsSet_frame)

text \<open>The fields that count: those of the desired object, without the stripped ones, and of these, when
  the engine has applied before, the leaves it does not own.\<close>

definition contested_fields ::
  "('o, 'p, 't) compare_env \<Rightarrow> 'o Comparator \<Rightarrow> ('o, 'p, 't) extrapolated \<Rightarrow> Object \<Rightarrow> fieldset" where
  "contested_fields env d x act =
    (let desired = fs_Difference env (ex_fieldSet x) (localStripSet env (ex_schema x))
     in case findManagedFields (cmp_fieldOwner d) act of
          None \<Rightarrow> desired
        | Some mf \<Rightarrow>
            (case fs_FromJSON env (mf_FieldsV1 mf) of
               Inl err \<Rightarrow> []
             | Inr ours \<Rightarrow> fs_Leaves env (fs_Difference env desired ours)))"

lemma Compare_lists:
  assumes laws: "fieldset_laws env" and run: "Compare env d des act opts = Val res"
  obtains x where "extrapolate env d des act (fold (\<lambda>opt acc. opt acc) opts zero_ComparatorOptions) = Val x"
    and "\<forall>m f. lists_field (ConflictingMangers res) m f \<longleftrightarrow>
      (findManagedFields (cmp_fieldOwner d) act \<noteq> None \<longrightarrow> m \<noteq> cmp_fieldOwner d) \<and>
      manages env (GetManagedFields act) m f \<and> f \<in> set (contested_fields env d x act)"
    and "\<forall>c\<in>set (ConflictingMangers res). Fields c \<noteq> []"
proof -
  obtain x where x: "extrapolate env d des act (fold (\<lambda>opt acc. opt acc) opts zero_ComparatorOptions) = Val x"
    using run by (auto simp: Compare_def obind_eq_Val)
  note mfs = extrapolate_managed [OF x]
  let ?D = "fs_Difference env (ex_fieldSet x) (localStripSet env (ex_schema x))"
  have find: "findManagedFields (cmp_fieldOwner d) (ex_actual x) = findManagedFields (cmp_fieldOwner d) act"
    by (simp add: findManagedFields_def mfs)
  show thesis
  proof (cases "findManagedFields (cmp_fieldOwner d) act")
    case None
    then obtain cs where "foreign_managers env ?D (GetManagedFields act) = Val cs"
      "res = \<lparr>ConflictingMangers = cs, OtherManagers = [], DesiredFieldSet = Some ?D, Comparison = None\<rparr>"
      using run x by (auto simp: Compare_def obind_eq_Val Let_def find mfs)
    with foreign_managers_lists [OF laws this(1)] None that [OF x] show thesis
      by (simp add: contested_fields_def)
  next
    case (Some mf)
    then obtain ours cs os comp where
      "fs_FromJSON env (mf_FieldsV1 mf) = Inr ours"
      "index_managers env (cmp_fieldOwner d) (fs_Leaves env (fs_Difference env ?D ours)) (GetManagedFields act) =
         Val (cs, os)"
      "res = \<lparr>ConflictingMangers = cs, OtherManagers = os, DesiredFieldSet = Some ?D, Comparison = Some comp\<rparr>"
      using run x by (auto simp: Compare_def obind_eq_Val Let_def find mfs)
    with index_managers_lists [OF laws this(2)] Some that [OF x] show thesis
      by (simp add: contested_fields_def)
  qed
qed

lemma IsConflict_lists:
  "\<forall>c\<in>set (ConflictingMangers res). Fields c \<noteq> [] \<Longrightarrow>
    IsConflict res \<longleftrightarrow> (\<exists>m f. lists_field (ConflictingMangers res) m f)"
  by (cases "ConflictingMangers res") (force simp: IsConflict_def neq_Nil_conv)+

lemma contested_not_stripped:
  assumes "fieldset_laws env" "f \<in> set (contested_fields env d x act)"
  shows "f \<in> set (ex_fieldSet x) \<and> f \<notin> set stripPaths \<and>
    (hasStatusSubresource env (ex_schema x) \<longrightarrow> f \<noteq> ''.status'')"
proof -
  have "f \<in> set (ex_fieldSet x) - set (localStripSet env (ex_schema x))"
    using assms(2) fieldset_lawsD(2,4) [OF assms(1)]
    by (auto simp: contested_fields_def Let_def split: option.splits sum.splits)
  then show ?thesis
    using fieldset_lawsD(1) [OF assms(1)] by (auto simp: localStripSet_def stripSet_def split: if_splits)
qed

text \<open>C17: the conflicts a comparison reports are exactly these. When the engine has an Apply entry
  among the managed fields, a conflict is a field that the entry of a manager with another name
  holds and that is a leaf of the desired field set without the stripped paths and without the
  fields of the engine's Apply entry. When the engine has no Apply entry, a conflict is any field of the
  desired field set without the stripped paths that any entry holds, entries under the engine's own
  name (of updates) included. No conflict is outside the desired field set or is one of the stripped
  paths; a stripped path stands for itself only, so that with a status subresource the path .status
  is no conflict, while the fields below .status can be. The comparison counts as a conflict exactly
  when there is such a field.\<close>

theorem Compare_conflicts_exact:
  assumes "fieldset_laws env" "Compare env d des act opts = Val res"
  shows "\<exists>x. extrapolate env d des act (fold (\<lambda>opt acc. opt acc) opts zero_ComparatorOptions) = Val x \<and>
    (\<forall>m f. lists_field (ConflictingMangers res) m f \<longleftrightarrow>
       (findManagedFields (cmp_fieldOwner d) act \<noteq> None \<longrightarrow> m \<noteq> cmp_fieldOwner d) \<and>
       manages env (GetManagedFields act) m f \<and> f \<in> set (contested_fields env d x act)) \<and>
    (\<forall>m f. lists_field (ConflictingMangers res) m f \<longrightarrow> f \<in> set (ex_fieldSet x) \<and> f \<notin> set stripPaths \<and>
       (hasStatusSubresource env (ex_schema x) \<longrightarrow> f \<noteq> ''.status'')) \<and>
    (IsConflict res \<longleftrightarrow> (\<exists>m f. lists_field (ConflictingMangers res) m f))"
proof -
  obtain x where
    x: "extrapolate env d des act (fold (\<lambda>opt acc. opt acc) opts zero_ComparatorOptions) = Val x"
    and l: "\<forall>m f. lists_field (ConflictingMangers res) m f \<longleftrightarrow>
       (findManagedFields (cmp_fieldOwner d) act \<noteq> None \<longrightarrow> m \<noteq> cmp_fieldOwner d) \<and>
       manages env (GetManagedFields act) m f \<and> f \<in> set (contested_fields env d x act)"
    and ne: "\<forall>c\<in>set (ConflictingMangers res). Fields c \<noteq> []" by (rule Compare_lists [OF assms(1,2)], rule that; assumption)
  have strip: "f \<in> set (ex_fieldSet x) \<and> f \<notin> set stripPaths \<and>
      (hasStatusSubresource env (ex_schema x) \<longrightarrow> f \<noteq> ''.status'')"
    if "lists_field (ConflictingMangers res) m f" for m f
    using that l contested_not_stripped [OF assms(1), of f d x act] by auto
  show ?thesis
  proof (intro exI conjI allI impI)
    show "extrapolate env d des act (fold (\<lambda>opt acc. opt acc) opts zero_ComparatorOptions) = Val x" by (rule x)
  qed (rule l [THEN spec, THEN spec], use strip in blast, use strip in blast, use strip in blast, rule IsConflict_lists [OF ne])
qed

text \<open>Sole ownership is peace: when the engine owns every desired field, nothing is contested.\<close>

lemma contested_fields_owned:
  assumes "fieldset_laws env" "findManagedFields (cmp_fieldOwner d) act = Some mf"
    and "fs_FromJSON env (mf_FieldsV1 mf) = Inr ours"
    and "set (ex_fieldSet x) - set (localStripSet env (ex_schema x)) \<subseteq> set ours"
  shows "set (contested_fields env d x act) = {}"
  using assms(2-4) fieldset_lawsD(2,4) [OF assms(1)] by (auto simp: contested_fields_def)

text \<open>The fields under .status are not ignored. When the API has a status subresource the comparator
  strips the path .status, but a field below it stays in the desired field set: if another manager
  owns it, as the controller that writes the status does, every comparison is a conflict.\<close>

theorem status_leaf_still_conflicts:
  assumes "fieldset_laws env" "Compare env d des act opts = Val res"
    and "extrapolate env d des act (fold (\<lambda>opt acc. opt acc) opts zero_ComparatorOptions) = Val x"
    and "hasStatusSubresource env (ex_schema x)"
    and "''.status.'' @ path \<in> set (ex_fieldSet x)"
    and "\<And>q. q \<in> set (ex_fieldSet x) \<Longrightarrow> \<not> fs_extends env q (''.status.'' @ path)"
    and "manages env (GetManagedFields act) m (''.status.'' @ path)" "m \<noteq> cmp_fieldOwner d"
    and "\<not> manages env (GetManagedFields act) (cmp_fieldOwner d) (''.status.'' @ path)"
  shows "lists_field (ConflictingMangers res) m (''.status.'' @ path) \<and> IsConflict res"
proof -
  let ?f = "''.status.'' @ path"
  obtain y where
    "extrapolate env d des act (fold (\<lambda>opt acc. opt acc) opts zero_ComparatorOptions) = Val y"
    and "\<forall>m f. lists_field (ConflictingMangers res) m f \<longleftrightarrow>
       (findManagedFields (cmp_fieldOwner d) act \<noteq> None \<longrightarrow> m \<noteq> cmp_fieldOwner d) \<and>
       manages env (GetManagedFields act) m f \<and> f \<in> set (contested_fields env d y act)"
    and ne: "\<forall>c\<in>set (ConflictingMangers res). Fields c \<noteq> []" by (rule Compare_lists [OF assms(1,2)], rule that; assumption)
  with assms(3,7,8)
  have l: "lists_field (ConflictingMangers res) m ?f \<longleftrightarrow> ?f \<in> set (contested_fields env d x act)"
    by simp
  have "?f \<notin> set (localStripSet env (ex_schema x))"
    using fieldset_lawsD(1) [OF assms(1)] by (simp add: localStripSet_def stripSet_def stripPaths_def)
  then have D: "?f \<in> set (fs_Difference env (ex_fieldSet x) (localStripSet env (ex_schema x)))"
    using assms(5) fieldset_lawsD(2) [OF assms(1)] by simp
  have "?f \<in> set (contested_fields env d x act)"
  proof (cases "findManagedFields (cmp_fieldOwner d) act")
    case None
    with D show ?thesis by (simp add: contested_fields_def)
  next
    case (Some mf)
    then have mf: "mf \<in> set (GetManagedFields act)" "mf_Manager mf = cmp_fieldOwner d"
      by (auto simp: findManagedFields_def dest: find_Some_mem)
    obtain ours where ours: "fs_FromJSON env (mf_FieldsV1 mf) = Inr ours"
      using assms(2,3) Some extrapolate_managed [OF assms(3)]
      by (auto simp: Compare_def findManagedFields_def obind_eq_Val Let_def)
    with mf assms(9) have "?f \<notin> set ours" by (auto simp: manages_def)
    with D assms(6) fieldset_lawsD(2,4) [OF assms(1)] Some ours show ?thesis
      by (simp add: contested_fields_def)
  qed
  with l IsConflict_lists [OF ne] show ?thesis by blast
qed

section \<open>The comparator in the engine\<close>

text \<open>The engine calls \<open>Compare\<close> with at most one option, the owner.\<close>

definition engine_comparator :: "('o, 'p, 't) compare_env \<Rightarrow> 'o Comparator \<Rightarrow> comparator" where
  "engine_comparator env d desired actual options = Compare env d desired actual [\<lambda>_. options]"

text \<open>The options it passes: the owner and its strategy, when the run has an owner.\<close>

definition engine_compare_options :: "ObjectReconcileOptions \<Rightarrow> ComparatorOptions" where
  "engine_compare_options options =
    (case Owner options of
       None \<Rightarrow> zero_ComparatorOptions
     | Some owner \<Rightarrow> \<lparr>co_Owner = Some owner, co_OwnerStrategy = OwnerStrategyOpt options\<rparr>)"

lemma observes_compare:
  assumes "observes cl api e revision desiredObject opts s ob s1" "comparator e = engine_comparator env d"
  shows "Compare env d (ob_desired ob) (ob_actual ob) [\<lambda>_. engine_compare_options (ob_options ob)] =
    Val (ob_compare ob)"
  using assms
  by (auto simp: observes_def checkSituation_def engine_comparator_def engine_compare_options_def
      zero_ComparatorOptions_def WithOwner_def obind_eq_Val split: option.splits if_splits)

lemma Compare_found:
  assumes "Compare env d des act opts = Val res" "findManagedFields (cmp_fieldOwner d) act = None"
  shows "Comparison res = None"
proof -
  from assms(1) obtain x where
    x: "extrapolate env d des act (fold (\<lambda>opt acc. opt acc) opts zero_ComparatorOptions) = Val x"
    by (auto simp: Compare_def obind_eq_Val)
  have "findManagedFields (cmp_fieldOwner d) (ex_actual x) = None"
    using assms(2) extrapolate_managed [OF x] by (simp add: findManagedFields_def)
  with assms(1) x show ?thesis by (auto simp: Compare_def obind_eq_Val Let_def)
qed

text \<open>C4: fields taken over by another manager are taken back. Take an engine with this comparator that
  reconciles an object its owner controls, not paused, with a desired object that is not a typed one,
  whose migration of the field managers succeeds. If a field that counts for the comparison of this
  run (a field of the desired object, not a stripped path, and once the engine has applied the
  object a leaf outside the fields of its own entry) is in another manager's entry, then the engine
  sends one apply that forces ownership after the migration, and reports a recovery.\<close>

theorem engine_takes_fields_back:
  assumes laws: "fieldset_laws env"
    and e: "comparator e = engine_comparator env d"
    and ob: "observes cl api e revision desiredObject opts s ob s1"
    and own: "ob_situation ob = ctrlSituationIsController" "\<not> Paused (ob_options ob)"
      "repr (ob_desired ob) \<noteq> Structured"
    and mig: "migrateFieldManagersToSSA cl api e (ob_actual ob) (ob_options ob) s1 = (Val actual', s2)"
    and taken: "m \<noteq> cmp_fieldOwner d" "manages env (GetManagedFields (ob_actual ob)) m f"
      "extrapolate env d (ob_desired ob) (ob_actual ob) (engine_compare_options (ob_options ob)) = Val x"
      "f \<in> set (contested_fields env d x (ob_actual ob))"
    and run: "ObjectEngine_Reconcile cl api e revision desiredObject opts s = (r, s')"
  shows "sent s' = sent s2 @ [(writer e,
           Apply ((ob_desired ob)\<lparr>GetResourceVersion := GetResourceVersion actual'\<rparr>) (apply_opts e True))] \<and>
    (\<forall>res. r = Val res \<longrightarrow> result_Action res = ActionRecovered)"
proof -
  note c = observes_compare [OF ob e]
  obtain y where "extrapolate env d (ob_desired ob) (ob_actual ob)
      (fold (\<lambda>opt acc. opt acc) [\<lambda>_. engine_compare_options (ob_options ob)] zero_ComparatorOptions) = Val y"
    and l: "\<forall>m f. lists_field (ConflictingMangers (ob_compare ob)) m f \<longleftrightarrow>
       (findManagedFields (cmp_fieldOwner d) (ob_actual ob) \<noteq> None \<longrightarrow> m \<noteq> cmp_fieldOwner d) \<and>
       manages env (GetManagedFields (ob_actual ob)) m f \<and> f \<in> set (contested_fields env d y (ob_actual ob))"
    and ne: "\<forall>c\<in>set (ConflictingMangers (ob_compare ob)). Fields c \<noteq> []"
    by (rule Compare_lists [OF laws c], rule that; assumption)
  with taken have "lists_field (ConflictingMangers (ob_compare ob)) m f" by simp
  with IsConflict_lists [OF ne] have "IsConflict (ob_compare ob)" by blast
  with controlled_object_run [OF ob own mig run] show ?thesis by simp
qed

text \<open>Lost field ownership reads as idle. The comparator takes an object without an entry of its own
  for diverged, but unless another manager's entry names a desired field it reports neither a conflict
  nor a modification, and does not look at the values: the engine then leaves the object as it is
  and calls it idle, whatever it contains.\<close>

theorem lost_ownership_reads_as_idle:
  assumes laws: "fieldset_laws env"
    and e: "comparator e = engine_comparator env d"
    and ob: "observes cl api e revision desiredObject opts s ob s1"
    and own: "ob_situation ob = ctrlSituationIsController"
    and lost: "GetManagedFields (ob_actual ob) = []"
    and run: "ObjectEngine_Reconcile cl api e revision desiredObject opts s = (Val res, s')"
  shows "sent s' = sent s \<and> result_Action res = ActionIdle \<and> result_Object res = ob_actual ob"
proof -
  note c = observes_compare [OF ob e]
  obtain x where
    l: "\<forall>m f. lists_field (ConflictingMangers (ob_compare ob)) m f \<longleftrightarrow>
       (findManagedFields (cmp_fieldOwner d) (ob_actual ob) \<noteq> None \<longrightarrow> m \<noteq> cmp_fieldOwner d) \<and>
       manages env (GetManagedFields (ob_actual ob)) m f \<and> f \<in> set (contested_fields env d x (ob_actual ob))"
    and ne: "\<forall>c\<in>set (ConflictingMangers (ob_compare ob)). Fields c \<noteq> []"
    by (rule Compare_lists [OF laws c], rule that; assumption)
  with lost IsConflict_lists [OF ne] have "\<not> IsConflict (ob_compare ob)" by simp
  moreover have "Comparison (ob_compare ob) = None"
    using Compare_found [OF c] lost by (simp add: findManagedFields_def)
  ultimately show ?thesis using controlled_object_idle [OF ob own _ _ run]
    by (simp add: CompareResult_Modified_def)
qed

section \<open>Sample comparisons\<close>

text \<open>An API with a status subresource, a desired object that has a spec and a status, and an actual
  object in which another manager owns one field.\<close>

definition sample_cmp_env :: "(string list, unit, fieldset) compare_env" where
  "sample_cmp_env =
    \<lparr>oa_Paths = Some, ToSchemaFromOpenAPI = (\<lambda>s. Inr ()),
     FromUnstructured = (\<lambda>p n ob. Inr [''.apiVersion'', ''.spec'', ''.status.phase'']),
     FromStructured = (\<lambda>p n ob. Inl (PlainError [])), ToFieldSet = Inr,
     RemoveItems = (\<lambda>t s. filter (\<lambda>p. p \<notin> set s) t),
     typed_Compare = (\<lambda>a b. Inr \<lparr>Added = [], ModifiedFields = [], Removed = []\<rparr>),
     fs_FromJSON = (\<lambda>s. Inr [s]), fs_NewSet = (\<lambda>ps. ps), fs_Difference = (\<lambda>a b. filter (\<lambda>p. p \<notin> set b) a),
     fs_Intersection = (\<lambda>a b. filter (\<lambda>p. p \<in> set b) a),
     fs_Leaves = (\<lambda>a. filter (\<lambda>p. \<not> list_ex (\<lambda>q. take (Suc (length p)) q = p @ ''.'') a) a),
     fs_extends = (\<lambda>q p. take (Suc (length p)) q = p @ ''.''),
     existingAPIScheme_New = (\<lambda>gvk. Inl NoMatchError), IsNotRegisteredError = (\<lambda>err. True),
     GetCanonicalTypeName = (\<lambda>ob. []), ToRESTFriendlyName = (\<lambda>s. s)\<rparr>"

lemma sample_cmp_env_simps [simp]:
  "fs_FromJSON sample_cmp_env s = Inr [s]"
  "fs_NewSet sample_cmp_env ps = ps" "fs_Difference sample_cmp_env a b = filter (\<lambda>p. p \<notin> set b) a"
  "fs_Intersection sample_cmp_env a b = filter (\<lambda>p. p \<in> set b) a"
  "fs_Leaves sample_cmp_env a = filter (\<lambda>p. \<not> list_ex (\<lambda>q. take (Suc (length p)) q = p @ ''.'') a) a"
  "fs_extends sample_cmp_env q p \<longleftrightarrow> take (Suc (length p)) q = p @ ''.''"
  "FromUnstructured sample_cmp_env parser n ob = Inr [''.apiVersion'', ''.spec'', ''.status.phase'']"
  "typed_Compare sample_cmp_env t u = Inr \<lparr>Added = [], ModifiedFields = [], Removed = []\<rparr>"
  by (simp_all add: sample_cmp_env_def)

definition sample_cmp :: "string list Comparator" where
  "sample_cmp = NewComparator (\<lambda>gv. Inr [''/apis/apps/v1/deployments/{name}/status'']) sample_api ''bc''"

definition sample_mfs :: "string \<Rightarrow> ManagedFieldsEntry list" where
  "sample_mfs f =
    [\<lparr>mf_Manager = ''bc'', mf_Operation = ''Apply'', mf_Subresource = [], mf_FieldsV1 = ''.metadata.labels''\<rparr>,
     \<lparr>mf_Manager = ''kubectl'', mf_Operation = ''Update'', mf_Subresource = [], mf_FieldsV1 = f\<rparr>]"

definition sample_cmp_engine :: ObjectEngine where
  "sample_cmp_engine = NewObjectEngine (Reader 0) (Writer 0) (engine_comparator sample_cmp_env sample_cmp)
     ''bc'' ''pko'' [] None"

lemma sample_cmp_engine_simps [simp]:
  "cache sample_cmp_engine = Reader 0" "writer sample_cmp_engine = Writer 0"
  "comparator sample_cmp_engine = engine_comparator sample_cmp_env sample_cmp"
  "fieldOwner sample_cmp_engine = ''bc''" "managedBy sample_cmp_engine = ''boxcutter''"
  "unfilteredReader sample_cmp_engine = None" "revisionAnnotation sample_cmp_engine = ''pko/revision''"
  by (simp_all add: sample_cmp_engine_def NewObjectEngine_def managedByLabelDefaultValue_def
      revisionAnnotation_def)

lemma sample_cmp_laws: "fieldset_laws sample_cmp_env"
  by (auto simp: fieldset_laws_def sample_cmp_env_def list_ex_iff)

lemma sample_status_subresource: "hasStatusSubresource sample_cmp_env [''/apis/apps/v1/deployments/{name}/status'']"
  by (simp add: hasStatusSubresource_def sample_cmp_env_def HasSuffix_def)

definition sample_extrapolated :: "Object \<Rightarrow> (string list, unit, fieldset) extrapolated" where
  "sample_extrapolated act =
    \<lparr>ex_actual = act, ex_schema = [''/apis/apps/v1/deployments/{name}/status''], ex_parser = (),
     ex_tName = ''apps/v1.Deployment'', ex_typedDesired = [''.apiVersion'', ''.spec'', ''.status.phase''],
     ex_fieldSet = [''.apiVersion'', ''.spec'', ''.status.phase'']\<rparr>"

lemma sample_extrapolate:
  assumes "GVK des = GVK sample_object" "repr des = Unstructured" "GVK act = GVK des"
    and "co_Owner options = None \<or>
      co_Owner options = Some sample_owner \<and> co_OwnerStrategy options = Some sample_strategy \<and>
      GetOwnerReferences des = [sample_ref sample_owner]"
  shows "extrapolate sample_cmp_env sample_cmp des act options = Val (sample_extrapolated act)"
  using assms
  by (auto simp: extrapolate_def sample_cmp_def NewComparator_def checked_def sample_cmp_env_def
      openAPICanonicalName_def getTyped_def sample_extrapolated_def sample_object_def emptyGVK_def deref_def
      sample_strategy_def OwnerStrategyNative_def sample_scr_def sample_ref_def is_ctrl_def)

lemma sample_getTyped:
  "getTyped sample_cmp_env parser n ob = Val t \<Longrightarrow> t = [''.apiVersion'', ''.spec'', ''.status.phase'']"
  by (cases "repr ob") (auto simp: getTyped_def sample_cmp_env_def)

lemma sample_extrapolate_any:
  "extrapolate sample_cmp_env sample_cmp des act options = Val x \<Longrightarrow>
    ex_fieldSet x = [''.apiVersion'', ''.spec'', ''.status.phase''] \<and>
    ex_schema x = [''/apis/apps/v1/deployments/{name}/status'']"
  by (auto simp: extrapolate_def obind_eq_Val sample_cmp_def NewComparator_def
      split: if_splits dest!: sample_getTyped) (simp_all add: sample_cmp_env_def)

lemma sample_contested:
  assumes "ex_fieldSet x = [''.apiVersion'', ''.spec'', ''.status.phase'']"
    and "ex_schema x = [''/apis/apps/v1/deployments/{name}/status'']"
    and "GetManagedFields act = sample_mfs f"
  shows "contested_fields sample_cmp_env sample_cmp x act = [''.spec'', ''.status.phase'']"
  using assms sample_status_subresource
  by (simp add: contested_fields_def findManagedFields_def sample_mfs_def sample_cmp_def NewComparator_def
      localStripSet_def stripSet_def stripPaths_def)

lemma sample_manages: "manages sample_cmp_env (sample_mfs f) ''kubectl'' f"
  by (simp add: sample_mfs_def)

text \<open>The object the owner controls, with the given managed fields.\<close>

definition sample_managed :: "ManagedFieldsEntry list \<Rightarrow> Object" where
  "sample_managed mfs = sample_controlled\<lparr>GetManagedFields := mfs\<rparr>"

definition sample_cmp_result :: "ManagedFieldsEntry list \<Rightarrow> CompareResult" where
  "sample_cmp_result mfs =
    (case Compare sample_cmp_env sample_cmp sample_prepared (sample_managed mfs)
        [\<lambda>_. \<lparr>co_Owner = Some sample_owner, co_OwnerStrategy = Some sample_strategy\<rparr>] of
       Val cr \<Rightarrow> cr | _ \<Rightarrow> no_diff)"

lemma sample_managed_simps [simp]:
  "GVK (sample_managed mfs) = GVK sample_object" "GetManagedFields (sample_managed mfs) = mfs"
  "GVK sample_prepared = GVK sample_object" "repr sample_prepared = Unstructured"
  "repr (sample_managed mfs) = Unstructured"
  "GetOwnerReferences sample_prepared = [sample_ref sample_owner]"
  by (simp_all add: sample_managed_def sample_controlled_def sample_prepared_def)

lemma sample_extrapolate_prepared [simp]:
  "extrapolate sample_cmp_env sample_cmp sample_prepared (sample_managed mfs)
      \<lparr>co_Owner = Some sample_owner, co_OwnerStrategy = Some sample_strategy\<rparr> =
    Val (sample_extrapolated (sample_managed mfs))"
  by (rule sample_extrapolate) simp_all

lemma sample_Compare:
  assumes "mfs = [] \<or> mfs = sample_mfs f"
  shows "Compare sample_cmp_env sample_cmp sample_prepared (sample_managed mfs)
      [\<lambda>_. \<lparr>co_Owner = Some sample_owner, co_OwnerStrategy = Some sample_strategy\<rparr>] = Val (sample_cmp_result mfs)"
proof -
  have "\<exists>cr. Compare sample_cmp_env sample_cmp sample_prepared (sample_managed mfs)
      [\<lambda>_. \<lparr>co_Owner = Some sample_owner, co_OwnerStrategy = Some sample_strategy\<rparr>] = Val cr"
    using assms
  proof
    assume "mfs = []"
    then show ?thesis by (simp add: Compare_def sample_extrapolated_def findManagedFields_def Let_def)
  next
    assume mfs: "mfs = sample_mfs f"
    let ?desired = "fs_Difference sample_cmp_env (ex_fieldSet (sample_extrapolated (sample_managed mfs)))
      (localStripSet sample_cmp_env (ex_schema (sample_extrapolated (sample_managed mfs))))"
    obtain cs os where im: "index_managers sample_cmp_env (cmp_fieldOwner sample_cmp)
        (fs_Leaves sample_cmp_env (fs_Difference sample_cmp_env ?desired [''.metadata.labels''])) mfs = Val (cs, os)"
      using index_managers_total [of sample_cmp_env] by fastforce
    have "findManagedFields (cmp_fieldOwner sample_cmp) (sample_managed mfs) = Some (hd mfs)"
      "mf_FieldsV1 (hd mfs) = ''.metadata.labels''"
      by (simp_all add: mfs findManagedFields_def sample_mfs_def sample_cmp_def NewComparator_def)
    with im show ?thesis
      by (simp add: Compare_def Let_def checked_def getTyped_def sample_extrapolated_def
          del: sample_cmp_env_simps(3,5) index_managers.simps filter.simps)
  qed
  then show ?thesis by (auto simp: sample_cmp_result_def)
qed

theorem Compare_conflicts_exact_witness:
  "\<exists>res. Compare sample_cmp_env sample_cmp sample_prepared (sample_managed (sample_mfs ''.spec''))
      [\<lambda>_. \<lparr>co_Owner = Some sample_owner, co_OwnerStrategy = Some sample_strategy\<rparr>] = Val res \<and>
    lists_field (ConflictingMangers res) ''kubectl'' ''.spec'' \<and> IsConflict res"
proof -
  have run: "Compare sample_cmp_env sample_cmp sample_prepared (sample_managed (sample_mfs ''.spec''))
      [\<lambda>_. \<lparr>co_Owner = Some sample_owner, co_OwnerStrategy = Some sample_strategy\<rparr>] =
      Val (sample_cmp_result (sample_mfs ''.spec''))" by (rule sample_Compare) (rule disjI2, rule refl)
  from Compare_conflicts_exact [OF sample_cmp_laws run]
  obtain x where x: "extrapolate sample_cmp_env sample_cmp sample_prepared (sample_managed (sample_mfs ''.spec''))
      (fold (\<lambda>opt acc. opt acc) [\<lambda>_. \<lparr>co_Owner = Some sample_owner, co_OwnerStrategy = Some sample_strategy\<rparr>]
        zero_ComparatorOptions) = Val x"
    and l: "lists_field (ConflictingMangers (sample_cmp_result (sample_mfs ''.spec''))) ''kubectl'' ''.spec'' \<longleftrightarrow>
      (findManagedFields (cmp_fieldOwner sample_cmp) (sample_managed (sample_mfs ''.spec'')) \<noteq> None \<longrightarrow>
         ''kubectl'' \<noteq> cmp_fieldOwner sample_cmp) \<and>
      manages sample_cmp_env (GetManagedFields (sample_managed (sample_mfs ''.spec''))) ''kubectl'' ''.spec'' \<and>
      ''.spec'' \<in> set (contested_fields sample_cmp_env sample_cmp x (sample_managed (sample_mfs ''.spec'')))"
    and c: "IsConflict (sample_cmp_result (sample_mfs ''.spec'')) \<longleftrightarrow>
      (\<exists>m f. lists_field (ConflictingMangers (sample_cmp_result (sample_mfs ''.spec''))) m f)"
    by blast
  note xs = sample_extrapolate_any [OF x]
  have "''.spec'' \<in> set (contested_fields sample_cmp_env sample_cmp x (sample_managed (sample_mfs ''.spec'')))"
    by (simp add: sample_contested [OF conjunct1 [OF xs] conjunct2 [OF xs], of _ "''.spec''"])
  then have "lists_field (ConflictingMangers (sample_cmp_result (sample_mfs ''.spec''))) ''kubectl'' ''.spec''"
    using l sample_manages by (simp add: sample_cmp_def NewComparator_def)
  with run c show ?thesis by blast
qed

theorem status_leaf_still_conflicts_witness:
  "\<exists>res. Compare sample_cmp_env sample_cmp sample_prepared (sample_managed (sample_mfs ''.status.phase''))
      [\<lambda>_. \<lparr>co_Owner = Some sample_owner, co_OwnerStrategy = Some sample_strategy\<rparr>] = Val res \<and> IsConflict res"
proof -
  have run: "Compare sample_cmp_env sample_cmp sample_prepared (sample_managed (sample_mfs ''.status.phase''))
      [\<lambda>_. \<lparr>co_Owner = Some sample_owner, co_OwnerStrategy = Some sample_strategy\<rparr>] =
      Val (sample_cmp_result (sample_mfs ''.status.phase''))" by (rule sample_Compare) (rule disjI2, rule refl)
  have x: "extrapolate sample_cmp_env sample_cmp sample_prepared (sample_managed (sample_mfs ''.status.phase''))
      (fold (\<lambda>opt acc. opt acc) [\<lambda>_. \<lparr>co_Owner = Some sample_owner, co_OwnerStrategy = Some sample_strategy\<rparr>]
        zero_ComparatorOptions) = Val (sample_extrapolated (sample_managed (sample_mfs ''.status.phase'')))"
    by (rule sample_extrapolate) simp_all
  have leaf: "\<not> fs_extends sample_cmp_env q (''.status.'' @ ''phase'')"
    if "q \<in> set (ex_fieldSet (sample_extrapolated (sample_managed (sample_mfs ''.status.phase''))))" for q
    using that by (auto simp: sample_extrapolated_def)
  have "IsConflict (sample_cmp_result (sample_mfs ''.status.phase''))"
    using status_leaf_still_conflicts [OF sample_cmp_laws run x _ _ leaf, of "''kubectl''"]
      sample_status_subresource sample_manages [of "''.status.phase''"]
    by (auto simp: sample_extrapolated_def sample_cmp_def NewComparator_def sample_mfs_def)
  with run show ?thesis by blast
qed

lemma sample_cmp_observes:
  assumes "mfs = [] \<or> mfs = sample_mfs f"
  shows "observes sample_cluster sample_api sample_cmp_engine 3 sample_object (sample_opts CollisionProtectionPrevent)
     (sample_st [sample_managed mfs])
     (sample_ob CollisionProtectionPrevent (sample_managed mfs) ctrlSituationIsController (sample_cmp_result mfs)
        (Some (sample_ref sample_owner)) 3) (sample_st [sample_managed mfs])"
proof -
  have ctl: "GetController sample_strategy (sample_managed mfs) = Val (Some (sample_ref sample_owner))"
    "IsController sample_strategy sample_owner (sample_managed mfs) = Val True"
    using sample_controllers(2,3)
    by (simp_all add: sample_strategy_def OwnerStrategyNative_def Native_GetController_def
        Native_IsController_def sample_managed_def)
  have "checkSituation sample_cmp_engine sample_prepared (sample_managed mfs) (sample_options CollisionProtectionPrevent) =
      Val (ctrlSituationIsController, sample_cmp_result mfs, Some (sample_ref sample_owner))"
    using sample_Compare [OF assms]
    by (simp add: checkSituation_def sample_options_def deref_def detectOwner_def ctl WithOwner_def
        engine_comparator_def zero_ComparatorOptions_def)
  moreover have "getObjectRevision sample_cmp_engine (sample_managed mfs) = Val 3"
    by (simp add: getObjectRevision_def sample_managed_def sample_controlled_def sample_prepared_def
        sample_object_def map_index_def sample_revision_number)
  moreover have "prepare_desired sample_api sample_cmp_engine 3 sample_object (sample_options CollisionProtectionPrevent)
      = Val sample_prepared"
    using sample_prepare [of no_diff]
    by (simp add: prepare_desired_def setManagedBy_def setObjectRevision_def)
  moreover have "stored sample_prepared [sample_managed mfs] = Some (sample_managed mfs)"
    by (simp add: stored_def sample_managed_def sample_controlled_def ToObjectRef_eq_iff)
  ultimately show ?thesis
    by (simp add: observes_def sample_ob_def sample_default read_object_def sample_st_def
        collision_protection_defs)
qed

theorem engine_takes_fields_back_witness:
  "sent (snd (ObjectEngine_Reconcile sample_cluster sample_api sample_cmp_engine 3 sample_object
      (sample_opts CollisionProtectionPrevent) (sample_st [sample_managed (sample_mfs ''.spec'')]))) =
    [(Writer 0, Apply (sample_prepared\<lparr>GetResourceVersion := ''7''\<rparr>) (apply_opts sample_cmp_engine True))]"
proof -
  let ?mfs = "sample_mfs ''.spec''"
  let ?x = "sample_extrapolated (sample_managed ?mfs)"
  have contested: "''.spec'' \<in> set (contested_fields sample_cmp_env sample_cmp ?x (sample_managed ?mfs))"
    using sample_contested [of ?x "sample_managed ?mfs" "''.spec''"] by (simp add: sample_extrapolated_def)
  have opts: "engine_compare_options (sample_options CollisionProtectionPrevent) =
      \<lparr>co_Owner = Some sample_owner, co_OwnerStrategy = Some sample_strategy\<rparr>"
    by (simp add: engine_compare_options_def sample_options_def)
  from engine_takes_fields_back [OF sample_cmp_laws sample_cmp_engine_simps(3)
      sample_cmp_observes [of ?mfs "''.spec''"] _ _ _ _ _ _ _ _ prod.collapse [symmetric],
      of "sample_managed ?mfs" "sample_st [sample_managed ?mfs]" "''kubectl''" "''.spec''" ?x]
    contested sample_manages [of "''.spec''"]
  have "sent (snd (ObjectEngine_Reconcile sample_cluster sample_api sample_cmp_engine 3 sample_object
      (sample_opts CollisionProtectionPrevent) (sample_st [sample_managed ?mfs]))) =
    [(Writer 0, Apply (sample_prepared\<lparr>GetResourceVersion := GetResourceVersion (sample_managed ?mfs)\<rparr>)
      (apply_opts sample_cmp_engine True))]"
    by (simp add: sample_ob_def opts) (simp add: sample_options_def migrate_nothing ret_def sample_cmp_def
        NewComparator_def)
  then show ?thesis by (simp add: sample_managed_def sample_controlled_def)
qed

theorem lost_ownership_reads_as_idle_witness:
  "\<exists>res s'. ObjectEngine_Reconcile sample_cluster sample_api sample_cmp_engine 3 sample_object
      (sample_opts CollisionProtectionPrevent) (sample_st [sample_managed []]) = (Val res, s') \<and>
    sent s' = [] \<and> result_Action res = ActionIdle"
proof -
  note ob = sample_cmp_observes [of "[]", simplified]
  have "ConflictingMangers (sample_cmp_result []) = []" "Comparison (sample_cmp_result []) = None"
    by (simp_all add: sample_cmp_result_def Compare_def sample_extrapolated_def findManagedFields_def Let_def)
  then have same: "\<not> IsConflict (sample_cmp_result [])" "CompareResult_Modified (sample_cmp_result []) = []"
    by (simp_all add: IsConflict_def CompareResult_Modified_def)
  obtain res where run: "ObjectEngine_Reconcile sample_cluster sample_api sample_cmp_engine 3 sample_object
      (sample_opts CollisionProtectionPrevent) (sample_st [sample_managed []]) =
      (Val res, sample_st [sample_managed []])"
    using observes_idle [OF ob] same by (auto simp: sample_ob_def new_result_defs sample_options_def)
  from lost_ownership_reads_as_idle [OF sample_cmp_laws sample_cmp_engine_simps(3) ob _ _ run] run show ?thesis
    by (simp add: sample_ob_def)
qed

end
