(* ===== verification/Boxcutter.thy ===== *)
theory Boxcutter
  imports RevisionEngine Comparator
begin

text \<open>
  The entry point of the library, \<open>boxcutter.go\<close>: the options from which the engines are built, their
  validation, and the wiring of comparator, object engine, validators, phase engine and revision
  engine. The aliases of the file name types and functions of \<open>machinery/types\<close>, which have theories
  of their own. A nil option is \<open>None\<close>; the discovery client is \<open>GVSpec\<close> of its OpenAPI root.
\<close>

section \<open>Options\<close>

record 'o RevisionEngineOptions =
  opt_Scheme :: "apimachinery option"
  opt_FieldOwner :: string
  opt_SystemPrefix :: string
  opt_DiscoveryClient :: "(string \<times> string \<Rightarrow> go_error + 'o) option"
  opt_RestMapper :: "restMapper option"
  opt_Writer :: "Writer option"
  opt_Reader :: "Reader option"
  opt_ManagedBy :: string
  opt_UnfilteredReader :: "Reader option"
  opt_PhaseValidator :: "PhaseValidator option"

definition validateRevisionEngineOpts :: "'o RevisionEngineOptions \<Rightarrow> go_error option" where
  "validateRevisionEngineOpts opts =
    (if opt_Scheme opts = None then Some (RevisionEngineOptionsError ''scheme must be provided'')
     else if opt_FieldOwner opts = [] then Some (RevisionEngineOptionsError ''fieldOwner must be provided'')
     else if opt_SystemPrefix opts = [] then Some (RevisionEngineOptionsError ''systemPrefix must be provided'')
     else if opt_DiscoveryClient opts = None then Some (RevisionEngineOptionsError ''discoveryClient must be provided'')
     else if opt_RestMapper opts = None then Some (RevisionEngineOptionsError ''restMapper must be provided'')
     else if opt_Writer opts = None then Some (RevisionEngineOptionsError ''writer must be provided'')
     else if opt_Reader opts = None then Some (RevisionEngineOptionsError ''reader must be provided'')
     else None)"

section \<open>Wiring\<close>

text \<open>The object engine both constructors build, on its comparator. The fields are those that
  validation has found to be set.\<close>

definition wired_objectEngine ::
  "('o, 'p, 't) compare_env \<Rightarrow> 'o RevisionEngineOptions \<Rightarrow> ObjectEngine go" where
  "wired_objectEngine env opts =
    obind (deref (opt_Scheme opts)) (\<lambda>scheme.
    obind (deref (opt_DiscoveryClient opts)) (\<lambda>gvSpec.
    obind (deref (opt_Reader opts)) (\<lambda>reader.
    obind (deref (opt_Writer opts)) (\<lambda>writer.
      let comp = NewComparator gvSpec scheme (opt_FieldOwner opts)
      in Val (NewObjectEngine reader writer (engine_comparator env comp) (opt_FieldOwner opts)
                (opt_SystemPrefix opts) (opt_ManagedBy opts) (opt_UnfilteredReader opts))))))"

definition boxcutter_NewPhaseEngine ::
  "'w cluster \<Rightarrow> validation_api \<Rightarrow> ('o, 'p, 't) compare_env \<Rightarrow> 'o RevisionEngineOptions \<Rightarrow> 'w PhaseEngine go" where
  "boxcutter_NewPhaseEngine cl va env opts =
    (case validateRevisionEngineOpts opts of
       Some err \<Rightarrow> Fail err
     | None \<Rightarrow>
         obind (deref (opt_Scheme opts)) (\<lambda>scheme.
         obind (case opt_PhaseValidator opts of
                  Some v \<Rightarrow> Val v
                | None \<Rightarrow>
                    obind (deref (opt_RestMapper opts)) (\<lambda>rm.
                    obind (deref (opt_Writer opts)) (\<lambda>w. Val (NewNamespacedPhaseValidator rm w)))) (\<lambda>pval.
         obind (wired_objectEngine env opts) (\<lambda>oe.
           Val (NewPhaseEngine (objectEngine_of cl scheme oe) (PhaseValidator_Validate cl scheme va pval))))))"

definition boxcutter_NewRevisionEngine ::
  "'w cluster \<Rightarrow> validation_api \<Rightarrow> ('o, 'p, 't) compare_env \<Rightarrow> 'o RevisionEngineOptions \<Rightarrow> 'w RevisionEngine go" where
  "boxcutter_NewRevisionEngine cl va env opts =
    (case validateRevisionEngineOpts opts of
       Some err \<Rightarrow> Fail err
     | None \<Rightarrow>
         obind (deref (opt_Scheme opts)) (\<lambda>scheme.
         obind (deref (opt_RestMapper opts)) (\<lambda>rm.
         obind (deref (opt_Writer opts)) (\<lambda>w.
           let pval = NewNamespacedPhaseValidator rm w
           in obind (wired_objectEngine env opts) (\<lambda>oe.
                let pe = NewPhaseEngine (objectEngine_of cl scheme oe) (PhaseValidator_Validate cl scheme va pval)
                in Val (NewRevisionEngine (phaseEngine_ops scheme pe) (RevisionValidator_Validate va) w))))))"

section \<open>Properties\<close>

definition required_options_given :: "'o RevisionEngineOptions \<Rightarrow> bool" where
  "required_options_given opts \<longleftrightarrow>
    opt_Scheme opts \<noteq> None \<and> opt_FieldOwner opts \<noteq> [] \<and> opt_SystemPrefix opts \<noteq> [] \<and>
    opt_DiscoveryClient opts \<noteq> None \<and> opt_RestMapper opts \<noteq> None \<and> opt_Writer opts \<noteq> None \<and>
    opt_Reader opts \<noteq> None"

lemma validateRevisionEngineOpts_iff: "validateRevisionEngineOpts opts = None \<longleftrightarrow> required_options_given opts"
  by (simp add: validateRevisionEngineOpts_def required_options_given_def)

lemma wired_objectEngine_given:
  assumes "required_options_given opts"
  shows "\<exists>scheme gvSpec reader w oe. opt_Scheme opts = Some scheme \<and> opt_DiscoveryClient opts = Some gvSpec \<and>
    opt_Reader opts = Some reader \<and> opt_Writer opts = Some w \<and> wired_objectEngine env opts = Val oe \<and>
    cache oe = reader \<and> writer oe = w \<and> fieldOwner oe = opt_FieldOwner opts \<and>
    systemPrefix oe = opt_SystemPrefix opts \<and>
    comparator oe = engine_comparator env (NewComparator gvSpec scheme (opt_FieldOwner opts))"
  using assms by (auto simp: required_options_given_def wired_objectEngine_def deref_def NewObjectEngine_def)

text \<open>C35: an engine is built exactly from complete options. The constructor returns a revision engine
  when and only when all required options are given, never panics, and otherwise returns an
  options error; the engine it returns checks phases with a validator that confines namespaced
  owners to their namespace, reads and writes with the given clients and applies under the given
  field owner.\<close>

theorem NewRevisionEngine_wires:
  "(required_options_given opts \<longrightarrow>
     (\<exists>scheme gvSpec rm w reader oe. opt_Scheme opts = Some scheme \<and> opt_RestMapper opts = Some rm \<and>
        opt_DiscoveryClient opts = Some gvSpec \<and> opt_Writer opts = Some w \<and> opt_Reader opts = Some reader \<and>
        boxcutter_NewRevisionEngine cl va env opts =
          Val (revisionEngine_of cl scheme va oe (NewNamespacedPhaseValidator rm w) w) \<and>
        cache oe = reader \<and> writer oe = w \<and> fieldOwner oe = opt_FieldOwner opts \<and>
        comparator oe = engine_comparator env (NewComparator gvSpec scheme (opt_FieldOwner opts)))) \<and>
   (\<not> required_options_given opts \<longrightarrow>
     (\<exists>msg. boxcutter_NewRevisionEngine cl va env opts = Fail (RevisionEngineOptionsError msg)))"
proof (intro conjI impI)
  assume given: "required_options_given opts"
  then obtain scheme gvSpec reader w oe where
    "opt_Scheme opts = Some scheme" "opt_DiscoveryClient opts = Some gvSpec" "opt_Reader opts = Some reader"
    "opt_Writer opts = Some w" "wired_objectEngine env opts = Val oe" "cache oe = reader" "writer oe = w"
    "fieldOwner oe = opt_FieldOwner opts"
    "comparator oe = engine_comparator env (NewComparator gvSpec scheme (opt_FieldOwner opts))"
    using wired_objectEngine_given [of opts env] by blast
  moreover obtain rm where "opt_RestMapper opts = Some rm"
    using given by (auto simp: required_options_given_def)
  moreover have "validateRevisionEngineOpts opts = None"
    using given by (simp add: validateRevisionEngineOpts_iff)
  ultimately show "\<exists>scheme gvSpec rm w reader oe. opt_Scheme opts = Some scheme \<and> opt_RestMapper opts = Some rm \<and>
      opt_DiscoveryClient opts = Some gvSpec \<and> opt_Writer opts = Some w \<and> opt_Reader opts = Some reader \<and>
      boxcutter_NewRevisionEngine cl va env opts =
        Val (revisionEngine_of cl scheme va oe (NewNamespacedPhaseValidator rm w) w) \<and>
      cache oe = reader \<and> writer oe = w \<and> fieldOwner oe = opt_FieldOwner opts \<and>
      comparator oe = engine_comparator env (NewComparator gvSpec scheme (opt_FieldOwner opts))"
    by (auto simp: boxcutter_NewRevisionEngine_def deref_def revisionEngine_of_def phaseEngine_of_def Let_def
        intro!: exI [of _ oe])
next
  assume "\<not> required_options_given opts"
  then obtain msg where "validateRevisionEngineOpts opts = Some (RevisionEngineOptionsError msg)"
    using validateRevisionEngineOpts_iff [of opts] by (auto simp: validateRevisionEngineOpts_def split: if_splits)
  then show "\<exists>msg. boxcutter_NewRevisionEngine cl va env opts = Fail (RevisionEngineOptionsError msg)"
    by (simp add: boxcutter_NewRevisionEngine_def)
qed

text \<open>The revision engine ignores the phase validator it is given. With a phase validator in the
  options, the phase engine checks phases with it; the revision engine is the same whatever the
  option says, and always has the namespaced validator.\<close>

theorem NewRevisionEngine_ignores_PhaseValidator:
  "(\<forall>v. boxcutter_NewRevisionEngine cl va env (opts\<lparr>opt_PhaseValidator := v\<rparr>) =
        boxcutter_NewRevisionEngine cl va env opts) \<and>
   (\<forall>v scheme pe. opt_Scheme opts = Some scheme \<longrightarrow>
        boxcutter_NewPhaseEngine cl va env (opts\<lparr>opt_PhaseValidator := Some v\<rparr>) = Val pe \<longrightarrow>
        pe_phaseValidator pe = PhaseValidator_Validate cl scheme va v)"
proof (intro conjI allI impI)
  fix v
  show "boxcutter_NewRevisionEngine cl va env (opts\<lparr>opt_PhaseValidator := v\<rparr>) =
      boxcutter_NewRevisionEngine cl va env opts"
    by (simp add: boxcutter_NewRevisionEngine_def validateRevisionEngineOpts_def wired_objectEngine_def)
next
  fix v scheme pe
  assume "opt_Scheme opts = Some scheme"
    and "boxcutter_NewPhaseEngine cl va env (opts\<lparr>opt_PhaseValidator := Some v\<rparr>) = Val pe"
  then show "pe_phaseValidator pe = PhaseValidator_Validate cl scheme va v"
    by (auto simp: boxcutter_NewPhaseEngine_def obind_eq_Val deref_def NewPhaseEngine_def split: option.splits)
qed

section \<open>Sample wiring\<close>

definition sample_engine_opts :: "string list RevisionEngineOptions" where
  "sample_engine_opts =
    \<lparr>opt_Scheme = Some sample_api, opt_FieldOwner = ''bc'', opt_SystemPrefix = ''pko'',
     opt_DiscoveryClient = Some (\<lambda>gv. Inr []), opt_RestMapper = Some sample_mapper,
     opt_Writer = Some (Writer 0), opt_Reader = Some (Reader 0), opt_ManagedBy = [],
     opt_UnfilteredReader = None, opt_PhaseValidator = None\<rparr>"

theorem NewRevisionEngine_wires_witness:
  "\<exists>oe. boxcutter_NewRevisionEngine sample_cluster sample_va sample_cmp_env sample_engine_opts =
     Val (revisionEngine_of sample_cluster sample_api sample_va oe
            (NewNamespacedPhaseValidator sample_mapper (Writer 0)) (Writer 0)) \<and> fieldOwner oe = ''bc''"
  using NewRevisionEngine_wires [of sample_engine_opts sample_cluster sample_va sample_cmp_env]
  by (auto simp: required_options_given_def sample_engine_opts_def)

theorem NewRevisionEngine_ignores_PhaseValidator_witness:
  "\<exists>pe. boxcutter_NewPhaseEngine sample_cluster sample_va sample_cmp_env
       (sample_engine_opts\<lparr>opt_PhaseValidator := Some (NewClusterPhaseValidator sample_mapper (Writer 0))\<rparr>) = Val pe \<and>
     pe_phaseValidator pe = PhaseValidator_Validate sample_cluster sample_api sample_va
       (NewClusterPhaseValidator sample_mapper (Writer 0))"
proof -
  obtain pe where pe: "boxcutter_NewPhaseEngine sample_cluster sample_va sample_cmp_env
      (sample_engine_opts\<lparr>opt_PhaseValidator := Some (NewClusterPhaseValidator sample_mapper (Writer 0))\<rparr>) = Val pe"
    by (simp add: boxcutter_NewPhaseEngine_def validateRevisionEngineOpts_def sample_engine_opts_def
        wired_objectEngine_def deref_def Let_def)
  have "opt_Scheme sample_engine_opts = Some sample_api" by (simp add: sample_engine_opts_def)
  with NewRevisionEngine_ignores_PhaseValidator [of sample_cluster sample_va sample_cmp_env sample_engine_opts] pe
  show ?thesis by blast
qed

section \<open>One phase alone\<close>

text \<open>The revision engine reports a single phase the way these functions say.\<close>

definition single_phase_result :: "phase \<Rightarrow> phaseResult \<times> go_error option \<Rightarrow> revisionResult \<times> go_error option" where
  "single_phase_result p reply =
    (case reply of
       (pres, None) \<Rightarrow>
         (\<lparr>rr_phases = [ph_Name p], rr_phasesResults = [pres], rr_validationError = None\<rparr>, None)
     | (pres, Some err) \<Rightarrow>
         (\<lparr>rr_phases = [ph_Name p], rr_phasesResults = [], rr_validationError = None\<rparr>,
          Some (Wrap ''reconciling object'' err)))"

definition single_phase_teardown ::
  "phase \<Rightarrow> phaseTeardownResult \<times> go_error option \<Rightarrow> revisionTeardownResult option \<times> go_error option" where
  "single_phase_teardown p reply =
    (case reply of
       (pres, None) \<Rightarrow>
         (Some (if phaseTeardownResult_IsComplete pres
                then \<lparr>rt_phases = [pres], rt_active = [], rt_waiting = [], rt_gone = [ph_Name p]\<rparr>
                else \<lparr>rt_phases = [pres], rt_active = ph_Name p, rt_waiting = [], rt_gone = []\<rparr>), None)
     | (pres, Some err) \<Rightarrow> (None, Some (Wrap ''teardown phase'' err)))"

lemma single_phase_reconcile:
  assumes "re_revisionValidator re (NewRevision name k [p]) = Val None"
  shows "RevisionEngine_Reconcile re (NewRevision name k [p]) (map RRPhase popts) =
    bind (pe_Reconcile (re_phaseEngine re) k p popts) (\<lambda>reply. ret (single_phase_result p reply))"
proof
  fix s
  obtain q s1 where q: "pe_Reconcile (re_phaseEngine re) k p popts s = (q, s1)" by fastforce
  show "RevisionEngine_Reconcile re (NewRevision name k [p]) (map RRPhase popts) s =
    bind (pe_Reconcile (re_phaseEngine re) k p popts) (\<lambda>reply. ret (single_phase_result p reply)) s"
    using assms q
    by (cases q) (auto simp: RevisionEngine_Reconcile_def NewRevision_def bind_def ret_def lift_def Let_def
        single_phase_result_def split: option.splits)
qed

lemma single_phase_tear_down:
  "RevisionEngine_Teardown re (NewRevision name k [p]) (map RTPhase topts) =
    bind (pe_Teardown (re_phaseEngine re) k p topts) (\<lambda>reply. ret (single_phase_teardown p reply))"
proof
  fix s
  obtain q s1 where q: "pe_Teardown (re_phaseEngine re) k p topts s = (q, s1)" by fastforce
  show "RevisionEngine_Teardown re (NewRevision name k [p]) (map RTPhase topts) s =
    bind (pe_Teardown (re_phaseEngine re) k p topts) (\<lambda>reply. ret (single_phase_teardown p reply)) s"
    using q
    by (cases q) (auto simp: RevisionEngine_Teardown_def NewRevision_def bind_def ret_def Let_def
        single_phase_teardown_def split: option.splits)
qed

text \<open>C34: the two engines a program can build from the same options agree on a single phase. If the
  options name no phase validator of their own and preflight has nothing against the revision, then
  reconciling a revision of one phase is reconciling the phase with the same options: the same
  requests, the same final state, the same failures, and the phase's result or error put into the
  result of the revision. Tearing down agrees in the same way.\<close>

theorem single_phase_engines_agree:
  assumes "boxcutter_NewRevisionEngine cl va env opts = Val re"
    and "boxcutter_NewPhaseEngine cl va env opts = Val pe"
    and "opt_PhaseValidator opts = None" "opt_Scheme opts = Some scheme"
    and "RevisionValidator_Validate va (NewRevision name k [p]) = Val None"
  shows "RevisionEngine_Reconcile re (NewRevision name k [p]) (map RRPhase popts) =
      bind (PhaseEngine_Reconcile scheme pe k p popts) (\<lambda>reply. ret (single_phase_result p reply)) \<and>
    RevisionEngine_Teardown re (NewRevision name k [p]) (map RTPhase topts) =
      bind (PhaseEngine_Teardown scheme pe k p topts) (\<lambda>reply. ret (single_phase_teardown p reply))"
proof -
  from assms have "re_phaseEngine re = phaseEngine_ops scheme pe"
    "re_revisionValidator re = RevisionValidator_Validate va"
    by (auto simp: boxcutter_NewRevisionEngine_def boxcutter_NewPhaseEngine_def obind_eq_Val deref_def
        NewRevisionEngine_def Let_def split: option.splits)
  with single_phase_reconcile [of re name k p popts] single_phase_tear_down [of re name k p topts] assms(5)
  show ?thesis by (simp add: phaseEngine_ops_def)
qed

theorem single_phase_engines_agree_witness:
  "\<exists>re pe. boxcutter_NewRevisionEngine sample_cluster sample_va sample_cmp_env sample_engine_opts = Val re \<and>
    boxcutter_NewPhaseEngine sample_cluster sample_va sample_cmp_env sample_engine_opts = Val pe \<and>
    RevisionEngine_Reconcile re sample_rollout (map RRPhase [PRObject WithPaused]) =
      bind (PhaseEngine_Reconcile sample_api pe 3 sample_phase [PRObject WithPaused])
        (\<lambda>reply. ret (single_phase_result sample_phase reply))"
proof -
  obtain re pe where built:
    "boxcutter_NewRevisionEngine sample_cluster sample_va sample_cmp_env sample_engine_opts = Val re"
    "boxcutter_NewPhaseEngine sample_cluster sample_va sample_cmp_env sample_engine_opts = Val pe"
    by (simp add: boxcutter_NewPhaseEngine_def boxcutter_NewRevisionEngine_def validateRevisionEngineOpts_def
        sample_engine_opts_def wired_objectEngine_def deref_def Let_def)
  have "opt_PhaseValidator sample_engine_opts = None" "opt_Scheme sample_engine_opts = Some sample_api"
    by (simp_all add: sample_engine_opts_def)
  from single_phase_engines_agree [OF built this sample_rollout_valid [unfolded sample_rollout_def]] built
  show ?thesis unfolding sample_rollout_def by blast
qed

end
