(* ===== verification/Hash.thy ===== *)
theory Hash
  imports Json "HOL-Library.Word"
begin

text \<open>
  \<open>util/hash.go\<close>. A hasher is the input it has been given since its last reset; a hash never
  returns an error on a write, so the check after printing cannot fail. Parameters are SHA-256 and
  the printer of spew.
\<close>

type_synonym byte = "8 word"

section \<open>Bytes\<close>

text \<open>\<open>binary.LittleEndian.PutUint32\<close>, on a buffer of at least four bytes, and \<open>hex.EncodeToString\<close>.\<close>

definition PutUint32 :: "byte list \<Rightarrow> 32 word \<Rightarrow> byte list" where
  "PutUint32 b v = map (\<lambda>i. ucast (drop_bit (8 * i) v)) [0, 1, 2, 3] @ drop 4 b"

definition EncodeToString :: "byte list \<Rightarrow> string" where
  "EncodeToString bs = concat (map (\<lambda>b. [hex_char (unat b div 16), hex_char (unat b mod 16)]) bs)"

section \<open>The hash\<close>

definition DeepHashObject :: "('a \<Rightarrow> byte list) \<Rightarrow> byte list \<Rightarrow> 'a \<Rightarrow> byte list" where
  "DeepHashObject spew hasher objectToWrite = (let hasher' = [] in hasher' @ spew objectToWrite)"

definition hash_input :: "('a \<Rightarrow> byte list) \<Rightarrow> 'a \<Rightarrow> 32 word option \<Rightarrow> byte list" where
  "hash_input spew obj collisionCount =
    (let hasher = DeepHashObject spew [] obj
     in case collisionCount of
          None \<Rightarrow> hasher
        | Some c \<Rightarrow> hasher @ PutUint32 (replicate 8 0) c)"

definition ComputeSHA256Hash ::
  "(byte list \<Rightarrow> byte list) \<Rightarrow> ('a \<Rightarrow> byte list) \<Rightarrow> 'a \<Rightarrow> 32 word option \<Rightarrow> string" where
  "ComputeSHA256Hash sha256 spew obj collisionCount =
    EncodeToString (sha256 (hash_input spew obj collisionCount))"

section \<open>Properties\<close>

lemma bit_drop_byte: "bit (ucast (drop_bit k v) :: byte) i \<longleftrightarrow> i < 8 \<and> bit (v :: 32 word) (k + i)"
  by (simp add: bit_ucast_iff bit_drop_bit_eq)

lemma PutUint32_inj: "PutUint32 b v = PutUint32 b w \<longleftrightarrow> v = w"
proof
  assume eq: "PutUint32 b v = PutUint32 b w"
  have byte: "(ucast (drop_bit (8 * i) v) :: byte) = ucast (drop_bit (8 * i) w)" if "i < 4" for i
    using eq that unfolding PutUint32_def by (auto simp: less_Suc_eq numeral_eq_Suc)
  show "v = w"
  proof (rule bit_word_eqI)
    fix n
    assume "n < LENGTH(32)"
    then have "n div 8 < 4" by simp
    from byte [OF this] have "bit (ucast (drop_bit (8 * (n div 8)) v) :: byte) (n mod 8) =
        bit (ucast (drop_bit (8 * (n div 8)) w) :: byte) (n mod 8)" by simp
    then show "bit v n = bit w n" by (simp add: bit_drop_byte)
  qed
qed simp

definition hex_digits :: string where "hex_digits = ''0123456789abcdef''"

lemma byte_nibble: "unat (x :: byte) div 16 < 16"
proof -
  have "unat x < 2 ^ LENGTH(8)" by (rule unsigned_less)
  then show ?thesis by simp
qed

lemma hex_char_digit: "k < 16 \<Longrightarrow> hex_char k \<in> set hex_digits"
proof -
  have "list_all (\<lambda>k. hex_char k \<in> set hex_digits) [0..<16]" by code_simp
  then show "k < 16 \<Longrightarrow> hex_char k \<in> set hex_digits" by (simp add: list_all_iff)
qed

lemma hex_pair_inj:
  fixes b c :: byte
  assumes "hex_char (unat b div 16) = hex_char (unat c div 16)" "hex_char (unat b mod 16) = hex_char (unat c mod 16)"
  shows "b = c"
proof -
  have "unat b div 16 = unat c div 16"
    using assms(1) by (metis byte_nibble hex_value_hex_char option.inject)
  moreover have "unat b mod 16 = unat c mod 16"
    using assms(2) by (metis hex_value_hex_char mod_less_divisor option.inject zero_less_numeral)
  ultimately have "unat b = unat c" by (metis div_mult_mod_eq)
  then show ?thesis by (rule unsigned_word_eqI)
qed

lemma EncodeToString_inj: "EncodeToString bs = EncodeToString cs \<longleftrightarrow> bs = cs"
proof
  assume "EncodeToString bs = EncodeToString cs"
  then show "bs = cs"
  proof (induction bs arbitrary: cs)
    case (Cons b bs)
    then show ?case by (cases cs) (auto simp: EncodeToString_def dest: hex_pair_inj)
  qed (auto simp: EncodeToString_def)
qed simp

lemma EncodeToString_text:
  "length (EncodeToString bs) = 2 * length bs" "set (EncodeToString bs) \<subseteq> set hex_digits"
  by (induction bs) (simp_all add: EncodeToString_def hex_char_digit byte_nibble)

text \<open>The hash of a deployment is a text of lower-case hexadecimal digits, two per byte of the digest;
  two hashes are equal exactly when the digests of what was hashed are; and what is hashed tells
  collision counts apart, also from a missing one.\<close>

theorem ComputeSHA256Hash_separates:
  "length (ComputeSHA256Hash sha256 spew a c) = 2 * length (sha256 (hash_input spew a c)) \<and>
   set (ComputeSHA256Hash sha256 spew a c) \<subseteq> set hex_digits \<and>
   (ComputeSHA256Hash sha256 spew a c = ComputeSHA256Hash sha256 spew b d \<longleftrightarrow>
      sha256 (hash_input spew a c) = sha256 (hash_input spew b d)) \<and>
   (hash_input spew a c = hash_input spew a d \<longleftrightarrow> c = d)"
proof (intro conjI)
  show "hash_input spew a c = hash_input spew a d \<longleftrightarrow> c = d"
    using PutUint32_inj [of "replicate 8 0"]
    by (cases c; cases d) (auto simp: hash_input_def Let_def, auto simp: PutUint32_def)
qed (simp_all add: ComputeSHA256Hash_def EncodeToString_text EncodeToString_inj)

end
