(* ===== verification/Reference.thy ===== *)
theory Reference
  imports Boxcutter Hash "HOL-Library.AList" "HOL-Library.Multiset"
begin

text \<open>
  The reference controller, \<open>cmd/reference/internal/deploy.go\<close> and \<open>util.go\<close>: deployments and revisions
  kept as ConfigMaps, every change of a deployment a new revision, revisions rolled out with the
  revision engine, superseded revisions archived, and old ones deleted.

  A \<open>ConfigMap\<close> extends an object by its data and by whether a deletion timestamp is set; a nil map is
  \<open>None\<close>, the order of the list is the order of the iteration. The requests of the controller's own
  client are the trace \<open>rs_sent\<close>; those of the engines are in \<open>sent\<close> of \<open>rs_engine\<close>. Parameters (\<open>ref_env\<close>)
  are the client, the interface \<open>ObjectBoundAccessManager\<close>, decoding of unstructured objects, the
  finalizer helpers of controller-runtime, spew and SHA-256, and the order in which
  \<open>sort.Sort\<close>, which is not stable, leaves the revisions.
\<close>

section \<open>State\<close>

record ConfigMap = Object +
  cm_Data :: "(string \<times> string) list option"
  cm_Deleting :: bool

datatype ref_request =
    CreateCM ConfigMap
  | DeleteCM Object "Preconditions option" "string option"
  | MergePatchCM Object string

record 'w ref_state =
  rs_engine :: "'w st"
  rs_sent :: "ref_request list"

type_synonym ('w, 'a) ref_run = "('w ref_state, go_error, 'a) eff"

record 'w ref_env =
  rc_Get :: "ObjectKey \<Rightarrow> 'w \<Rightarrow> (go_error + ConfigMap) \<times> 'w"
  rc_List :: "(string \<times> string) list \<Rightarrow> 'w \<Rightarrow> (go_error + ConfigMap list) \<times> 'w"
  rc_serve :: "ref_request \<Rightarrow> 'w \<Rightarrow> go_error option \<times> 'w"
  rc_GetWithUser :: "Object \<Rightarrow> Object \<Rightarrow> Object list \<Rightarrow> 'w \<Rightarrow> (go_error + Reader \<times> Writer \<times> Reader) \<times> 'w"
  rc_FreeWithUser :: "Object \<Rightarrow> Object \<Rightarrow> 'w \<Rightarrow> go_error option \<times> 'w"
  rc_UnmarshalObject :: "string \<Rightarrow> go_error + Object"
  rc_NestedString :: "json \<Rightarrow> string list \<Rightarrow> string option"
  rc_AddFinalizer :: "Object \<Rightarrow> string \<Rightarrow> string list"
  rc_RemoveFinalizer :: "Object \<Rightarrow> string \<Rightarrow> string list"
  rc_SHA256 :: "byte list \<Rightarrow> byte list"
  rc_Spew :: "(string \<times> string) list option \<Rightarrow> byte list"
  rc_sort :: "revision list \<Rightarrow> revision list"

text \<open>\<open>util.ComputeSHA256Hash(cm.Data, nil)\<close>.\<close>

definition rc_Hash :: "'w ref_env \<Rightarrow> (string \<times> string) list option \<Rightarrow> string" where
  "rc_Hash env d = ComputeSHA256Hash (rc_SHA256 env) (rc_Spew env) d None"

record 'o Reconciler =
  rc_discoveryClient :: "string \<times> string \<Rightarrow> go_error + 'o"
  rc_restMapper :: restMapper
  rc_scheme :: apimachinery
  rc_SetControllerReference :: "Object \<Rightarrow> Object \<Rightarrow> Object go"
  rc_ownerStrategy :: OwnerStrategy

definition NewReconciler ::
  "(string \<times> string \<Rightarrow> go_error + 'o) \<Rightarrow> restMapper \<Rightarrow> apimachinery \<Rightarrow> (Object \<Rightarrow> Object \<Rightarrow> Object go) \<Rightarrow>
    'o Reconciler" where
  "NewReconciler discoveryClient restMapper scheme scr =
    \<lparr>rc_discoveryClient = discoveryClient, rc_restMapper = restMapper, rc_scheme = scheme,
     rc_SetControllerReference = scr, rc_ownerStrategy = OwnerStrategyNative scheme scr\<rparr>"

definition deploymentLabel :: string where "deploymentLabel = ''boxcutter.test/deployment''"
definition hashAnnotation :: string where "hashAnnotation = ''boxcutter.test/hash''"
definition cmPhasesKey :: string where "cmPhasesKey = ''phases''"
definition cmRevisionNumberKey :: string where "cmRevisionNumberKey = ''revision''"
definition cmStateKey :: string where "cmStateKey = ''state''"
definition revisionHistoryLimit :: int where "revisionHistoryLimit = 5"
definition ref_fieldOwner :: string where "ref_fieldOwner = ''boxcutter.test''"
definition ref_systemPrefix :: string where "ref_systemPrefix = ''boxcutter.test''"
definition teardownFinalizer :: string where "teardownFinalizer = ''boxcutter.test/teardown''"
definition typeLabel :: string where "typeLabel = ''boxcutter.test/type''"

lemmas ref_consts = deploymentLabel_def hashAnnotation_def cmPhasesKey_def cmRevisionNumberKey_def
  cmStateKey_def typeLabel_def

lemma truncate_simps [simp]:
  "GetUID (Object.truncate cm) = GetUID cm" "GetName (Object.truncate cm) = GetName cm"
  "GetNamespace (Object.truncate cm) = GetNamespace cm" "GetFinalizers (Object.truncate cm) = GetFinalizers cm"
  "GetAnnotations (Object.truncate cm) = GetAnnotations cm" "GetLabels (Object.truncate cm) = GetLabels cm"
  "GetOwnerReferences (Object.truncate cm) = GetOwnerReferences cm"
  by (simp_all add: Object.truncate_def)

section \<open>Calls\<close>

definition on_engine :: "('w, 'a) run \<Rightarrow> ('w, 'a) ref_run" where
  "on_engine m s = (case m (rs_engine s) of (r, t) \<Rightarrow> (r, s\<lparr>rs_engine := t\<rparr>))"

definition call :: "('w \<Rightarrow> (go_error + 'a) \<times> 'w) \<Rightarrow> ('w, 'a) ref_run" where
  "call f = on_engine (\<lambda>t. case f (world t) of
       (Inl err, w) \<Rightarrow> (Fail err, t\<lparr>world := w\<rparr>)
     | (Inr x, w) \<Rightarrow> (Val x, t\<lparr>world := w\<rparr>))"

definition call_err :: "('w \<Rightarrow> go_error option \<times> 'w) \<Rightarrow> ('w, unit) ref_run" where
  "call_err f = call (\<lambda>w. case f w of (None, w') \<Rightarrow> (Inr (), w') | (Some err, w') \<Rightarrow> (Inl err, w'))"

definition client_send :: "'w ref_env \<Rightarrow> ref_request \<Rightarrow> ('w, unit) ref_run" where
  "client_send env req =
    bind (modify (\<lambda>s. s\<lparr>rs_sent := rs_sent s @ [req]\<rparr>)) (\<lambda>_. call_err (rc_serve env req))"

definition IgnoreNotFound :: "apimachinery \<Rightarrow> ('w, unit) ref_run \<Rightarrow> ('w, unit) ref_run" where
  "IgnoreNotFound api m = attempt m (\<lambda>err. if IsNotFound api err then ret () else fail err) ret"

section \<open>util.go\<close>

definition revisionAscending_Less :: "revision list \<Rightarrow> nat \<Rightarrow> nat \<Rightarrow> bool" where
  "revisionAscending_Less a i j \<longleftrightarrow> rev_Revision (a ! i) < rev_Revision (a ! j)"

definition latestRevisionNumber :: "revision list \<Rightarrow> int" where
  "latestRevisionNumber prevRevisions = (if prevRevisions = [] then 0 else rev_Revision (last prevRevisions))"

definition parseRevisionNumber :: "string \<Rightarrow> num_error + int" where
  "parseRevisionNumber raw = ParseInt raw"

definition getOwner :: "Object \<Rightarrow> OwnerReference option" where
  "getOwner obj = find (\<lambda>v. or_Controller v = Some True) (GetOwnerReferences obj)"

definition getOwnerFromRev :: "revision \<Rightarrow> Object option" where
  "getOwnerFromRev rv = RevisionReconcileOptions_GetOwner (revision_reconcile_options (rev_ReconcileOptions rv))"

section \<open>From a ConfigMap to a revision\<close>

definition data_get :: "ConfigMap \<Rightarrow> string \<Rightarrow> string" where
  "data_get cm k = (case cm_Data cm of None \<Rightarrow> [] | Some d \<Rightarrow> (case map_of d k of None \<Rightarrow> [] | Some v \<Rightarrow> v))"

text \<open>\<open>json.Unmarshal\<close> into a slice of strings: null is a nil slice, a null element the empty string.\<close>

fun decode_string :: "json \<Rightarrow> string option" where
  "decode_string (JString s) = Some s"
| "decode_string JNull = Some []"
| "decode_string _ = None"

definition unmarshal_strings :: "string \<Rightarrow> go_error + string list" where
  "unmarshal_strings v =
    (case json_parse v of
       Some JNull \<Rightarrow> Inr []
     | Some (JList vs) \<Rightarrow>
         if list_all (\<lambda>x. decode_string x \<noteq> None) vs then Inr (map (\<lambda>x. the (decode_string x)) vs)
         else Inl (PlainError ''cannot unmarshal into Go value of type string'')
     | _ \<Rightarrow> Inl (PlainError ''cannot unmarshal into Go value of type []string''))"

text \<open>\<open>strings.SplitN(k, "_", 2)\<close>: the text before and after the first underscore.\<close>

definition split_underscore :: "string \<Rightarrow> (string \<times> string) option" where
  "split_underscore k =
    (case dropWhile (\<lambda>c. c \<noteq> CHR ''_'') k of
       [] \<Rightarrow> None
     | c # r \<Rightarrow> Some (takeWhile (\<lambda>c. c \<noteq> CHR ''_'') k, r))"

record revision_data =
  rd_phaseNames :: "string list"
  rd_revision :: int
  rd_objects :: "string \<Rightarrow> Object list"

text \<open>The body of the loop over the data of a revision.\<close>

definition read_entry ::
  "'w ref_env \<Rightarrow> string \<Rightarrow> string \<Rightarrow> string \<Rightarrow> string \<Rightarrow> revision_data \<Rightarrow> revision_data go" where
  "read_entry env deployName ns k v acc =
    (if k = cmPhasesKey then
       (case unmarshal_strings v of
          Inl err \<Rightarrow> Fail (Wrap ''json unmarshal key'' err)
        | Inr names \<Rightarrow> Val (acc\<lparr>rd_phaseNames := names\<rparr>))
     else if k = cmRevisionNumberKey then
       (case ParseInt v of
          Inl err \<Rightarrow> Fail (Wrap ''parsing revision'' (NumError err))
        | Inr i \<Rightarrow> Val (acc\<lparr>rd_revision := i\<rparr>))
     else if k = cmStateKey then Val acc
     else case split_underscore k of
            None \<Rightarrow> Val acc
          | Some (phase, _) \<Rightarrow>
              (case rc_UnmarshalObject env v of
                 Inl err \<Rightarrow> Fail (Wrap ''json unmarshal key'' err)
               | Inr obj \<Rightarrow>
                   let obj' = obj\<lparr>GetNamespace := ns,
                                   GetLabels := map_put (GetLabels obj) deploymentLabel deployName\<rparr>
                   in Val (acc\<lparr>rd_objects := (rd_objects acc)(phase := rd_objects acc phase @ [obj'])\<rparr>)))"

fun read_data ::
  "'w ref_env \<Rightarrow> string \<Rightarrow> string \<Rightarrow> (string \<times> string) list \<Rightarrow> revision_data \<Rightarrow> revision_data go" where
  "read_data env deployName ns [] acc = Val acc"
| "read_data env deployName ns ((k, v) # d) acc =
    obind (read_entry env deployName ns k v acc) (read_data env deployName ns d)"

definition continue_probe :: "'w ref_env \<Rightarrow> Prober" where
  "continue_probe env = ProbeFunc (\<lambda>obj.
     if Kind (GVK obj) \<noteq> ''ConfigMap'' \<or> repr obj \<noteq> Unstructured then Val (TrueResult [])
     else case rc_NestedString env (content obj) [''data'', ''continue''] of
            None \<Rightarrow> Val (FalseResult [''.data.continue not set''])
          | Some f \<Rightarrow>
              if f \<noteq> ''yes'' then Val (FalseResult [''.data.continue not set to \"yes\"''])
              else Val (TrueResult []))"

definition toRevision ::
  "'w ref_env \<Rightarrow> 'o Reconciler \<Rightarrow> string \<Rightarrow> ConfigMap \<Rightarrow> Object list \<Rightarrow>
    (revision \<times> RevisionReconcileOption list) go" where
  "toRevision env c deployName cm siblings =
    obind (read_data env deployName (GetNamespace cm) (case cm_Data cm of None \<Rightarrow> [] | Some d \<Rightarrow> d)
             \<lparr>rd_phaseNames = [], rd_revision = 0, rd_objects = (\<lambda>_. [])\<rparr>) (\<lambda>d.
    if rd_revision d = 0 then Fail (PlainError ''revision not set'')
    else
    let phases = map (\<lambda>phaseName. NewPhase phaseName (rd_objects d phaseName)) (rd_phaseNames d)
    in obind (NewRevisionWithOwnerAndSiblings (GetName cm) (rd_revision d) phases (Object.truncate cm)
                (Some (rc_ownerStrategy c)) siblings) (\<lambda>rv.
       Val (rv, [RRPhase (PRObject (WithProbe ProgressProbeType (Some (continue_probe env))))] @
                (if data_get cm cmStateKey = ''Paused'' then [RRPhase (PRObject WithPaused)] else []))))"

section \<open>Finalizers\<close>

definition finalizer_patch :: "Object \<Rightarrow> string list \<Rightarrow> string" where
  "finalizer_patch obj finalizers =
    json_print (JMap [(''metadata'', JMap [(''finalizers'', JList (map JString finalizers)),
      (''resourceVersion'', JString (GetResourceVersion obj))])])"

definition ensureFinalizer ::
  "'w ref_env \<Rightarrow> 'o Reconciler \<Rightarrow> Object \<Rightarrow> string \<Rightarrow> ('w, unit) ref_run" where
  "ensureFinalizer env c obj finalizer =
    (if ContainsFinalizer (rc_scheme c) obj finalizer then ret ()
     else let fs = rc_AddFinalizer env obj finalizer
          in wrap_err (Wrap ''adding finalizer'')
               (client_send env (MergePatchCM (obj\<lparr>GetFinalizers := fs\<rparr>) (finalizer_patch obj fs))))"

definition removeFinalizer ::
  "'w ref_env \<Rightarrow> 'o Reconciler \<Rightarrow> Object \<Rightarrow> string \<Rightarrow> ('w, unit) ref_run" where
  "removeFinalizer env c obj finalizer =
    (if \<not> ContainsFinalizer (rc_scheme c) obj finalizer then ret ()
     else let fs = rc_RemoveFinalizer env obj finalizer
          in wrap_err (Wrap ''removing finalizer'')
               (client_send env (MergePatchCM (obj\<lparr>GetFinalizers := fs\<rparr>) (finalizer_patch obj fs))))"

section \<open>Deployments\<close>

fun toRevisions :: "'w ref_env \<Rightarrow> 'o Reconciler \<Rightarrow> string \<Rightarrow> ConfigMap list \<Rightarrow> revision list go" where
  "toRevisions env c deployName [] = Val []"
| "toRevisions env c deployName (cm # cms) =
    obind (owrap (Wrap ''to revision'') (toRevision env c deployName cm [])) (\<lambda>(r, _).
    obind (toRevisions env c deployName cms) (\<lambda>rs. Val (r # rs)))"

text \<open>Go's wrapping increment of an \<open>int64\<close>.\<close>

definition next_int64 :: "int \<Rightarrow> int" where
  "next_int64 i = (if i = max_int64 then min_int64 else i + 1)"

definition new_revision_cm :: "'w ref_env \<Rightarrow> ConfigMap \<Rightarrow> int \<Rightarrow> (string \<times> string) list \<Rightarrow> ConfigMap" where
  "new_revision_cm env cm revisionNumber d =
    \<lparr>repr = Structured, GVK = emptyGVK, GetName = GetName cm @ ''-'' @ FormatInt revisionNumber,
     GetNamespace = GetNamespace cm, GetGenerateName = [], GetUID = [], GetGeneration = 0,
     GetResourceVersion = [],
     GetLabels = Some [typeLabel \<mapsto> ''Revision'', deploymentLabel \<mapsto> GetName cm],
     GetAnnotations = Some [hashAnnotation \<mapsto> rc_Hash env (cm_Data cm)], GetFinalizers = [],
     GetOwnerReferences = [], GetManagedFields = [], content = JNull,
     cm_Data = Some (AList.update cmRevisionNumberKey (FormatInt revisionNumber) d), cm_Deleting = False\<rparr>"

text \<open>The branch for outdated revisions: storing into the data of a deployment that has none panics.\<close>

definition create_revision ::
  "'w ref_env \<Rightarrow> 'o Reconciler \<Rightarrow> ConfigMap \<Rightarrow> revision list \<Rightarrow> ('w, unit) ref_run" where
  "create_revision env c cm prevRevisions =
    (let revisionNumber = next_int64 (latestRevisionNumber prevRevisions)
     in case cm_Data cm of
          None \<Rightarrow> panic ''assignment to entry in nil map''
        | Some d \<Rightarrow>
            let newRevision = new_revision_cm env cm revisionNumber d
            in bind (lift (owrap (Wrap ''set ownerref'')
                      (rc_SetControllerReference c (Object.truncate cm) (Object.truncate newRevision)))) (\<lambda>obj.
               wrap_err (Wrap ''creating new Revision'')
                 (client_send env (CreateCM (newRevision\<lparr>GetOwnerReferences := GetOwnerReferences obj\<rparr>)))))"

fun delete_revisions ::
  "'w ref_env \<Rightarrow> 'o Reconciler \<Rightarrow> revision list \<Rightarrow> int \<Rightarrow> ('w, unit) ref_run" where
  "delete_revisions env c [] numToDelete = ret ()"
| "delete_revisions env c (prevRev # prevRevs) numToDelete =
    (if numToDelete \<le> 0 then ret ()
     else bind (lift (deref (getOwnerFromRev prevRev))) (\<lambda>owner.
          bind (wrap_err (Wrap ''failed to delete revision (history limit)'')
                  (IgnoreNotFound (rc_scheme c) (client_send env (DeleteCM owner None None)))) (\<lambda>_.
            delete_revisions env c prevRevs (numToDelete - 1))))"

definition is_current :: "'w ref_env \<Rightarrow> ConfigMap \<Rightarrow> revision \<Rightarrow> bool go" where
  "is_current env cm rv =
    obind (deref (getOwnerFromRev rv)) (\<lambda>owner.
      Val (map_get (GetAnnotations owner) hashAnnotation = Some (rc_Hash env (cm_Data cm))))"

definition handleDeployment :: "'w ref_env \<Rightarrow> 'o Reconciler \<Rightarrow> ConfigMap \<Rightarrow> ('w, int) ref_run" where
  "handleDeployment env c cm =
    bind (wrap_err (Wrap ''listing revisions'')
            (call (rc_List env [(typeLabel, ''Revision''), (deploymentLabel, GetName cm)]))) (\<lambda>items.
    bind (lift (toRevisions env c (GetName cm) items)) (\<lambda>revs.
    let existingRevisions = rc_sort env revs
    in bind (if existingRevisions = [] then ret False
             else lift (is_current env cm (last existingRevisions))) (\<lambda>current.
       let prevRevisions = (if current then butlast existingRevisions else existingRevisions)
       in bind (if current then ret () else create_revision env c cm prevRevisions) (\<lambda>_.
          bind (delete_revisions env c (rev prevRevisions) (int (length prevRevisions) - revisionHistoryLimit)) (\<lambda>_.
            ret 0)))))"

section \<open>Revisions\<close>

fun archive_siblings ::
  "'w ref_env \<Rightarrow> int \<Rightarrow> ConfigMap list \<Rightarrow> ('w, unit) ref_run" where
  "archive_siblings env n [] = ret ()"
| "archive_siblings env n (s # ss) =
    (if data_get s cmStateKey = ''Archived'' then archive_siblings env n ss
     else case parseRevisionNumber (data_get s cmRevisionNumberKey) of
            Inl err \<Rightarrow> archive_siblings env n ss
          | Inr m \<Rightarrow>
              if m \<ge> n then archive_siblings env n ss
              else bind (wrap_err (Wrap ''archive previous Revision'')
                     (client_send env (MergePatchCM (Object.truncate s) ''{\"data\":{\"state\":\"Archived\"}}''))) (\<lambda>_.
                   archive_siblings env n ss))"

definition ref_engine_options ::
  "'o Reconciler \<Rightarrow> Reader \<times> Writer \<times> Reader \<Rightarrow> 'o RevisionEngineOptions" where
  "ref_engine_options c accessor =
    (case accessor of (reader, wr, unfiltered) \<Rightarrow>
      \<lparr>opt_Scheme = Some (rc_scheme c), opt_FieldOwner = ref_fieldOwner, opt_SystemPrefix = ref_systemPrefix,
       opt_DiscoveryClient = Some (rc_discoveryClient c), opt_RestMapper = Some (rc_restMapper c),
       opt_Writer = Some wr, opt_Reader = Some reader, opt_ManagedBy = [],
       opt_UnfilteredReader = Some unfiltered, opt_PhaseValidator = None\<rparr>)"

definition teardown_revision ::
  "'w ref_env \<Rightarrow> 'o Reconciler \<Rightarrow> 'w RevisionEngine \<Rightarrow> Object \<Rightarrow> ConfigMap \<Rightarrow> revision \<Rightarrow> ('w, int) ref_run" where
  "teardown_revision env c re deploy revisionCM rv =
    bind (on_engine (RevisionEngine_Teardown re rv [])) (\<lambda>(tres, err).
      case err of
        Some e \<Rightarrow> fail (Wrap ''revision teardown'' e)
      | None \<Rightarrow>
          bind (lift (deref tres)) (\<lambda>t.
            if \<not> revisionTeardownResult_IsComplete t then ret 0
            else bind (wrap_err (Wrap ''get cache'')
                         (call_err (rc_FreeWithUser env deploy (Object.truncate revisionCM)))) (\<lambda>_.
                 bind (removeFinalizer env c (Object.truncate revisionCM) teardownFinalizer) (\<lambda>_. ret 0))))"

definition reconcile_revision ::
  "'w ref_env \<Rightarrow> 'o Reconciler \<Rightarrow> 'w RevisionEngine \<Rightarrow> ConfigMap \<Rightarrow> revision \<Rightarrow> RevisionReconcileOption list \<Rightarrow>
    ConfigMap list \<Rightarrow> ('w, int) ref_run" where
  "reconcile_revision env c re revisionCM rv opts siblings =
    bind (ensureFinalizer env c (Object.truncate revisionCM) teardownFinalizer) (\<lambda>_.
    bind (on_engine (RevisionEngine_Reconcile re rv opts)) (\<lambda>(rres, err).
      case err of
        Some e \<Rightarrow> fail (Wrap ''revision reconcile'' e)
      | None \<Rightarrow>
          if rr_validationError rres \<noteq> None then ret 10
          else if list_ex (\<lambda>pres. pr_validationError pres \<noteq> None) (rr_phasesResults rres) then ret 10
          else if revisionResult_IsComplete rres
          then bind (archive_siblings env (rev_Revision rv) siblings) (\<lambda>_. ret 0)
          else ret 0))"

text \<open>The result is the delay in seconds after which the request is put back into the queue.\<close>

definition handleRevision ::
  "'w cluster \<Rightarrow> validation_api \<Rightarrow> ('o, 'p, 't) compare_env \<Rightarrow> 'w ref_env \<Rightarrow> 'o Reconciler \<Rightarrow> Object \<Rightarrow> ConfigMap \<Rightarrow>
    ('w, int) ref_run" where
  "handleRevision cl va cenv env c deploy revisionCM =
    bind (wrap_err (Wrap ''listing sibling revisions'')
            (call (rc_List env [(typeLabel, ''Revision''), (deploymentLabel, GetName deploy)]))) (\<lambda>siblingCMs.
    let siblings = filter (\<lambda>s. GetUID s \<noteq> GetUID revisionCM) siblingCMs
    in bind (lift (owrap (Wrap ''converting CM to revision'')
               (toRevision env c (GetName deploy) revisionCM (map Object.truncate siblings)))) (\<lambda>(rv, opts).
       bind (wrap_err (Wrap ''get cache'')
               (call (rc_GetWithUser env deploy (Object.truncate revisionCM)
                  (concat (map ph_Objects (rev_Phases rv)))))) (\<lambda>accessor.
       bind (lift (owrap (Wrap ''new revision engine'')
               (boxcutter_NewRevisionEngine cl va cenv (ref_engine_options c accessor)))) (\<lambda>re.
         if cm_Deleting revisionCM \<or> data_get revisionCM cmStateKey = ''Archived''
         then teardown_revision env c re deploy revisionCM rv
         else reconcile_revision env c re revisionCM rv opts siblings))))"

definition deployment_stub :: "OwnerReference \<Rightarrow> string \<Rightarrow> Object" where
  "deployment_stub owner ns =
    \<lparr>repr = Structured, GVK = emptyGVK, GetName = or_Name owner, GetNamespace = ns, GetGenerateName = [],
     GetUID = or_UID owner, GetGeneration = 0, GetResourceVersion = [], GetLabels = None,
     GetAnnotations = None, GetFinalizers = [], GetOwnerReferences = [], GetManagedFields = [],
     content = JNull\<rparr>"

definition Reconciler_Reconcile ::
  "'w cluster \<Rightarrow> validation_api \<Rightarrow> ('o, 'p, 't) compare_env \<Rightarrow> 'w ref_env \<Rightarrow> 'o Reconciler \<Rightarrow> ObjectKey \<Rightarrow>
    ('w, int) ref_run" where
  "Reconciler_Reconcile cl va cenv env c req =
    attempt (call (rc_Get env req))
      (\<lambda>err. if IsNotFound (rc_scheme c) err then ret 0 else fail err)
      (\<lambda>cm.
        if map_index (GetLabels cm) typeLabel = ''Revision'' then
          (case getOwner (Object.truncate cm) of
             None \<Rightarrow>
               bind (IgnoreNotFound (rc_scheme c) (client_send env (DeleteCM (Object.truncate cm)
                       (Some \<lparr>pre_UID = GetUID cm, pre_ResourceVersion = GetResourceVersion cm\<rparr>)
                       (Some ''Orphan'')))) (\<lambda>_.
               bind (removeFinalizer env c (Object.truncate cm) teardownFinalizer) (\<lambda>_. ret 0))
           | Some owner \<Rightarrow> handleRevision cl va cenv env c (deployment_stub owner (GetNamespace cm)) cm)
        else if map_index (GetLabels cm) typeLabel = ''Deployment'' then handleDeployment env c cm
        else ret 0)"

section \<open>The trace of the controller's client\<close>

definition ref_emits :: "(ref_request \<Rightarrow> bool) \<Rightarrow> 'w ref_state \<Rightarrow> 'w ref_state \<Rightarrow> bool" where
  "ref_emits P s t \<longleftrightarrow> (\<exists>reqs. rs_sent t = rs_sent s @ reqs \<and> list_all P reqs)"

interpretation rtr: effect_relation "ref_emits P" for P
  by unfold_locales (force simp: ref_emits_def)+

lemma on_engine_sent: "on_engine m s = (r, s') \<Longrightarrow> rs_sent s' = rs_sent s"
  by (auto simp: on_engine_def split: prod.splits)

lemma call_sent: "call f s = (r, s') \<Longrightarrow> rs_sent s' = rs_sent s"
  by (simp add: call_def on_engine_sent)

lemma client_send_sent: "client_send env req s = (r, s') \<Longrightarrow> rs_sent s' = rs_sent s @ [req]"
  by (auto simp: client_send_def bind_def modify_def call_err_def dest!: call_sent)

lemma keeps_on_engine: "rtr.keeps P (on_engine m)"
  by (rule rtr.keepsI) (auto simp: ref_emits_def dest!: on_engine_sent)

lemma keeps_call: "rtr.keeps P (call f)"
  by (simp add: call_def keeps_on_engine)

lemma keeps_call_err: "rtr.keeps P (call_err f)"
  by (simp add: call_err_def keeps_call)

lemma keeps_client_send: "P req \<Longrightarrow> rtr.keeps P (client_send env req)"
  by (rule rtr.keepsI) (auto simp: ref_emits_def dest!: client_send_sent)

lemmas keeps_ref_calls = keeps_on_engine keeps_call keeps_call_err keeps_client_send

lemma IgnoreNotFound_Val:
  "IgnoreNotFound api m s = (Val (), s') \<Longrightarrow> \<exists>r. m s = (r, s')"
  by (auto simp: IgnoreNotFound_def attempt_def ret_def fail_def split: prod.splits outcome.splits if_splits)

section \<open>What handling a deployment sends\<close>

definition delete_cm_request :: "revision \<Rightarrow> ref_request" where
  "delete_cm_request rv = DeleteCM (the (getOwnerFromRev rv)) None None"

lemma delete_revisions_sent:
  "delete_revisions env c prevs n s = (Val (), s') \<Longrightarrow>
    rs_sent s' = rs_sent s @ map delete_cm_request (take (nat n) prevs)"
proof (induction prevs arbitrary: n s)
  case (Cons p ps)
  show ?case
  proof (cases "n \<le> 0")
    case False
    with Cons.prems obtain ow s1 where ow: "getOwnerFromRev p = Some ow"
      and s1: "IgnoreNotFound (rc_scheme c) (client_send env (DeleteCM ow None None)) s = (Val (), s1)"
      and rest: "delete_revisions env c ps (n - 1) s1 = (Val (), s')"
      by (auto simp: bind_eq_Val lift_def deref_def split: option.splits)
    have "rs_sent s1 = rs_sent s @ [delete_cm_request p]"
      using IgnoreNotFound_Val [OF s1] client_send_sent ow by (fastforce simp: delete_cm_request_def)
    moreover have "nat n = Suc (nat (n - 1))" using False by simp
    ultimately show ?thesis using Cons.IH [OF rest] by simp
  qed (use Cons.prems in \<open>simp add: ret_def\<close>)
qed (simp add: ret_def)

lemma create_revision_sent:
  assumes "create_revision env c cm prevs s = (Val (), s')"
  shows "\<exists>d obj. cm_Data cm = Some d \<and>
    rc_SetControllerReference c (Object.truncate cm)
      (Object.truncate (new_revision_cm env cm (next_int64 (latestRevisionNumber prevs)) d)) = Val obj \<and>
    rs_sent s' = rs_sent s @ [CreateCM ((new_revision_cm env cm (next_int64 (latestRevisionNumber prevs)) d)
      \<lparr>GetOwnerReferences := GetOwnerReferences obj\<rparr>)]"
  using assms
  by (auto simp: create_revision_def Let_def bind_eq_Val panic_def split: option.splits dest!: client_send_sent)
    (auto simp: lift_def)

text \<open>Whether the newest revision is that of the present data.\<close>

definition up_to_date :: "'w ref_env \<Rightarrow> ConfigMap \<Rightarrow> revision list \<Rightarrow> bool" where
  "up_to_date env cm existing \<longleftrightarrow> existing \<noteq> [] \<and> is_current env cm (last existing) = Val True"

lemma handleDeployment_sent:
  assumes run: "handleDeployment env c cm s = (Val n, s')"
    and list: "call (rc_List env [(typeLabel, ''Revision''), (deploymentLabel, GetName cm)]) s = (Val items, s1)"
    and revs: "toRevisions env c (GetName cm) items = Val revs"
    and ex: "existing = rc_sort env revs"
  shows "if up_to_date env cm existing
    then rs_sent s' = rs_sent s @ map delete_cm_request (take (length existing - 6) (rev (butlast existing)))
    else \<exists>d obj. cm_Data cm = Some d \<and>
      rc_SetControllerReference c (Object.truncate cm)
        (Object.truncate (new_revision_cm env cm (next_int64 (latestRevisionNumber existing)) d)) = Val obj \<and>
      rs_sent s' = rs_sent s @ CreateCM ((new_revision_cm env cm (next_int64 (latestRevisionNumber existing)) d)
        \<lparr>GetOwnerReferences := GetOwnerReferences obj\<rparr>) #
      map delete_cm_request (take (length existing - 5) (rev existing))"
proof -
  have s1: "rs_sent s1 = rs_sent s" by (rule call_sent [OF list])
  from run list revs ex obtain current s2 s3 where
    cur: "(if existing = [] then ret False else lift (is_current env cm (last existing))) s1 = (Val current, s2)"
    and cr: "(if current then ret () else create_revision env c cm
        (if current then butlast existing else existing)) s2 = (Val (), s3)"
    and del: "delete_revisions env c (rev (if current then butlast existing else existing))
        (int (length (if current then butlast existing else existing)) - revisionHistoryLimit) s3 = (Val (), s')"
    by (auto simp: handleDeployment_def bind_eq_Val Let_def lift_def ret_def)
  have current: "current \<longleftrightarrow> up_to_date env cm existing" and s2: "s2 = s1"
    using cur by (auto simp: up_to_date_def ret_def lift_def split: if_splits)
  have six: "nat (int (length existing - Suc 0) - 5) = length existing - 6" by simp
  show ?thesis
  proof (cases current)
    case True
    then have "s3 = s2" using cr by (simp add: ret_def)
    with delete_revisions_sent [OF del] True current s1 s2 show ?thesis
      by (simp add: revisionHistoryLimit_def six)
  next
    case False
    have five: "nat (int (length existing) - 5) = length existing - 5" by simp
    from False cr have "create_revision env c cm existing s2 = (Val (), s3)" by simp
    from create_revision_sent [OF this] obtain d obj where "cm_Data cm = Some d"
      "rc_SetControllerReference c (Object.truncate cm)
        (Object.truncate (new_revision_cm env cm (next_int64 (latestRevisionNumber existing)) d)) = Val obj"
      "rs_sent s3 = rs_sent s2 @
        [CreateCM ((new_revision_cm env cm (next_int64 (latestRevisionNumber existing)) d)
          \<lparr>GetOwnerReferences := GetOwnerReferences obj\<rparr>)]"
      by blast
    with delete_revisions_sent [OF del] False current s1 s2 show ?thesis
      by (simp add: revisionHistoryLimit_def five)
  qed
qed

text \<open>What \<open>sort.Sort\<close> promises: a permutation in which no element is \<open>Less\<close> than one before it.\<close>

definition sorts_revisions :: "'w ref_env \<Rightarrow> bool" where
  "sorts_revisions env \<longleftrightarrow>
    (\<forall>rs. mset (rc_sort env rs) = mset rs \<and>
       (\<forall>i j. i < j \<longrightarrow> j < length (rc_sort env rs) \<longrightarrow> \<not> revisionAscending_Less (rc_sort env rs) j i))"

lemma Less_sorted:
  "(\<forall>i j. i < j \<longrightarrow> j < length rs \<longrightarrow> \<not> revisionAscending_Less rs j i) \<longleftrightarrow> sorted (map rev_Revision rs)"
  by (auto simp: revisionAscending_Less_def sorted_iff_nth_mono_less not_less)

lemma sorts_revisions_iff:
  "sorts_revisions env \<longleftrightarrow>
    (\<forall>rs. mset (rc_sort env rs) = mset rs \<and> sorted (map rev_Revision (rc_sort env rs)))"
  unfolding sorts_revisions_def Less_sorted by (rule refl)

lemma sorts_revisions_set: "sorts_revisions env \<Longrightarrow> set (rc_sort env rs) = set rs"
  unfolding sorts_revisions_iff by (metis set_mset_mset)

lemma latest_is_greatest:
  assumes "sorts_revisions env" "r \<in> set rs"
  shows "rev_Revision r \<le> latestRevisionNumber (rc_sort env rs)"
proof -
  have r: "r \<in> set (rc_sort env rs)" using assms sorts_revisions_set by blast
  then have "rc_sort env rs = butlast (rc_sort env rs) @ [last (rc_sort env rs)]"
    by (metis append_butlast_last_id empty_iff empty_set)
  moreover have "sorted (map rev_Revision (rc_sort env rs))" using assms(1) by (simp add: sorts_revisions_iff)
  ultimately have "sorted (map rev_Revision (butlast (rc_sort env rs)) @ [rev_Revision (last (rc_sort env rs))])"
    by (metis list.simps(8) list.simps(9) map_append)
  with r show ?thesis
    by (cases "rc_sort env rs" rule: rev_cases) (auto simp: sorted_append latestRevisionNumber_def)
qed

definition is_create :: "ref_request \<Rightarrow> bool" where
  "is_create req \<longleftrightarrow> (\<exists>cm. req = CreateCM cm)"

lemma filter_create_deletes [simp]: "filter is_create (map delete_cm_request rs) = []"
  by (induction rs) (simp_all add: is_create_def delete_cm_request_def)

lemma read_data_range:
  "read_data env dn ns d acc = Val acc' \<Longrightarrow> in_int64 (rd_revision acc) \<Longrightarrow> in_int64 (rd_revision acc')"
proof (induction env dn ns d acc rule: read_data.induct)
  case (2 env dn ns k v d acc)
  then obtain mid where mid: "read_entry env dn ns k v acc = Val mid" "read_data env dn ns d mid = Val acc'"
    by (auto simp: obind_eq_Val)
  have "in_int64 (rd_revision mid)"
    using mid(1) "2.prems"(2) ParseInt_in_int64
    by (auto simp: read_entry_def Let_def split: if_splits sum.splits option.splits)
  with "2.IH" mid show ?case by blast
qed simp

lemma toRevisions_range:
  "toRevisions env c dn items = Val revs \<Longrightarrow> r \<in> set revs \<Longrightarrow> in_int64 (rev_Revision r) \<and> rev_Revision r \<noteq> 0"
proof (induction items arbitrary: revs)
  case (Cons cm items)
  then obtain r' opts rest where hd: "toRevision env c dn cm [] = Val (r', opts)" "revs = r' # rest"
    "toRevisions env c dn items = Val rest"
    by (cases "toRevision env c dn cm []") (auto simp: obind_eq_Val)
  have zero: "in_int64 0" by (simp add: int64_defs)
  from hd(1) obtain d where d: "read_data env dn (GetNamespace cm) (case cm_Data cm of None \<Rightarrow> [] | Some d \<Rightarrow> d)
      \<lparr>rd_phaseNames = [], rd_revision = 0, rd_objects = (\<lambda>_. [])\<rparr> = Val d"
    "rev_Revision r' = rd_revision d" "rd_revision d \<noteq> 0"
    by (auto simp: toRevision_def obind_eq_Val Let_def NewRevisionWithOwnerAndSiblings_def NewRevision_def
        revision_WithReconcileOptions_def revision_WithTeardownOptions_def split: if_splits)
  with read_data_range [OF d(1)] zero have "in_int64 (rev_Revision r') \<and> rev_Revision r' \<noteq> 0" by simp
  with Cons hd show ?case by auto
qed simp

text \<open>The latest number is that of a revision, or zero when there is none.\<close>

lemma latest_in_int64:
  assumes "sorts_revisions env" "toRevisions env c dn items = Val revs"
  shows "in_int64 (latestRevisionNumber (rc_sort env revs))"
proof -
  have "in_int64 0" by (simp add: int64_defs)
  moreover have "rc_sort env revs = [] \<or> last (rc_sort env revs) \<in> set revs"
    using sorts_revisions_set [OF assms(1), of revs] last_in_set by blast
  ultimately show ?thesis using toRevisions_range [OF assms(2)] by (auto simp: latestRevisionNumber_def)
qed

lemma next_int64_range: "in_int64 i \<Longrightarrow> in_int64 (next_int64 i)"
  by (auto simp: next_int64_def in_int64_def int64_defs)

lemma next_int64_exceeds:
  assumes "sorts_revisions env" "toRevisions env c dn items = Val revs"
    and "latestRevisionNumber (rc_sort env revs) < max_int64" "r \<in> set revs"
  shows "rev_Revision r < next_int64 (latestRevisionNumber (rc_sort env revs))"
  using latest_is_greatest [OF assms(1,4)] assms(3) by (simp add: next_int64_def)

text \<open>The ConfigMap of a new revision: what marks it, what it carries and who controls it.\<close>

definition successor_of ::
  "'w ref_env \<Rightarrow> 'o Reconciler \<Rightarrow> ConfigMap \<Rightarrow> int \<Rightarrow> ConfigMap \<Rightarrow> bool" where
  "successor_of env c cm k rcm \<longleftrightarrow>
    GetName rcm = GetName cm @ ''-'' @ FormatInt k \<and> GetNamespace rcm = GetNamespace cm \<and>
    map_get (GetLabels rcm) typeLabel = Some ''Revision'' \<and>
    map_get (GetLabels rcm) deploymentLabel = Some (GetName cm) \<and>
    map_get (GetAnnotations rcm) hashAnnotation = Some (rc_Hash env (cm_Data cm)) \<and>
    (\<forall>key. key \<noteq> cmRevisionNumberKey \<longrightarrow> data_get rcm key = data_get cm key) \<and>
    ParseInt (data_get rcm cmRevisionNumberKey) = Inr k \<and>
    (\<exists>obj. rc_SetControllerReference c (Object.truncate cm)
        (Object.truncate (rcm\<lparr>GetOwnerReferences := []\<rparr>)) = Val obj \<and>
      GetOwnerReferences rcm = GetOwnerReferences obj)"

lemma new_revision_successor:
  assumes "in_int64 k" "cm_Data cm = Some d"
    and "rc_SetControllerReference c (Object.truncate cm) (Object.truncate (new_revision_cm env cm k d)) = Val obj"
  shows "successor_of env c cm k ((new_revision_cm env cm k d)\<lparr>GetOwnerReferences := GetOwnerReferences obj\<rparr>)"
proof -
  have "(new_revision_cm env cm k d)\<lparr>GetOwnerReferences := []\<rparr> = new_revision_cm env cm k d"
    by (simp add: new_revision_cm_def)
  with assms ParseInt_FormatInt [OF assms(1)] show ?thesis
    by (simp add: successor_of_def)
      (auto simp: new_revision_cm_def data_get_def ref_consts update_conv' split: option.splits)
qed

lemma handleDeployment_creates:
  assumes sort: "sorts_revisions env"
    and run: "handleDeployment env c cm s = (Val n, s')"
    and list: "call (rc_List env [(typeLabel, ''Revision''), (deploymentLabel, GetName cm)]) s = (Val items, s1)"
    and revs: "toRevisions env c (GetName cm) items = Val revs"
  shows "\<exists>new. rs_sent s' = rs_sent s @ new \<and>
    (if up_to_date env cm (rc_sort env revs) then filter is_create new = []
     else \<exists>rcm. filter is_create new = [CreateCM rcm] \<and>
       successor_of env c cm (next_int64 (latestRevisionNumber (rc_sort env revs))) rcm)"
proof (cases "up_to_date env cm (rc_sort env revs)")
  case True
  with handleDeployment_sent [OF run list revs refl] show ?thesis by simp
next
  case False
  let ?k = "next_int64 (latestRevisionNumber (rc_sort env revs))"
  obtain d obj where d: "cm_Data cm = Some d"
    "rc_SetControllerReference c (Object.truncate cm) (Object.truncate (new_revision_cm env cm ?k d)) = Val obj"
    and sent: "rs_sent s' = rs_sent s @
      CreateCM ((new_revision_cm env cm ?k d)\<lparr>GetOwnerReferences := GetOwnerReferences obj\<rparr>) #
      map delete_cm_request (take (length (rc_sort env revs) - 5) (rev (rc_sort env revs)))"
    using handleDeployment_sent [OF run list revs refl] False by auto
  have "in_int64 ?k" by (rule next_int64_range [OF latest_in_int64 [OF sort revs]])
  from new_revision_successor [OF this d] sent False show ?thesis
    by (auto simp: is_create_def)
qed

text \<open>C20: a change of a deployment is one new revision. When the newest revision has the hash of the present
  data, handling the deployment without an error creates nothing; otherwise it creates exactly one
  ConfigMap. That has the type label Revision and the deployment's name as deployment label, by
  which the controller lists it again, the namespace and the data of the deployment, the hash of
  the data, and the owner references that SetControllerReference gives it for the deployment. Its number is
  the successor of the latest one as an \<open>int64\<close>; as long as no existing revision has the greatest
  \<open>int64\<close> as its number, it is greater than the number of every existing revision.\<close>

theorem handleDeployment_creates_successor:
  assumes sort: "sorts_revisions env"
    and run: "handleDeployment env c cm s = (Val n, s')"
    and list: "call (rc_List env [(typeLabel, ''Revision''), (deploymentLabel, GetName cm)]) s = (Val items, s1)"
    and revs: "toRevisions env c (GetName cm) items = Val revs"
  shows "\<exists>new. rs_sent s' = rs_sent s @ new \<and>
    (if up_to_date env cm (rc_sort env revs) then filter is_create new = []
     else \<exists>rcm k obj. filter is_create new = [CreateCM rcm] \<and>
       map_get (GetLabels rcm) typeLabel = Some ''Revision'' \<and>
       map_get (GetLabels rcm) deploymentLabel = Some (GetName cm) \<and>
       GetNamespace rcm = GetNamespace cm \<and>
       map_get (GetAnnotations rcm) hashAnnotation = Some (rc_Hash env (cm_Data cm)) \<and>
       (\<forall>key. key \<noteq> cmRevisionNumberKey \<longrightarrow> data_get rcm key = data_get cm key) \<and>
       rc_SetControllerReference c (Object.truncate cm)
         (Object.truncate (rcm\<lparr>GetOwnerReferences := []\<rparr>)) = Val obj \<and>
       GetOwnerReferences rcm = GetOwnerReferences obj \<and>
       ParseInt (data_get rcm cmRevisionNumberKey) = Inr k \<and>
       k = next_int64 (latestRevisionNumber (rc_sort env revs)) \<and>
       ((\<forall>r \<in> set revs. rev_Revision r < max_int64) \<longrightarrow> (\<forall>r \<in> set revs. rev_Revision r < k)))"
proof -
  let ?l = "latestRevisionNumber (rc_sort env revs)"
  have "(\<forall>r \<in> set revs. rev_Revision r < max_int64) \<longrightarrow> ?l < max_int64"
    using sorts_revisions_set [OF sort, of revs] last_in_set [of "rc_sort env revs"]
    by (auto simp: latestRevisionNumber_def int64_defs)
  then have "(\<forall>r \<in> set revs. rev_Revision r < max_int64) \<longrightarrow> (\<forall>r \<in> set revs. rev_Revision r < next_int64 ?l)"
    using next_int64_exceeds [OF sort revs] by blast
  with handleDeployment_creates [OF assms] show ?thesis
    unfolding successor_of_def by (cases "up_to_date env cm (rc_sort env revs)") (simp, simp, blast)
qed

text \<open>C38: the history limit deletes the wrong end. With more than five previous revisions, handling a
  deployment deletes the newest of them and keeps the five oldest, although it is meant to
  trim the history: every revision it deletes is at least as new as every previous one it keeps.\<close>

theorem history_limit_deletes_newest:
  assumes sort: "sorts_revisions env"
    and run: "handleDeployment env c cm s = (Val n, s')"
    and list: "call (rc_List env [(typeLabel, ''Revision''), (deploymentLabel, GetName cm)]) s = (Val items, s1)"
    and revs: "toRevisions env c (GetName cm) items = Val revs"
    and cur: "up_to_date env cm (rc_sort env revs)" "6 < length revs"
  shows "\<exists>kept deleted newest. mset revs = mset (kept @ deleted @ [newest]) \<and> length kept = 5 \<and>
    rs_sent s' = rs_sent s @ map delete_cm_request (rev deleted) \<and> deleted \<noteq> [] \<and>
    (\<forall>k \<in> set kept. \<forall>x \<in> set deleted. rev_Revision k \<le> rev_Revision x)"
proof -
  let ?ex = "rc_sort env revs"
  let ?prev = "butlast ?ex"
  have m: "mset ?ex = mset revs" and so: "sorted (map rev_Revision ?ex)"
    using sort by (simp_all add: sorts_revisions_iff)
  have len: "length ?ex = length revs" using m by (metis size_mset)
  have ne: "?ex \<noteq> []" using cur(1) by (simp add: up_to_date_def)
  then have split: "?ex = take 5 ?prev @ drop 5 ?prev @ [last ?ex]"
    by (metis append.assoc append_butlast_last_id append_take_drop_id)
  have "sorted (map rev_Revision (take 5 ?prev) @ map rev_Revision (drop 5 ?prev) @ [rev_Revision (last ?ex)])"
    using so split by (metis list.simps(8) list.simps(9) map_append)
  then have le: "\<forall>k \<in> set (take 5 ?prev). \<forall>x \<in> set (drop 5 ?prev). rev_Revision k \<le> rev_Revision x"
    by (auto simp: sorted_append)
  have "take (length ?ex - 6) (rev ?prev) = rev (drop 5 ?prev)"
    using cur(2) len by (simp add: take_rev)
  then have "rs_sent s' = rs_sent s @ map delete_cm_request (rev (drop 5 ?prev))"
    using handleDeployment_sent [OF run list revs refl] cur(1) by simp
  moreover have "mset revs = mset (take 5 ?prev @ drop 5 ?prev @ [last ?ex])" using m split by metis
  moreover have "length (take 5 ?prev) = 5" "drop 5 ?prev \<noteq> []" using cur(2) len by simp_all
  ultimately show ?thesis using le by blast
qed

text \<open>C36: revision numbers are 64-bit integers and wrap around. Every revision the controller reads has a
  number in the range of \<open>int64\<close> that is not zero. When there are revisions and the newest is not
  up to date, the ConfigMap the controller creates carries a number in the range of \<open>int64\<close> too. That
  number is greater than all existing ones exactly when the latest is not the greatest \<open>int64\<close>; if it
  is, the number wraps around to the least. The number is zero, which is not a valid revision
  number, exactly when the latest is -1.\<close>

theorem revision_numbers_wrap:
  assumes sort: "sorts_revisions env"
    and run: "handleDeployment env c cm s = (Val n, s')"
    and list: "call (rc_List env [(typeLabel, ''Revision''), (deploymentLabel, GetName cm)]) s = (Val items, s1)"
    and revs: "toRevisions env c (GetName cm) items = Val revs"
    and stale: "revs \<noteq> []" "\<not> up_to_date env cm (rc_sort env revs)"
    and latest: "latest = latestRevisionNumber (rc_sort env revs)"
  shows "(\<forall>r\<in>set revs. in_int64 (rev_Revision r) \<and> rev_Revision r \<noteq> 0) \<and>
    (\<exists>new rcm k. rs_sent s' = rs_sent s @ new \<and> filter is_create new = [CreateCM rcm] \<and>
       ParseInt (data_get rcm cmRevisionNumberKey) = Inr k \<and> in_int64 k \<and>
       ((\<forall>r\<in>set revs. rev_Revision r < k) \<longleftrightarrow> latest < max_int64) \<and>
       (latest = max_int64 \<longrightarrow> k = min_int64) \<and> (k = 0 \<longleftrightarrow> latest = -1))"
proof -
  let ?k = "next_int64 latest"
  have range: "\<forall>r\<in>set revs. in_int64 (rev_Revision r) \<and> rev_Revision r \<noteq> 0"
    using toRevisions_range [OF revs] by blast
  have l: "min_int64 \<le> latest" "latest \<le> max_int64"
    using latest_in_int64 [OF sort revs] by (simp_all add: latest in_int64_def)
  obtain r where "r \<in> set revs" using stale(1) by (cases revs) auto
  then have "(\<forall>r\<in>set revs. rev_Revision r < ?k) \<longleftrightarrow> latest < max_int64"
    using next_int64_exceeds [OF sort revs] range l(2)
    by (cases "latest = max_int64") (force simp: latest next_int64_def in_int64_def int64_defs)+
  moreover have "in_int64 ?k" using latest_in_int64 [OF sort revs] by (simp add: latest next_int64_range)
  moreover have "latest = max_int64 \<longrightarrow> ?k = min_int64" "?k = 0 \<longleftrightarrow> latest = -1"
    by (auto simp: next_int64_def int64_defs)
  moreover obtain new rcm where "rs_sent s' = rs_sent s @ new" "filter is_create new = [CreateCM rcm]"
    "ParseInt (data_get rcm cmRevisionNumberKey) = Inr ?k"
    using handleDeployment_creates [OF sort run list revs] stale(2) by (auto simp: successor_of_def latest)
  ultimately show ?thesis using range by blast
qed

text \<open>A deployment without data makes the controller panic. When no revision of it exists and its
  data is missing, the controller stores the revision number into a nil map.\<close>

theorem deployment_without_data_panics:
  assumes "call (rc_List env [(typeLabel, ''Revision''), (deploymentLabel, GetName cm)]) s = (Val [], s1)"
    and "rc_sort env [] = []" "cm_Data cm = None"
  shows "is_panic (fst (handleDeployment env c cm s))"
  using assms by (simp add: handleDeployment_def bind_def wrap_err_def lift_def ret_def Let_def
      create_revision_def panic_def)

section \<open>What handling a revision sends\<close>

text \<open>The siblings a revision with number \<open>n\<close> supersedes.\<close>

definition superseded :: "int \<Rightarrow> ConfigMap \<Rightarrow> bool" where
  "superseded n s \<longleftrightarrow> data_get s cmStateKey \<noteq> ''Archived'' \<and>
    (\<exists>m. parseRevisionNumber (data_get s cmRevisionNumberKey) = Inr m \<and> m < n)"

definition archive_request :: "ConfigMap \<Rightarrow> ref_request" where
  "archive_request s = MergePatchCM (Object.truncate s) ''{\"data\":{\"state\":\"Archived\"}}''"

lemma archive_siblings_sent:
  "archive_siblings env n ss s = (Val (), s') \<Longrightarrow>
    rs_sent s' = rs_sent s @ map archive_request (filter (superseded n) ss)"
  by (induction ss arbitrary: s)
    (auto simp: ret_def superseded_def archive_request_def bind_eq_Val split: if_splits sum.splits
      dest!: client_send_sent)

lemma ensureFinalizer_sent:
  "ensureFinalizer env c obj f s = (Val (), s') \<Longrightarrow>
    rs_sent s' = rs_sent s @ (if ContainsFinalizer (rc_scheme c) obj f then []
      else [MergePatchCM (obj\<lparr>GetFinalizers := rc_AddFinalizer env obj f\<rparr>) (finalizer_patch obj (rc_AddFinalizer env obj f))])"
  by (auto simp: ensureFinalizer_def ret_def Let_def split: if_splits dest!: client_send_sent)

text \<open>The steps before the decision between teardown and rollout send nothing with the controller's
  own client.\<close>

lemma handleRevision_run:
  assumes "handleRevision cl va cenv env c deploy revisionCM s = (Val n, s')"
  obtains items rv opts accessor re s1 where
    "fst (call (rc_List env [(typeLabel, ''Revision''), (deploymentLabel, GetName deploy)]) s) = Val items"
    "toRevision env c (GetName deploy) revisionCM
       (map Object.truncate (filter (\<lambda>x. GetUID x \<noteq> GetUID revisionCM) items)) = Val (rv, opts)"
    "boxcutter_NewRevisionEngine cl va cenv (ref_engine_options c accessor) = Val re"
    "rs_sent s1 = rs_sent s"
    "(if cm_Deleting revisionCM \<or> data_get revisionCM cmStateKey = ''Archived''
      then teardown_revision env c re deploy revisionCM rv
      else reconcile_revision env c re revisionCM rv opts
             (filter (\<lambda>x. GetUID x \<noteq> GetUID revisionCM) items)) s1 = (Val n, s')"
proof -
  from assms obtain items s0 rv opts accessor s1 re where
    l: "call (rc_List env [(typeLabel, ''Revision''), (deploymentLabel, GetName deploy)]) s = (Val items, s0)"
    and r: "toRevision env c (GetName deploy) revisionCM
       (map Object.truncate (filter (\<lambda>x. GetUID x \<noteq> GetUID revisionCM) items)) = Val (rv, opts)"
    and a: "call (rc_GetWithUser env deploy (Object.truncate revisionCM)
        (concat (map ph_Objects (rev_Phases rv)))) s0 = (Val accessor, s1)"
    and re: "boxcutter_NewRevisionEngine cl va cenv (ref_engine_options c accessor) = Val re"
    and rest: "(if cm_Deleting revisionCM \<or> data_get revisionCM cmStateKey = ''Archived''
      then teardown_revision env c re deploy revisionCM rv
      else reconcile_revision env c re revisionCM rv opts
             (filter (\<lambda>x. GetUID x \<noteq> GetUID revisionCM) items)) s1 = (Val n, s')"
    by (auto simp: handleRevision_def bind_eq_Val Let_def lift_def)
  have "rs_sent s1 = rs_sent s" using call_sent [OF l] call_sent [OF a] by simp
  with l r re rest show thesis by (auto intro: that)
qed

text \<open>C18: a revision archives exactly what it supersedes, and only when it is complete. Handling a live
  revision that has its finalizer sends one archive patch for every sibling that is not archived yet
  and whose revision number is smaller when the engine reports the revision complete and without
  validation errors, and nothing otherwise; it never archives itself or a newer revision.\<close>

theorem revision_archives_superseded:
  assumes "handleRevision cl va cenv env c deploy revisionCM s = (Val n, s')"
    and live: "\<not> cm_Deleting revisionCM" "data_get revisionCM cmStateKey \<noteq> ''Archived''"
    and fin: "ContainsFinalizer (rc_scheme c) (Object.truncate revisionCM) teardownFinalizer"
  shows "\<exists>items rv opts accessor re rres s1 s2.
    fst (call (rc_List env [(typeLabel, ''Revision''), (deploymentLabel, GetName deploy)]) s) = Val items \<and>
    toRevision env c (GetName deploy) revisionCM
       (map Object.truncate (filter (\<lambda>x. GetUID x \<noteq> GetUID revisionCM) items)) = Val (rv, opts) \<and>
    boxcutter_NewRevisionEngine cl va cenv (ref_engine_options c accessor) = Val re \<and>
    RevisionEngine_Reconcile re rv opts s1 = (Val (rres, None), s2) \<and>
    rs_sent s' = rs_sent s @
      (if rr_validationError rres = None \<and> list_all (\<lambda>p. pr_validationError p = None) (rr_phasesResults rres) \<and>
          revisionResult_IsComplete rres
       then map archive_request (filter (\<lambda>x. GetUID x \<noteq> GetUID revisionCM \<and> superseded (rev_Revision rv) x) items)
       else [])"
proof -
  obtain items rv opts accessor re s1 where
    l: "fst (call (rc_List env [(typeLabel, ''Revision''), (deploymentLabel, GetName deploy)]) s) = Val items"
    and rv: "toRevision env c (GetName deploy) revisionCM
       (map Object.truncate (filter (\<lambda>x. GetUID x \<noteq> GetUID revisionCM) items)) = Val (rv, opts)"
    and re: "boxcutter_NewRevisionEngine cl va cenv (ref_engine_options c accessor) = Val re"
    and s1: "rs_sent s1 = rs_sent s"
    and run: "reconcile_revision env c re revisionCM rv opts
      (filter (\<lambda>x. GetUID x \<noteq> GetUID revisionCM) items) s1 = (Val n, s')"
    by (rule handleRevision_run [OF assms(1)]) (use live in auto)
  from run fin obtain rres err s3 where
    e: "on_engine (RevisionEngine_Reconcile re rv opts) s1 = (Val (rres, err), s3)"
    and rest: "(case err of Some e \<Rightarrow> fail (Wrap ''revision reconcile'' e)
      | None \<Rightarrow>
          if rr_validationError rres \<noteq> None then ret 10
          else if list_ex (\<lambda>pres. pr_validationError pres \<noteq> None) (rr_phasesResults rres) then ret 10
          else if revisionResult_IsComplete rres
          then bind (archive_siblings env (rev_Revision rv)
            (filter (\<lambda>x. GetUID x \<noteq> GetUID revisionCM) items)) (\<lambda>_. ret 0)
          else ret 0) s3 = (Val n, s')"
    by (auto simp: reconcile_revision_def ensureFinalizer_def bind_eq_Val simp del: not_None_eq)
  obtain s2 where e': "RevisionEngine_Reconcile re rv opts (rs_engine s1) = (Val (rres, err), s2)"
    using e by (auto simp: on_engine_def split: prod.splits)
  have err: "err = None" using rest by (auto simp: fail_def split: option.splits)
  have s3: "rs_sent s3 = rs_sent s" using on_engine_sent [OF e] s1 by simp
  have "rs_sent s' = rs_sent s @
      (if rr_validationError rres = None \<and> list_all (\<lambda>p. pr_validationError p = None) (rr_phasesResults rres) \<and>
          revisionResult_IsComplete rres
       then map archive_request (filter (\<lambda>x. GetUID x \<noteq> GetUID revisionCM \<and> superseded (rev_Revision rv) x) items)
       else [])"
    using rest err s3
    by (auto simp: ret_def bind_eq_Val list_ex_iff list_all_iff conj_commute split: if_splits
        dest!: archive_siblings_sent)
  then show ?thesis
    by - (intro exI conjI, rule l, rule rv, rule re, rule e' [unfolded err], assumption)
qed

text \<open>What \<open>controllerutil.RemoveFinalizer\<close> promises: it removes the finalizer and no other.\<close>

definition removes_finalizers :: "'w ref_env \<Rightarrow> bool" where
  "removes_finalizers env \<longleftrightarrow>
    (\<forall>obj f. rc_RemoveFinalizer env obj f = removeAll f (GetFinalizers obj))"

text \<open>A run that sent something went on after every step that sends nothing, and the step succeeded.\<close>

lemma bind_quiet:
  assumes "bind m f s = (r, s')" "rs_sent s' \<noteq> rs_sent s"
    and "\<And>q t. m s = (q, t) \<Longrightarrow> rs_sent t = rs_sent s"
  obtains x t where "m s = (Val x, t)" "f x t = (r, s')" "rs_sent t = rs_sent s"
proof -
  obtain q t where q: "m s = (q, t)" by fastforce
  from assms(3) [OF this] have "rs_sent t = rs_sent s" .
  with assms(1,2) q that show thesis by (cases q) (auto simp: bind_def)
qed

lemma quiet_steps:
  "wrap_err w (call f) s = (q, t) \<Longrightarrow> rs_sent t = rs_sent s"
  "lift m s = (q', t) \<Longrightarrow> rs_sent t = rs_sent s"
  "on_engine e s = (q'', t) \<Longrightarrow> rs_sent t = rs_sent s"
  "wrap_err w (call_err g) s = (u, t) \<Longrightarrow> rs_sent t = rs_sent s"
  by (auto simp: wrap_err_def lift_def call_err_def split: prod.splits dest!: call_sent on_engine_sent)

lemma handleRevision_teardown_sent:
  assumes run: "handleRevision cl va cenv env c deploy revisionCM s = (r, s')"
    and del: "cm_Deleting revisionCM \<or> data_get revisionCM cmStateKey = ''Archived''"
    and sent: "rs_sent s' \<noteq> rs_sent s"
  obtains siblings opts accessor re rv s1 where
    "toRevision env c (GetName deploy) revisionCM siblings = Val (rv, opts)"
    "boxcutter_NewRevisionEngine cl va cenv (ref_engine_options c accessor) = Val re"
    "rs_sent s1 = rs_sent s" "teardown_revision env c re deploy revisionCM rv s1 = (r, s')"
  using assms unfolding handleRevision_def Let_def
  by (auto elim!: bind_quiet dest: quiet_steps(1,2) intro: that simp: lift_def)

lemma removeFinalizer_sent:
  assumes "removeFinalizer env c obj f s = (q, s')" "rs_sent s' \<noteq> rs_sent s"
  shows "ContainsFinalizer (rc_scheme c) obj f \<and> rs_sent s' = rs_sent s @
    [MergePatchCM (obj\<lparr>GetFinalizers := rc_RemoveFinalizer env obj f\<rparr>)
       (finalizer_patch obj (rc_RemoveFinalizer env obj f))]"
  using assms
  by (auto simp: removeFinalizer_def Let_def ret_def wrap_err_def split: if_splits prod.splits dest!: client_send_sent)

lemma teardown_revision_sent:
  assumes run: "teardown_revision env c re deploy revisionCM rv s = (r, s')"
    and sent: "rs_sent s' \<noteq> rs_sent s"
  shows "\<exists>s1 t s2 w. RevisionEngine_Teardown re rv [] s1 = (Val (Some t, None), s2) \<and>
    revisionTeardownResult_IsComplete t \<and>
    rc_FreeWithUser env deploy (Object.truncate revisionCM) (world s2) = (None, w) \<and>
    rs_sent s' = rs_sent s @
      [MergePatchCM ((Object.truncate revisionCM)
          \<lparr>GetFinalizers := rc_RemoveFinalizer env (Object.truncate revisionCM) teardownFinalizer\<rparr>)
         (finalizer_patch (Object.truncate revisionCM)
            (rc_RemoveFinalizer env (Object.truncate revisionCM) teardownFinalizer))]"
proof -
  let ?cm = "Object.truncate revisionCM"
  let ?free = "call_err (rc_FreeWithUser env deploy ?cm)"
  from run [unfolded teardown_revision_def] sent obtain tres err s2 where
    e: "on_engine (RevisionEngine_Teardown re rv []) s = (Val (tres, err), s2)" "rs_sent s2 = rs_sent s"
    and rest: "(case err of Some e \<Rightarrow> fail (Wrap ''revision teardown'' e)
      | None \<Rightarrow> bind (lift (deref tres)) (\<lambda>t.
            if \<not> revisionTeardownResult_IsComplete t then ret 0
            else bind (wrap_err (Wrap ''get cache'') ?free) (\<lambda>_.
                 bind (removeFinalizer env c ?cm teardownFinalizer) (\<lambda>_. ret 0)))) s2 = (r, s')"
    by (auto elim!: bind_quiet dest: quiet_steps(3))
  from rest sent e(2) obtain t where t: "err = None" "tres = Some t" "revisionTeardownResult_IsComplete t"
    and free: "bind (wrap_err (Wrap ''get cache'') ?free) (\<lambda>_.
      bind (removeFinalizer env c ?cm teardownFinalizer) (\<lambda>_. ret 0)) s2 = (r, s')"
    by (auto simp: fail_def bind_def lift_def deref_def ret_def split: option.splits if_splits)
  have "\<exists>s3. ?free s2 = (Val (), s3) \<and> rs_sent s3 = rs_sent s \<and>
      bind (removeFinalizer env c ?cm teardownFinalizer) (\<lambda>_. ret 0) s3 = (r, s')"
    by (rule bind_quiet [OF free]) (use sent e(2) in \<open>auto dest: quiet_steps(4)\<close>)
  then obtain s3 where f: "?free s2 = (Val (), s3)" "rs_sent s3 = rs_sent s"
    and rm: "bind (removeFinalizer env c ?cm teardownFinalizer) (\<lambda>_. ret 0) s3 = (r, s')" by blast
  obtain q where "removeFinalizer env c ?cm teardownFinalizer s3 = (q, s')"
    using rm by (auto simp: bind_def ret_def split: prod.splits outcome.splits)
  from removeFinalizer_sent [OF this] sent f(2) have
    p: "rs_sent s' = rs_sent s @ [MergePatchCM (?cm\<lparr>GetFinalizers := rc_RemoveFinalizer env ?cm teardownFinalizer\<rparr>)
         (finalizer_patch ?cm (rc_RemoveFinalizer env ?cm teardownFinalizer))]" by simp
  have st: "RevisionEngine_Teardown re rv [] (rs_engine s) = (Val (Some t, None), rs_engine s2)"
    using e(1) t by (auto simp: on_engine_def split: prod.splits)
  obtain w where "rc_FreeWithUser env deploy ?cm (world (rs_engine s2)) = (None, w)"
    using f(1) by (auto simp: call_err_def call_def on_engine_def split: prod.splits option.splits sum.splits)
  with st t(3) p show ?thesis by blast
qed

text \<open>C19: the finalizer of a revision goes last. Handling a revision that is deleted or archived,
  whatever the outcome, an error included, sends nothing with the controller's client unless the
  engine has returned without an error that the teardown is complete and the cache of the revision
  has been freed. What it then sends is a single patch of the revision, and the finalizers in it are
  those of the revision without the teardown finalizer.\<close>

theorem finalizer_removed_after_teardown:
  assumes "removes_finalizers env"
    and "handleRevision cl va cenv env c deploy revisionCM s = (r, s')"
    and "cm_Deleting revisionCM \<or> data_get revisionCM cmStateKey = ''Archived''"
    and "rs_sent s' \<noteq> rs_sent s"
  shows "\<exists>accessor re rv siblings opts s1 t s2 w fs.
    toRevision env c (GetName deploy) revisionCM siblings = Val (rv, opts) \<and>
    boxcutter_NewRevisionEngine cl va cenv (ref_engine_options c accessor) = Val re \<and>
    RevisionEngine_Teardown re rv [] s1 = (Val (Some t, None), s2) \<and>
    revisionTeardownResult_IsComplete t \<and>
    rc_FreeWithUser env deploy (Object.truncate revisionCM) (world s2) = (None, w) \<and>
    rs_sent s' = rs_sent s @ [MergePatchCM ((Object.truncate revisionCM)\<lparr>GetFinalizers := fs\<rparr>)
       (finalizer_patch (Object.truncate revisionCM) fs)] \<and>
    fs = removeAll teardownFinalizer (GetFinalizers revisionCM)"
proof -
  obtain siblings opts accessor re rv s0 where
    rv: "toRevision env c (GetName deploy) revisionCM siblings = Val (rv, opts)"
    and re: "boxcutter_NewRevisionEngine cl va cenv (ref_engine_options c accessor) = Val re"
    and s0: "rs_sent s0 = rs_sent s" and run: "teardown_revision env c re deploy revisionCM rv s0 = (r, s')"
    by (rule handleRevision_teardown_sent [OF assms(2-4)])
  have fs: "rc_RemoveFinalizer env (Object.truncate revisionCM) teardownFinalizer =
      removeAll teardownFinalizer (GetFinalizers revisionCM)"
    using assms(1) by (simp add: removes_finalizers_def)
  from teardown_revision_sent [OF run] s0 assms(4) rv re show ?thesis unfolding fs by metis
qed

section \<open>Sample runs\<close>

text \<open>Revisions without phases, numbered from 1; the hash of every data is the same word.\<close>

definition sample_rev_cm :: "int \<Rightarrow> string list \<Rightarrow> (string \<times> string) list \<Rightarrow> ConfigMap" where
  "sample_rev_cm n finalizers extra =
    \<lparr>repr = Structured, GVK = emptyGVK, GetName = ''web-'' @ FormatInt n, GetNamespace = ''default'',
     GetGenerateName = [], GetUID = ''uid-'' @ FormatInt n, GetGeneration = 0, GetResourceVersion = ''1'',
     GetLabels = Some [typeLabel \<mapsto> ''Revision'', deploymentLabel \<mapsto> ''web''],
     GetAnnotations = Some [hashAnnotation \<mapsto> ''ab''], GetFinalizers = finalizers, GetOwnerReferences = [],
     GetManagedFields = [], content = JNull,
     cm_Data = Some ((cmRevisionNumberKey, FormatInt n) # extra), cm_Deleting = False\<rparr>"

definition sample_deployment :: ConfigMap where
  "sample_deployment = (sample_rev_cm 0 [] [])\<lparr>GetName := ''web'', cm_Data := Some []\<rparr>"

definition sample_ref_env :: "ConfigMap list \<Rightarrow> Object list ref_env" where
  "sample_ref_env items =
    \<lparr>rc_Get = (\<lambda>key w. (Inl NoMatchError, w)), rc_List = (\<lambda>labels w. (Inr items, w)),
     rc_serve = (\<lambda>req w. (None, w)),
     rc_GetWithUser = (\<lambda>ow user objs w. (Inr (Reader 0, Writer 0, Reader 0), w)),
     rc_FreeWithUser = (\<lambda>ow user w. (None, w)), rc_UnmarshalObject = (\<lambda>v. Inl (PlainError [])),
     rc_NestedString = (\<lambda>v path. None), rc_AddFinalizer = (\<lambda>obj f. GetFinalizers obj @ [f]),
     rc_RemoveFinalizer = (\<lambda>obj f. removeAll f (GetFinalizers obj)), rc_SHA256 = (\<lambda>bs. [0xAB]), rc_Spew = (\<lambda>d. []),
     rc_sort = sort_key rev_Revision\<rparr>"

definition sample_reconciler :: "string list Reconciler" where
  "sample_reconciler = NewReconciler (\<lambda>gv. Inr []) sample_mapper sample_api sample_scr"

definition sample_ref_state :: "Object list ref_state" where
  "sample_ref_state = \<lparr>rs_engine = sample_st [], rs_sent = []\<rparr>"

definition sample_rev :: "int \<Rightarrow> Object \<Rightarrow> Object list \<Rightarrow> revision" where
  "sample_rev n owner siblings = (NewRevision (''web-'' @ FormatInt n) n [])\<lparr>
     rev_ReconcileOptions := [RRPhase (PRObject (OwnerReconcile owner
        (Some (rc_ownerStrategy sample_reconciler)))), RRPhase (PRObject (WithSiblingOwners siblings))],
     rev_TeardownOptions := [RTPhase (PTObject (OwnerTeardown owner
        (Some (rc_ownerStrategy sample_reconciler))))]\<rparr>"

lemma sample_sorts: "sorts_revisions (sample_ref_env items)"
  by (simp add: sorts_revisions_iff sample_ref_env_def)

lemma sample_list_call: "call (rc_List (sample_ref_env items) labels) sample_ref_state = (Val items, sample_ref_state)"
  by (simp add: call_def on_engine_def sample_ref_env_def sample_ref_state_def)

lemma sample_toRevision_of:
  assumes "cm_Data cm = Some ((cmRevisionNumberKey, FormatInt n) # extra)" "GetUID cm \<noteq> []"
    and "GetName cm = ''web-'' @ FormatInt n" "in_int64 n" "n \<noteq> 0"
    and "extra = [] \<or> extra = [(cmStateKey, ''Archived'')]"
  shows "toRevision env sample_reconciler dn cm siblings =
    Val (sample_rev n (Object.truncate cm) siblings,
      [RRPhase (PRObject (WithProbe ProgressProbeType (Some (continue_probe env))))])"
proof -
  have data: "read_data env dn (GetNamespace cm) ((cmRevisionNumberKey, FormatInt n) # extra)
      \<lparr>rd_phaseNames = [], rd_revision = 0, rd_objects = (\<lambda>_. [])\<rparr> =
      Val \<lparr>rd_phaseNames = [], rd_revision = n, rd_objects = (\<lambda>_. [])\<rparr>"
    using assms(6) ParseInt_FormatInt [OF assms(4)] by (auto simp: read_entry_def ref_consts)
  have "data_get cm cmStateKey \<noteq> ''Paused''"
    using assms(6) by (auto simp: data_get_def assms(1) ref_consts)
  with data assms show ?thesis
    by (simp add: toRevision_def NewRevisionWithOwnerAndSiblings_def WithOwner_def sample_rev_def NewRevision_def
        revision_WithReconcileOptions_def revision_WithTeardownOptions_def Let_def)
qed

lemma sample_toRevision:
  assumes "in_int64 n" "n \<noteq> 0" "extra = [] \<or> extra = [(cmStateKey, ''Archived'')]"
  shows "toRevision env sample_reconciler dn (sample_rev_cm n fs extra) siblings =
    Val (sample_rev n (Object.truncate (sample_rev_cm n fs extra)) siblings,
      [RRPhase (PRObject (WithProbe ProgressProbeType (Some (continue_probe env))))])"
  by (rule sample_toRevision_of [OF _ _ _ assms]) (simp_all add: sample_rev_cm_def)

lemma sample_toRevisions:
  "(\<And>n. n \<in> set ns \<Longrightarrow> in_int64 n \<and> n \<noteq> 0) \<Longrightarrow>
    toRevisions env sample_reconciler dn (map (\<lambda>n. sample_rev_cm n [] []) ns) =
      Val (map (\<lambda>n. sample_rev n (Object.truncate (sample_rev_cm n [] [])) []) ns)"
  by (induction ns) (simp_all add: sample_toRevision)

lemma sample_rev_owner:
  "getOwnerFromRev (sample_rev n owner siblings) = Some owner" "rev_Revision (sample_rev n owner siblings) = n"
  "rev_Phases (sample_rev n owner siblings) = []"
  by (simp_all add: getOwnerFromRev_def sample_rev_def NewRevision_def RevisionReconcileOptions_GetOwner_def
      rr_defaults pr_defaults object_reconcile_options_def WithSiblingOwners_def)

lemma sample_client_send:
  "client_send (sample_ref_env items) req s = (Val (), s\<lparr>rs_sent := rs_sent s @ [req]\<rparr>)"
  by (simp add: client_send_def bind_def modify_def call_err_def call_def on_engine_def sample_ref_env_def)

lemma sample_digest: "EncodeToString [0xAB] = ''ab''"
  by code_simp

lemma sample_env_simps [simp]:
  "rc_Hash (sample_ref_env items) d = ''ab''" "rc_sort (sample_ref_env items) = sort_key rev_Revision"
  "rc_scheme sample_reconciler = sample_api" "rc_SetControllerReference sample_reconciler = sample_scr"
  by (simp_all add: sample_ref_env_def sample_reconciler_def NewReconciler_def rc_Hash_def ComputeSHA256Hash_def
      sample_digest)

theorem handleDeployment_creates_successor_witness:
  "\<exists>n s' rcm k. handleDeployment (sample_ref_env []) sample_reconciler sample_deployment sample_ref_state = (Val n, s') \<and>
    filter is_create (rs_sent s') = [CreateCM rcm] \<and> ParseInt (data_get rcm cmRevisionNumberKey) = Inr k \<and>
    map_get (GetLabels rcm) typeLabel = Some ''Revision''"
proof -
  let ?run = "handleDeployment (sample_ref_env []) sample_reconciler sample_deployment sample_ref_state"
  have data: "cm_Data sample_deployment = Some []" by (simp add: sample_deployment_def)
  have run: "?run = (Val 0, snd ?run)"
    by (simp add: handleDeployment_def wrap_err_def bind_def sample_list_call lift_def ret_def Let_def
        create_revision_def data sample_scr_def sample_client_send latestRevisionNumber_def new_revision_cm_def)
  from handleDeployment_creates_successor [OF sample_sorts run sample_list_call]
  have "\<exists>new. rs_sent (snd ?run) = rs_sent sample_ref_state @ new \<and> (\<exists>rcm k. filter is_create new = [CreateCM rcm] \<and>
       ParseInt (data_get rcm cmRevisionNumberKey) = Inr k \<and> map_get (GetLabels rcm) typeLabel = Some ''Revision'')"
    by (auto simp: up_to_date_def)
  with run show ?thesis by (metis append_self_conv2 ref_state.select_convs(2) sample_ref_state_def)
qed

definition sample_seven :: "ConfigMap list" where
  "sample_seven = map (\<lambda>n. sample_rev_cm n [] []) [1, 2, 3, 4, 5, 6, 7]"

definition sample_seven_revs :: "revision list" where
  "sample_seven_revs = map (\<lambda>n. sample_rev n (Object.truncate (sample_rev_cm n [] [])) []) [1, 2, 3, 4, 5, 6, 7]"

lemma sample_delete:
  "(\<And>r. r \<in> set rs \<Longrightarrow> getOwnerFromRev r \<noteq> None) \<Longrightarrow>
    \<exists>s'. delete_revisions (sample_ref_env items) sample_reconciler rs n s = (Val (), s')"
proof (induction rs arbitrary: n s)
  case (Cons r rs)
  then obtain ow where "getOwnerFromRev r = Some ow" by fastforce
  with Cons show ?case
    by (simp add: ret_def bind_def lift_def deref_def IgnoreNotFound_def attempt_def wrap_err_def sample_client_send)
qed (simp add: ret_def)

lemma sample_seven_simps [simp]:
  "sort_key rev_Revision sample_seven_revs = sample_seven_revs" "sample_seven_revs \<noteq> []"
  "length sample_seven_revs = 7"
  "last sample_seven_revs = sample_rev 7 (Object.truncate (sample_rev_cm 7 [] [])) []"
  by (rule sort_key_id_if_sorted) (simp_all add: sample_rev_owner sample_seven_revs_def)

text \<open>A revision with the greatest number and without a hash, so that the deployment is not up to date.\<close>

definition sample_last_cm :: ConfigMap where
  "sample_last_cm = (sample_rev_cm max_int64 [] [])\<lparr>GetAnnotations := None\<rparr>"

theorem revision_numbers_wrap_witness:
  "\<exists>n s' rcm. handleDeployment (sample_ref_env [sample_last_cm]) sample_reconciler sample_deployment sample_ref_state =
      (Val n, s') \<and> filter is_create (rs_sent s') = [CreateCM rcm] \<and>
    ParseInt (data_get rcm cmRevisionNumberKey) = Inr min_int64"
proof -
  let ?env = "sample_ref_env [sample_last_cm]"
  let ?run = "handleDeployment ?env sample_reconciler sample_deployment sample_ref_state"
  let ?rev = "sample_rev max_int64 (Object.truncate sample_last_cm) []"
  have data: "cm_Data sample_deployment = Some []" by (simp add: sample_deployment_def)
  have last: "cm_Data sample_last_cm = Some [(cmRevisionNumberKey, FormatInt max_int64)]"
    "GetUID sample_last_cm \<noteq> []" "GetName sample_last_cm = ''web-'' @ FormatInt max_int64"
    "in_int64 max_int64" "max_int64 \<noteq> 0"
    by (simp add: sample_last_cm_def sample_rev_cm_def)+ (simp_all add: int64_defs)
  have revs: "toRevisions ?env sample_reconciler (GetName sample_deployment) [sample_last_cm] = Val [?rev]"
    by (simp add: sample_toRevision_of [OF last])
  have cur: "is_current ?env sample_deployment ?rev = Val False"
    by (simp add: is_current_def sample_rev_owner deref_def sample_last_cm_def)
  then have stale: "\<not> up_to_date ?env sample_deployment (rc_sort ?env [?rev])"
    by (simp add: up_to_date_def)
  have latest: "max_int64 = latestRevisionNumber (rc_sort ?env [?rev])"
    by (simp add: latestRevisionNumber_def sample_rev_owner)
  have run: "?run = (Val 0, snd ?run)"
    using revs cur
    by (simp add: handleDeployment_def wrap_err_def bind_def sample_list_call lift_def ret_def Let_def
        create_revision_def data sample_scr_def sample_client_send new_revision_cm_def revisionHistoryLimit_def)
  from revision_numbers_wrap [OF sample_sorts run sample_list_call revs _ stale latest] run show ?thesis
    by (auto simp: sample_ref_state_def)
qed

theorem history_limit_deletes_newest_witness:
  "\<exists>n s' x. handleDeployment (sample_ref_env sample_seven) sample_reconciler sample_deployment sample_ref_state =
     (Val n, s') \<and> delete_cm_request x \<in> set (rs_sent s')"
proof -
  let ?env = "sample_ref_env sample_seven"
  let ?run = "handleDeployment ?env sample_reconciler sample_deployment sample_ref_state"
  have revs: "toRevisions ?env sample_reconciler (GetName sample_deployment) sample_seven = Val sample_seven_revs"
    unfolding sample_seven_def sample_seven_revs_def by (rule sample_toRevisions) (auto simp: int64_defs)
  have cur: "is_current ?env sample_deployment (sample_rev 7 (Object.truncate (sample_rev_cm 7 [] [])) []) = Val True"
    by (simp add: is_current_def sample_rev_owner deref_def sample_rev_cm_def)
  have owners: "getOwnerFromRev r \<noteq> None" if "r \<in> set (butlast sample_seven_revs)" for r
    using in_set_butlastD [OF that] by (auto simp: sample_seven_revs_def sample_rev_owner)
  obtain s' where "delete_revisions ?env sample_reconciler (rev (butlast sample_seven_revs)) 1 sample_ref_state = (Val (), s')"
    using sample_delete [of "rev (butlast sample_seven_revs)" sample_seven 1 sample_ref_state] owners by auto
  with revs cur have run: "?run = (Val 0, snd ?run)"
    by (simp add: handleDeployment_def wrap_err_def bind_def sample_list_call lift_def ret_def Let_def
        revisionHistoryLimit_def)
  have "up_to_date ?env sample_deployment (rc_sort ?env sample_seven_revs)"
    using cur by (simp add: up_to_date_def)
  from history_limit_deletes_newest [OF sample_sorts run sample_list_call revs this]
  obtain deleted where "rs_sent (snd ?run) = rs_sent sample_ref_state @ map delete_cm_request (rev deleted)"
    "deleted \<noteq> []" by auto
  then have "delete_cm_request (hd deleted) \<in> set (rs_sent (snd ?run))" by simp
  with run show ?thesis by metis
qed

theorem deployment_without_data_panics_witness:
  "is_panic (fst (handleDeployment (sample_ref_env []) sample_reconciler (sample_deployment\<lparr>cm_Data := None\<rparr>)
     sample_ref_state))"
  by (rule deployment_without_data_panics [OF sample_list_call]) simp_all

text \<open>A revision without phases is complete, and its teardown too.\<close>

lemma sample_ref_engine:
  "\<exists>oe. boxcutter_NewRevisionEngine sample_cluster sample_va sample_cmp_env
      (ref_engine_options sample_reconciler (Reader 0, Writer 0, Reader 0)) =
    Val (revisionEngine_of sample_cluster sample_api sample_va oe
      (NewNamespacedPhaseValidator sample_mapper (Writer 0)) (Writer 0))"
  by (simp add: boxcutter_NewRevisionEngine_def ref_engine_options_def validateRevisionEngineOpts_def
      ref_fieldOwner_def ref_systemPrefix_def wired_objectEngine_def deref_def Let_def revisionEngine_of_def
      phaseEngine_of_def sample_reconciler_def NewReconciler_def) blast

definition sample_done :: revisionResult where
  "sample_done = \<lparr>rr_phases = [], rr_phasesResults = [], rr_validationError = None\<rparr>"

lemma sample_no_phases:
  "RevisionEngine_Reconcile (revisionEngine_of cl api sample_va oe v w) (sample_rev n ow sib) opts st =
    (Val (sample_done, None), st)"
  "RevisionEngine_Teardown re (sample_rev n ow sib) [] st =
    (Val (Some \<lparr>rt_phases = [], rt_active = [], rt_waiting = [], rt_gone = []\<rparr>, None), st)"
  by (simp_all add: RevisionEngine_Reconcile_def RevisionEngine_Teardown_def RevisionValidator_Validate_def
      staticValidateMultiplePhases_def sample_rev_owner NewRevisionValidationError_def Let_def bind_def lift_def
      ret_def sample_done_def checkForObjectDuplicates_def dup_init_def)

definition sample_live :: ConfigMap where
  "sample_live = sample_rev_cm 2 [teardownFinalizer] []"

definition sample_archived :: ConfigMap where
  "sample_archived = sample_rev_cm 2 [teardownFinalizer] [(cmStateKey, ''Archived'')]"

lemma sample_getUID_neq: "GetUID (sample_rev_cm 1 fs e) \<noteq> GetUID (sample_rev_cm 2 fs' e')"
  using ParseInt_FormatInt [of 1] ParseInt_FormatInt [of 2] by (auto simp: sample_rev_cm_def int64_defs)

lemma sample_handle:
  assumes "cm = sample_rev_cm 2 fs extra" "extra = [] \<or> extra = [(cmStateKey, ''Archived'')]"
    and "older = sample_rev_cm 1 [] []"
  shows "\<exists>oe opts. handleRevision sample_cluster sample_va sample_cmp_env (sample_ref_env [older, cm])
      sample_reconciler (Object.truncate sample_deployment) cm sample_ref_state =
    (if cm_Deleting cm \<or> data_get cm cmStateKey = ''Archived''
     then teardown_revision (sample_ref_env [older, cm]) sample_reconciler
       (revisionEngine_of sample_cluster sample_api sample_va oe
         (NewNamespacedPhaseValidator sample_mapper (Writer 0)) (Writer 0))
       (Object.truncate sample_deployment) cm (sample_rev 2 (Object.truncate cm) [Object.truncate older])
     else reconcile_revision (sample_ref_env [older, cm]) sample_reconciler
       (revisionEngine_of sample_cluster sample_api sample_va oe
         (NewNamespacedPhaseValidator sample_mapper (Writer 0)) (Writer 0)) cm
       (sample_rev 2 (Object.truncate cm) [Object.truncate older]) opts [older]) sample_ref_state"
proof -
  let ?env = "sample_ref_env [older, cm]"
  obtain oe where engine: "boxcutter_NewRevisionEngine sample_cluster sample_va sample_cmp_env
      (ref_engine_options sample_reconciler (Reader 0, Writer 0, Reader 0)) =
    Val (revisionEngine_of sample_cluster sample_api sample_va oe
      (NewNamespacedPhaseValidator sample_mapper (Writer 0)) (Writer 0))"
    using sample_ref_engine by blast
  have sib: "filter (\<lambda>x. GetUID x \<noteq> GetUID cm) [older, cm] = [older]"
    using sample_getUID_neq assms(1,3) by simp
  let ?opts = "[RRPhase (PRObject (WithProbe ProgressProbeType (Some (continue_probe ?env))))]"
  have rv: "toRevision ?env sample_reconciler (GetName (Object.truncate sample_deployment)) cm
      (map Object.truncate (filter (\<lambda>x. GetUID x \<noteq> GetUID cm) [older, cm])) =
      Val (sample_rev 2 (Object.truncate cm) [Object.truncate older], ?opts)"
    unfolding sib using sample_toRevision [of 2 extra] assms by (simp add: int64_defs)
  have user: "call (rc_GetWithUser ?env d u objs) sample_ref_state = (Val (Reader 0, Writer 0, Reader 0), sample_ref_state)"
    for d u objs
    by (simp add: call_def on_engine_def sample_ref_env_def sample_ref_state_def)
  show ?thesis
    using rv engine sib
    by (intro exI [of _ oe] exI [of _ ?opts])
      (simp add: handleRevision_def bind_def wrap_err_def sample_list_call lift_def user Let_def del: filter.simps)
qed

theorem revision_archives_superseded_witness:
  "\<exists>n s'. handleRevision sample_cluster sample_va sample_cmp_env
      (sample_ref_env [sample_rev_cm 1 [] [], sample_live]) sample_reconciler (Object.truncate sample_deployment)
      sample_live sample_ref_state = (Val n, s') \<and> length (rs_sent s') \<le> 1"
proof -
  let ?run = "handleRevision sample_cluster sample_va sample_cmp_env
    (sample_ref_env [sample_rev_cm 1 [] [], sample_live]) sample_reconciler (Object.truncate sample_deployment)
    sample_live sample_ref_state"
  have live: "\<not> cm_Deleting sample_live" "data_get sample_live cmStateKey \<noteq> ''Archived''"
    "ContainsFinalizer (rc_scheme sample_reconciler) (Object.truncate sample_live) teardownFinalizer"
    "GetUID sample_live = GetUID (sample_rev_cm 2 [] [])"
    by (simp_all add: sample_live_def sample_rev_cm_def data_get_def ref_consts)
  have arch: "\<exists>s'. archive_siblings (sample_ref_env items) k ss s = (Val (), s')" for items k ss s
    by (induction ss arbitrary: s) (auto simp: ret_def bind_def wrap_err_def sample_client_send split: sum.splits)
  obtain re opts where eq: "?run = reconcile_revision (sample_ref_env [sample_rev_cm 1 [] [], sample_live])
      sample_reconciler re sample_live (sample_rev 2 (Object.truncate sample_live)
        [Object.truncate (sample_rev_cm 1 [] [])]) opts [sample_rev_cm 1 [] []] sample_ref_state"
    and re: "\<And>n ow sib opts st. RevisionEngine_Reconcile re (sample_rev n ow sib) opts st = (Val (sample_done, None), st)"
    using sample_handle [OF sample_live_def _ refl] live sample_no_phases(1) by fastforce
  obtain s1 where s1: "archive_siblings (sample_ref_env [sample_rev_cm 1 [] [], sample_live]) 2 [sample_rev_cm 1 [] []]
      sample_ref_state = (Val (), s1)" using arch by blast
  have run: "?run = (Val 0, s1)"
    unfolding eq using live(3) s1
    by (simp add: reconcile_revision_def ensureFinalizer_def bind_def ret_def on_engine_def re sample_done_def
        revisionResult_IsComplete_def sample_rev_owner)
  from revision_archives_superseded [OF run live(1-3)]
  obtain items and rv :: revision and rres :: revisionResult where it: "fst (call (rc_List (sample_ref_env [sample_rev_cm 1 [] [], sample_live])
      [(typeLabel, ''Revision''), (deploymentLabel, GetName (Object.truncate sample_deployment))]) sample_ref_state) =
      Val items"
    and sent: "rs_sent s1 = rs_sent sample_ref_state @
      (if rr_validationError rres = None \<and> list_all (\<lambda>p. pr_validationError p = None) (rr_phasesResults rres) \<and>
          revisionResult_IsComplete rres
       then map archive_request (filter (\<lambda>x. GetUID x \<noteq> GetUID sample_live \<and> superseded (rev_Revision rv) x) items)
       else [])" by (elim exE conjE) (rule that)
  from it have "items = [sample_rev_cm 1 [] [], sample_live]" by (simp add: sample_list_call)
  with run sent show ?thesis by (auto simp: sample_ref_state_def)
qed

theorem finalizer_removed_after_teardown_witness:
  "\<exists>n s' fs. handleRevision sample_cluster sample_va sample_cmp_env
      (sample_ref_env [sample_rev_cm 1 [] [], sample_archived]) sample_reconciler (Object.truncate sample_deployment)
      sample_archived sample_ref_state = (Val n, s') \<and>
    rs_sent s' = [MergePatchCM ((Object.truncate sample_archived)\<lparr>GetFinalizers := fs\<rparr>)
       (finalizer_patch (Object.truncate sample_archived) fs)] \<and> fs = []"
proof -
  let ?run = "handleRevision sample_cluster sample_va sample_cmp_env
    (sample_ref_env [sample_rev_cm 1 [] [], sample_archived]) sample_reconciler (Object.truncate sample_deployment)
    sample_archived sample_ref_state"
  have ar: "cm_Deleting sample_archived \<or> data_get sample_archived cmStateKey = ''Archived''"
    "ContainsFinalizer (rc_scheme sample_reconciler) (Object.truncate sample_archived) teardownFinalizer"
    by (simp_all add: sample_archived_def sample_rev_cm_def data_get_def ref_consts)
  have free: "call_err (rc_FreeWithUser (sample_ref_env items) d u) s = (Val (), s)" for items d u s
    by (simp add: call_err_def call_def on_engine_def sample_ref_env_def)
  obtain re :: "Object list RevisionEngine" where eq: "?run =
      teardown_revision (sample_ref_env [sample_rev_cm 1 [] [], sample_archived]) sample_reconciler re
        (Object.truncate sample_deployment) sample_archived (sample_rev 2 (Object.truncate sample_archived)
          [Object.truncate (sample_rev_cm 1 [] [])]) sample_ref_state"
    using sample_handle [OF sample_archived_def _ refl] ar by fastforce
  have run: "?run = (Val 0, snd ?run)" and sent: "rs_sent (snd ?run) \<noteq> rs_sent sample_ref_state"
    unfolding eq using ar(2)
    by (simp_all add: teardown_revision_def removeFinalizer_def bind_def ret_def on_engine_def sample_no_phases
        lift_def deref_def revisionTeardownResult_IsComplete_def wrap_err_def free sample_client_send Let_def)
  have rf: "removes_finalizers (sample_ref_env items)" for items
    by (simp add: removes_finalizers_def sample_ref_env_def)
  have "GetFinalizers sample_archived = [teardownFinalizer]"
    by (simp add: sample_archived_def sample_rev_cm_def)
  with finalizer_removed_after_teardown [OF rf run ar(1) sent] run show ?thesis
    by (auto simp: sample_ref_state_def)
qed

end
