(* ===== verification/Report.thy ===== *)
theory Report
  imports RevisionEngine "HOL-Library.Sublist"
begin

text \<open>
  The texts the library renders: the \<open>Error\<close> and \<open>String\<close> methods of \<open>validation/\<close>, \<open>machinery/errors.go\<close>,
  \<open>machinery/results.go\<close>, \<open>machinery/phases.go\<close>, \<open>machinery/revision.go\<close>, \<open>machinery/comparator.go\<close> and
  \<open>machinery/types/types.go\<close>. A buffer that is printed to is the concatenation of what is printed.
  Parameters (\<open>report_env\<close>): the texts of errors and values of other packages and of errors that
  \<open>fmt.Errorf\<close> wraps, the YAML encoding, and the
  leaves of a field set.
\<close>

section \<open>Texts of the Go library\<close>

abbreviation newline :: string where "newline \<equiv> [CHR 0x0A]"

definition format_t :: "bool \<Rightarrow> string" where
  "format_t b = (if b then ''true'' else ''false'')"

text \<open>\<open>strings.ReplaceAll(s, "\n", "\n  ")\<close>.\<close>

definition indent_lines :: "string \<Rightarrow> string" where
  "indent_lines s = concat (map (\<lambda>c. if c = CHR 0x0A then newline @ ''  '' else [c]) s)"

text \<open>The UTF-8 encodings of the characters that are white space, and \<open>strings.TrimSpace\<close>.\<close>

definition white_space :: "string list" where
  "white_space =
    map (\<lambda>n. [char_of n]) [9, 10, 11, 12, 13, 32 :: nat] @
    map (map char_of) ([[0xC2, 0x85], [0xC2, 0xA0], [0xE1, 0x9A, 0x80]] @
      map (\<lambda>n. [0xE2, 0x80, n]) ([0x80 ..< 0x8B] @ [0xA8, 0xA9, 0xAF]) @
      [[0xE2, 0x81, 0x9F], [0xE3, 0x80, 0x80 :: nat]])"

fun strip_prefix :: "string list \<Rightarrow> string \<Rightarrow> string option" where
  "strip_prefix [] s = None"
| "strip_prefix (w # ws) s =
    (if w \<noteq> [] \<and> take (length w) s = w then Some (drop (length w) s) else strip_prefix ws s)"

lemma strip_prefix_shorter: "strip_prefix ws s = Some t \<Longrightarrow> length t < length s"
proof (induction ws)
  case (Cons w ws)
  then show ?case by (cases s) (auto split: if_splits)
qed simp

function trim_left :: "string list \<Rightarrow> string \<Rightarrow> string" where
  "trim_left ws s = (case strip_prefix ws s of None \<Rightarrow> s | Some t \<Rightarrow> trim_left ws t)"
  by pat_completeness auto
termination
  by (relation "measure (\<lambda>(ws, s). length s)") (auto dest: strip_prefix_shorter)

declare trim_left.simps [simp del]

definition TrimSpace :: "string \<Rightarrow> string" where
  "TrimSpace s = rev (trim_left (map rev white_space) (rev (trim_left white_space s)))"

section \<open>Errors\<close>

record report_env =
  errText :: "go_error \<Rightarrow> string"
  objectText :: "Object \<Rightarrow> string"
  reprText :: "object_repr \<Rightarrow> string"
  GVKText :: "GroupVersionKind \<Rightarrow> string"
  KeyText :: "ObjectKey \<Rightarrow> string"
  OwnerReferenceText :: "OwnerReference option \<Rightarrow> string"
  YAML :: "json \<Rightarrow> string"
  LeavesOf :: "fieldset \<Rightarrow> fieldset"
  clientScheme :: apimachinery

definition ObjectRef_String :: "report_env \<Rightarrow> ObjectRef \<Rightarrow> string" where
  "ObjectRef_String env oid = GVKText env (ref_GVK oid) @ '' '' @ KeyText env (ref_Key oid)"

fun Error :: "report_env \<Rightarrow> go_error \<Rightarrow> string"
  and ObjectValidationError_Error :: "report_env \<Rightarrow> ObjectValidationError \<Rightarrow> string"
  and PhaseValidationError_Error :: "report_env \<Rightarrow> PhaseValidationError \<Rightarrow> string"
  and RevisionValidationError_Error :: "report_env \<Rightarrow> RevisionValidationError \<Rightarrow> string" where
  "Error env (RevisionEngineOptionsError msg) = msg"
| "Error env (CreateCollisionError obj err) = objectText env obj @ '': '' @ Error env err"
| "Error env (UnsupportedApplyConfigurationError r) =
    ''does not support ApplyConfiguration: '' @ reprText env r"
| "Error env (PhaseNameInvalidError n msgs) = ''phase name invalid: '' @ Join msgs '', ''"
| "Error env (PhaseObjectDuplicationError ns) = ''duplicate object found in phases: '' @ Join ns '', ''"
| "Error env MustBeNamespaceScopedResourceError = ''object must be namespace-scoped''"
| "Error env (MustBeInNamespaceError expected actual) =
    ''object must be in namespace '' @ Quote expected @ '', actual '' @ Quote actual"
| "Error env (DryRunValidationError err) = Error env err"
| "Error env (ErrObjectValidation e) = ObjectValidationError_Error env e"
| "Error env (PtrObjectValidation e) = ObjectValidationError_Error env e"
| "Error env (ErrPhaseValidation e) = PhaseValidationError_Error env e"
| "Error env (PtrPhaseValidation e) = PhaseValidationError_Error env e"
| "Error env (PtrRevisionValidation e) = RevisionValidationError_Error env e"
| "Error env err = errText env err"
| "ObjectValidationError_Error env (ObjectValidationError ref errs) =
    ObjectRef_String env ref @ '': '' @ Join (map (Error env) errs) '', ''"
| "PhaseValidationError_Error env (PhaseValidationError name perr objs) =
    (let msg = ''phase '' @ Quote name @ '': '' @ (case perr of None \<Rightarrow> [] | Some e \<Rightarrow> Error env e);
         objmsgs = map (ObjectValidationError_Error env) objs
     in if objs \<noteq> [] then msg @ (if perr \<noteq> None then '', '' else []) @ Join objmsgs '', '' else msg)"
| "RevisionValidationError_Error env (RevisionValidationError name n phases) =
    ''revision '' @ Quote name @ '' ('' @ FormatInt n @ ''): '' @
      Join (map (PhaseValidationError_Error env) phases) '', ''"


text \<open>The structure of an error as nested maps, and its YAML report.\<close>

fun ObjectValidationError_stringStructure :: "report_env \<Rightarrow> ObjectValidationError \<Rightarrow> json" where
  "ObjectValidationError_stringStructure env (ObjectValidationError ref errs) =
    JMap [(ObjectRef_String env ref, JList (map (\<lambda>e. JString (Error env e)) errs))]"

fun PhaseValidationError_stringStructure :: "report_env \<Rightarrow> PhaseValidationError \<Rightarrow> json" where
  "PhaseValidationError_stringStructure env (PhaseValidationError name perr objs) =
    JMap [(name, JList ((case perr of None \<Rightarrow> [] | Some e \<Rightarrow> [JString (Error env e)]) @
                        map (ObjectValidationError_stringStructure env) objs))]"

fun RevisionValidationError_stringStructure :: "report_env \<Rightarrow> RevisionValidationError \<Rightarrow> json" where
  "RevisionValidationError_stringStructure env (RevisionValidationError name n phases) =
    JMap [(name @ '' ('' @ FormatInt n @ '')'',
           JList (map (PhaseValidationError_stringStructure env) phases))]"

definition ObjectValidationError_String :: "report_env \<Rightarrow> ObjectValidationError \<Rightarrow> string" where
  "ObjectValidationError_String env e = YAML env (ObjectValidationError_stringStructure env e)"

definition PhaseValidationError_String :: "report_env \<Rightarrow> PhaseValidationError \<Rightarrow> string" where
  "PhaseValidationError_String env e = YAML env (PhaseValidationError_stringStructure env e)"

definition RevisionValidationError_String :: "report_env \<Rightarrow> RevisionValidationError \<Rightarrow> string" where
  "RevisionValidationError_String env e = YAML env (RevisionValidationError_stringStructure env e)"

section \<open>Results of objects\<close>

definition item :: "string \<Rightarrow> string" where
  "item s = ''- '' @ s @ newline"

definition path_lines :: "fieldset \<Rightarrow> string" where
  "path_lines fs = concat (map (\<lambda>p. ''  '' @ p @ newline) fs)"

definition manager_lines :: "CompareResultManagedFields list \<Rightarrow> string" where
  "manager_lines cs = concat (map (\<lambda>c. item (Quote (Manager c)) @ path_lines (Fields c)) cs)"

text \<open>One of the three sections of a comparison: its title and the leaves of its fields.\<close>

definition section_lines :: "report_env \<Rightarrow> string \<Rightarrow> fieldset \<Rightarrow> string" where
  "section_lines env title fs =
    (if fs \<noteq> [] then item (title @ '':'') @ path_lines (LeavesOf env fs) else [])"

definition CompareResult_String :: "report_env \<Rightarrow> CompareResult \<Rightarrow> string" where
  "CompareResult_String env d =
    (if ConflictingMangers d \<noteq> [] then ''Conflicts:'' @ newline else []) @
    manager_lines (ConflictingMangers d) @
    (if OtherManagers d \<noteq> [] then ''Other:'' @ newline else []) @
    manager_lines (OtherManagers d) @
    (case Comparison d of
       None \<Rightarrow> []
     | Some c \<Rightarrow>
         (if Added c \<noteq> [] \<or> ModifiedFields c \<noteq> [] \<or> Removed c \<noteq> [] then ''Comparison:'' @ newline else []) @
         section_lines env ''Added'' (Added c) @ section_lines env ''Modified'' (ModifiedFields c) @
         section_lines env ''Removed'' (Removed c))"

text \<open>The body of the loop over the probe types. \<open>probes[probeType]\<close> of a missing key has no status and
  no messages.\<close>

definition probe_lines :: "ProbeResultContainer \<Rightarrow> string \<Rightarrow> string" where
  "probe_lines probes probeType =
    (case map_of probes probeType of
       None \<Rightarrow> []
     | Some probeRes \<Rightarrow>
         (if Status probeRes = ProbeStatusTrue then item (probeType @ '': Succeeded'')
          else if Status probeRes = ProbeStatusFalse then item (probeType @ '': Failed'')
          else if Status probeRes = ProbeStatusUnknown then item (probeType @ '': Unknown'')
          else []) @
         concat (map (\<lambda>m. ''  '' @ item m) (Messages probeRes)))"

definition reportStart :: "report_env \<Rightarrow> ObjectResult \<Rightarrow> string go" where
  "reportStart env r =
    (case ensureGVKIsSet (clientScheme env) (result_Object r) of
       Val obj \<Rightarrow>
         (let actionStr = (if result_IsPaused r then ''Action (PAUSED)'' else ''Action'');
              probes = result_ProbeResults r;
              probeTypes = sort_strings (map fst probes)
          in Val (''Object '' @ Kind (GVK obj) @ ''.'' @ GroupVersionString (clientScheme env) (GVK obj) @ '' '' @
                    GetNamespace obj @ ''/'' @ GetName obj @ newline @
                  actionStr @ '': '' @ Quote (result_Action r) @ newline @
                  (if probeTypes \<noteq> [] then ''Probes:'' @ newline else []) @
                  concat (map (probe_lines probes) probeTypes)))
     | Fail err \<Rightarrow> Panics (Error env err)
     | Panics p \<Rightarrow> Panics p)"

fun ObjectResult_String :: "report_env \<Rightarrow> ObjectResult \<Rightarrow> string go" where
  "ObjectResult_String env (ObjectResultCreated obj pr opts) =
    reportStart env (ObjectResultCreated obj pr opts)"
| "ObjectResult_String env (ObjectResultCollision n owner) =
    obind (reportStart env (ObjectResultCollision n owner)) (\<lambda>msg.
      Val (msg @ CompareResult_String env (nr_compareResult n) @
           ''Conflicting Owner: '' @ OwnerReferenceText env owner @ newline))"
| "ObjectResult_String env (ObjectResultUpdated n) =
    obind (reportStart env (ObjectResultUpdated n)) (\<lambda>msg. Val (msg @ CompareResult_String env (nr_compareResult n)))"
| "ObjectResult_String env (ObjectResultProgressed n) =
    obind (reportStart env (ObjectResultProgressed n)) (\<lambda>msg. Val (msg @ CompareResult_String env (nr_compareResult n)))"
| "ObjectResult_String env (ObjectResultIdle n) =
    obind (reportStart env (ObjectResultIdle n)) (\<lambda>msg. Val (msg @ CompareResult_String env (nr_compareResult n)))"
| "ObjectResult_String env (ObjectResultRecovered n) =
    obind (reportStart env (ObjectResultRecovered n)) (\<lambda>msg. Val (msg @ CompareResult_String env (nr_compareResult n)))"

section \<open>Results of phases and revisions\<close>

fun omap :: "('a \<Rightarrow> 'b go) \<Rightarrow> 'a list \<Rightarrow> 'b list go" where
  "omap f [] = Val []"
| "omap f (x # xs) = obind (f x) (\<lambda>y. obind (omap f xs) (\<lambda>ys. Val (y # ys)))"

definition validation_lines :: "report_env \<Rightarrow> go_error list \<Rightarrow> string" where
  "validation_lines env errs =
    ''Validation Errors:'' @ newline @ concat (map (\<lambda>e. item (Error env e)) errs)"

definition phaseResult_String :: "report_env \<Rightarrow> phaseResult \<Rightarrow> string go" where
  "phaseResult_String env r =
    obind (omap (ObjectResult_String env) (pr_objects r)) (\<lambda>objects.
      Val (''Phase '' @ Quote (pr_name r) @ newline @
           ''Complete: '' @ format_t (phaseResult_IsComplete r) @ newline @
           ''In Transition: '' @ format_t (phaseResult_InTransition r) @ newline @
           (case pr_validationError r of
              None \<Rightarrow> [] | Some err \<Rightarrow> validation_lines env (PhaseValidationError_Unwrap err)) @
           ''Objects:'' @ newline @
           concat (map (\<lambda>s. item (indent_lines (TrimSpace s))) objects)))"

definition pending_line :: "string \<Rightarrow> string" where
  "pending_line p = item (''Phase '' @ Quote p @ '' (Pending)'')"

definition revisionResult_String :: "report_env \<Rightarrow> revisionResult \<Rightarrow> string go" where
  "revisionResult_String env r =
    obind (omap (phaseResult_String env) (rr_phasesResults r)) (\<lambda>phases.
      let phasesWithResults = map pr_name (rr_phasesResults r)
      in Val (''Revision'' @ newline @
              ''Complete: '' @ format_t (revisionResult_IsComplete r) @ newline @
              ''In Transition: '' @ format_t (revisionResult_InTransition r) @ newline @
              (case rr_validationError r of
                 None \<Rightarrow> [] | Some err \<Rightarrow> validation_lines env (RevisionValidationError_Unwrap err)) @
              ''Phases:'' @ newline @
              concat (map (\<lambda>s. item (TrimSpace (indent_lines s))) phases) @
              concat (map pending_line (filter (\<lambda>p. p \<notin> set phasesWithResults) (rr_phases r)))))"

definition list_lines :: "string \<Rightarrow> string list \<Rightarrow> string" where
  "list_lines title xs = (if xs \<noteq> [] then title @ newline @ concat (map item xs) else [])"

definition phaseTeardownResult_String :: "report_env \<Rightarrow> phaseTeardownResult \<Rightarrow> string" where
  "phaseTeardownResult_String env r =
    ''Phase '' @ Quote (ptr_name r) @ newline @
    list_lines ''Gone Objects:'' (map (ObjectRef_String env) (ptr_gone r)) @
    list_lines ''Waiting Objects:'' (map (ObjectRef_String env) (ptr_waiting r))"

definition revisionTeardownResult_String :: "report_env \<Rightarrow> revisionTeardownResult \<Rightarrow> string" where
  "revisionTeardownResult_String env r =
    ''Revision Teardown'' @ newline @
    (if rt_active r \<noteq> [] then ''Active: '' @ rt_active r @ newline else []) @
    list_lines ''Waiting Phases:'' (rt_waiting r) @
    list_lines ''Gone Phases:'' (rt_gone r) @
    ''Phases:'' @ newline @
    concat (map (\<lambda>p. item (TrimSpace (indent_lines (phaseTeardownResult_String env p)))) (rt_phases r))"

section \<open>Reports are deterministic\<close>

lemma sort_strings_perm:
  assumes "mset xs = mset ys"
  shows "sort_strings xs = sort_strings ys"
proof -
  have "fold insert_member (rev (map (\<lambda>x. (x, ())) xs)) = fold insert_member (rev (map (\<lambda>x. (x, ())) ys))"
    by (rule fold_multiset_equiv)
      (auto simp: assms fun_eq_iff comp_def intro!: insert_member_commute)
  then show ?thesis by (simp add: sort_strings_def sort_by_key_def foldr_conv_fold)
qed

lemma probe_lines_cong: "map_of probes = map_of probes' \<Longrightarrow> probe_lines probes = probe_lines probes'"
  by (simp add: probe_lines_def fun_eq_iff)

lemma map_of_same_set:
  assumes "distinct (map fst xs)" "distinct (map fst ys)" "set xs = set ys"
  shows "map_of xs = map_of ys"
  using assms by (metis map_of_eqI map_of_eq_Some_iff set_map weak_map_of_SomeI option.exhaust ext)

text \<open>The result with its probe results in another order of iteration.\<close>

fun with_probes :: "ObjectResult \<Rightarrow> ProbeResultContainer \<Rightarrow> ObjectResult" where
  "with_probes (ObjectResultCreated obj pr opts) ps = ObjectResultCreated obj ps opts"
| "with_probes (ObjectResultUpdated n) ps = ObjectResultUpdated (n\<lparr>nr_probeResults := ps\<rparr>)"
| "with_probes (ObjectResultProgressed n) ps = ObjectResultProgressed (n\<lparr>nr_probeResults := ps\<rparr>)"
| "with_probes (ObjectResultIdle n) ps = ObjectResultIdle (n\<lparr>nr_probeResults := ps\<rparr>)"
| "with_probes (ObjectResultRecovered n) ps = ObjectResultRecovered (n\<lparr>nr_probeResults := ps\<rparr>)"
| "with_probes (ObjectResultCollision n ref) ps = ObjectResultCollision (n\<lparr>nr_probeResults := ps\<rparr>) ref"

lemma with_probes_simps [simp]:
  "result_Object (with_probes r ps) = result_Object r" "result_Action (with_probes r ps) = result_Action r"
  "result_options (with_probes r ps) = result_options r" "result_ProbeResults (with_probes r ps) = ps"
  by (cases r; simp)+

lemma reportStart_with_probes:
  assumes "distinct (map fst (result_ProbeResults r))" "distinct (map fst ps)"
    and "set ps = set (result_ProbeResults r)"
  shows "reportStart env (with_probes r ps) = reportStart env r"
proof -
  have "mset (map fst ps) = mset (map fst (result_ProbeResults r))"
    using assms by (metis distinct_map mset_map set_eq_iff_mset_eq_distinct)
  then have "sort_strings (map fst ps) = sort_strings (map fst (result_ProbeResults r))"
    by (rule sort_strings_perm)
  moreover have "probe_lines ps = probe_lines (result_ProbeResults r)"
    using assms by (intro probe_lines_cong map_of_same_set) auto
  ultimately show ?thesis
    by (cases "ensureGVKIsSet (clientScheme env) (result_Object r)")
      (simp_all add: reportStart_def result_IsPaused_def Let_def)
qed

text \<open>The report of an object does not depend on the order in which Go iterates over the map of
  its probe results: the same results under the same probe types give the same text, or the same
  panic.\<close>

theorem ObjectResult_String_deterministic:
  assumes "distinct (map fst (result_ProbeResults r))" "distinct (map fst ps)"
    and "set ps = set (result_ProbeResults r)"
  shows "ObjectResult_String env (with_probes r ps) = ObjectResult_String env r"
  using reportStart_with_probes [OF assms, of env] by (cases r) auto

definition sample_report_env :: report_env where
  "sample_report_env = \<lparr>errText = (\<lambda>_. ''error''), objectText = GetName, reprText = (\<lambda>_. ''object''),
     GVKText = Kind, KeyText = Name, OwnerReferenceText = (\<lambda>_. ''nil''), YAML = json_print, LeavesOf = id,
     clientScheme = sample_api\<rparr>"

definition sample_probed :: "string list \<Rightarrow> ObjectResult" where
  "sample_probed ts = ObjectResultCreated sample_object (map (\<lambda>t. (t, TrueResult [])) ts)
     zero_ObjectReconcileOptions"

theorem ObjectResult_String_deterministic_witness:
  "ObjectResult_String sample_report_env (sample_probed [''Progress'', ''Ready'']) =
   ObjectResult_String sample_report_env (sample_probed [''Ready'', ''Progress''])"
  using ObjectResult_String_deterministic [of "sample_probed [''Ready'', ''Progress'']"
      "map (\<lambda>t. (t, TrueResult [])) [''Progress'', ''Ready'']" sample_report_env]
  by (auto simp: sample_probed_def)

section \<open>Validation messages\<close>

lemma sublist_Join: "x \<in> set xs \<Longrightarrow> sublist x (Join xs sep)"
proof (induction xs sep rule: Join.induct)
  case (3 x' y ys sep)
  then show ?case
    by (auto intro: sublist_order.order_trans [OF _ sublist_append_leftI] sublist_append_leftI sublist_append_rightI)
qed auto

lemma sublist_left: "sublist x y \<Longrightarrow> sublist x (y @ z)"
  by (erule sublist_order.order_trans) simp

lemma sublist_right: "sublist x z \<Longrightarrow> sublist x (y @ z)"
  by (erule sublist_order.order_trans) simp

lemmas sublist_parts = sublist_left sublist_right sublist_order.order_refl

definition metadata_errors :: "phase \<Rightarrow> ObjectValidationError list" where
  "metadata_errors p = concat (map (\<lambda>obj. if validateObjectMetadata obj = [] then []
     else [ObjectValidationError (ToObjectRef obj) (validateObjectMetadata obj)]) (ph_Objects p))"

lemma static_phase_errors_mem:
  assumes "static_phase_errors va dups phases = Val vs" "p \<in> set phases"
    and "validatePhaseName va p \<noteq> None \<or> metadata_errors p @ dups_of_phase (ph_Name p) dups \<noteq> []"
  shows "PhaseValidationError (ph_Name p) (validatePhaseName va p)
    (metadata_errors p @ dups_of_phase (ph_Name p) dups) \<in> set vs"
  using assms(1,2)
proof (induction phases arbitrary: vs)
  case (Cons q phases)
  obtain ws where ws: "static_phase_errors va dups phases = Val ws"
    using static_phase_errors_total by blast
  have md: "static_metadata_errors (ph_Objects q) = Val (metadata_errors q)"
    by (simp add: static_metadata_errors_Val metadata_errors_def)
  show ?case
    using Cons ws md assms(3)
    by (cases "p = q") (auto simp: NewPhaseValidationError_def split: if_splits)
qed simp

lemma phase_message_phase:
  "sublist (''phase '' @ Quote n @ '': '' @ Error env e)
     (PhaseValidationError_Error env (PhaseValidationError n (Some e) objs))"
  by (auto simp: Let_def intro: sublist_left)

lemma phase_message_object:
  assumes "oe \<in> set objs"
  shows "sublist (ObjectValidationError_Error env oe) (PhaseValidationError_Error env (PhaseValidationError n pe objs))"
proof -
  from assms have "sublist (ObjectValidationError_Error env oe) (Join (map (ObjectValidationError_Error env) objs) '', '')"
    by (intro sublist_Join) simp
  moreover from assms have "objs \<noteq> []" by auto
  ultimately show ?thesis by (simp add: Let_def sublist_right del: append_Cons)
qed

lemma duplicate_of_object:
  assumes "count_list (map fst (occurrences phases)) ref \<ge> 2"
  shows "\<exists>names. ObjectValidationError ref [PhaseObjectDuplicationError (sort_strings names)]
      \<in> set (checkForObjectDuplicates phases) \<and> set names = {n. (ref, n) \<in> set (occurrences phases)}"
proof -
  have two: "length (phases_of (occurrences phases) ref) \<ge> 2" using assms by (simp add: phases_of_length)
  then obtain names where names: "map_of (conflicts (fold dup_phase phases dup_init)) ref = Some names"
    using duplicates_complete by blast
  with duplicates_names [OF names] show ?thesis
    by (intro exI [of _ names]) (force simp: duplicates_reported phases_of_def)
qed

lemma object_message:
  "sublist (ObjectRef_String env ref) (ObjectValidationError_Error env (ObjectValidationError ref errs))"
  "e \<in> set errs \<Longrightarrow> sublist (Error env e) (ObjectValidationError_Error env (ObjectValidationError ref errs))"
proof -
  assume "e \<in> set errs"
  then have "sublist (Error env e) (Join (map (Error env) errs) '', '')" by (intro sublist_Join) simp
  then show "sublist (Error env e) (ObjectValidationError_Error env (ObjectValidationError ref errs))"
    by (simp only: ObjectValidationError_Error.simps) (intro sublist_right)
qed (simp only: ObjectValidationError_Error.simps, rule sublist_append_rightI)

lemma revision_message:
  assumes "RevisionValidator_Validate va rv = Val (Some err)" "p \<in> set (rev_Phases rv)"
    and "validatePhaseName va p \<noteq> None \<or>
      metadata_errors p @ dups_of_phase (ph_Name p) (checkForObjectDuplicates (rev_Phases rv)) \<noteq> []"
  shows "sublist (PhaseValidationError_Error env (PhaseValidationError (ph_Name p) (validatePhaseName va p)
      (metadata_errors p @ dups_of_phase (ph_Name p) (checkForObjectDuplicates (rev_Phases rv)))))
    (Error env err)"
proof -
  obtain vs where vs: "static_phase_errors va (checkForObjectDuplicates (rev_Phases rv)) (rev_Phases rv) = Val vs"
    using static_phase_errors_total by blast
  with assms(1) have err: "err = PtrRevisionValidation (RevisionValidationError (rev_Name rv) (rev_Revision rv) vs)"
    by (auto simp: RevisionValidator_Validate_def staticValidateMultiplePhases_def NewRevisionValidationError_def
        split: if_splits)
  show ?thesis
    unfolding err Error.simps RevisionValidationError_Error.simps
    using static_phase_errors_mem [OF vs assms(2,3)] by (intro sublist_right sublist_Join) (simp only: set_map imageI)
qed

text \<open>C28: no finding of the revision validator is lost in its message. When a revision is refused, the
  text of the error names every phase with an invalid name together with the reason, every object
  with forbidden or missing metadata together with each reason, and every object that occurs
  twice together with the phases it occurs in.\<close>

theorem validation_message_complete:
  assumes err: "RevisionValidator_Validate va rv = Val (Some err)" and p: "p \<in> set (rev_Phases rv)"
  shows "(\<forall>e. validatePhaseName va p = Some e \<longrightarrow>
      sublist (''phase '' @ Quote (ph_Name p) @ '': '' @ Error env e) (Error env err)) \<and>
    (\<forall>obj\<in>set (ph_Objects p). \<forall>e\<in>set (validateObjectMetadata obj).
      sublist (ObjectRef_String env (ToObjectRef obj)) (Error env err) \<and> sublist (Error env e) (Error env err)) \<and>
    (\<forall>obj\<in>set (ph_Objects p). count_list (map fst (occurrences (rev_Phases rv))) (ToObjectRef obj) \<ge> 2 \<longrightarrow>
      (\<exists>names. set names = {n. (ToObjectRef obj, n) \<in> set (occurrences (rev_Phases rv))} \<and>
        sublist (ObjectRef_String env (ToObjectRef obj)) (Error env err) \<and>
        sublist (''duplicate object found in phases: '' @ Join names '', '') (Error env err)))"
proof -
  let ?dups = "checkForObjectDuplicates (rev_Phases rv)"
  have obj_msg: "sublist (ObjectRef_String env ref) (Error env err) \<and> (\<forall>e\<in>set errs. sublist (Error env e) (Error env err))"
    if "ObjectValidationError ref errs \<in> set (metadata_errors p @ dups_of_phase (ph_Name p) ?dups)" for ref errs
  proof -
    from that have "metadata_errors p @ dups_of_phase (ph_Name p) ?dups \<noteq> []" by auto
    then have "sublist (ObjectValidationError_Error env (ObjectValidationError ref errs)) (Error env err)"
      using sublist_order.order_trans [OF phase_message_object [OF that] revision_message [OF err p]] by blast
    with object_message show ?thesis by (meson sublist_order.order_trans)
  qed
  have "sublist (''phase '' @ Quote (ph_Name p) @ '': '' @ Error env e) (Error env err)"
    if "validatePhaseName va p = Some e" for e
    using sublist_order.order_trans [OF phase_message_phase revision_message [OF err p, unfolded that]] by blast
  moreover have "sublist (ObjectRef_String env (ToObjectRef obj)) (Error env err) \<and> sublist (Error env e) (Error env err)"
    if "obj \<in> set (ph_Objects p)" "e \<in> set (validateObjectMetadata obj)" for obj e
    using obj_msg [of "ToObjectRef obj" "validateObjectMetadata obj"] that
    by (force simp: metadata_errors_def)
  moreover have "\<exists>names. set names = {n. (ToObjectRef obj, n) \<in> set (occurrences (rev_Phases rv))} \<and>
        sublist (ObjectRef_String env (ToObjectRef obj)) (Error env err) \<and>
        sublist (''duplicate object found in phases: '' @ Join names '', '') (Error env err)"
    if obj: "obj \<in> set (ph_Objects p)"
      and twice: "count_list (map fst (occurrences (rev_Phases rv))) (ToObjectRef obj) \<ge> 2" for obj
  proof -
    obtain names where names:
      "ObjectValidationError (ToObjectRef obj) [PhaseObjectDuplicationError (sort_strings names)] \<in> set ?dups"
      "set names = {n. (ToObjectRef obj, n) \<in> set (occurrences (rev_Phases rv))}"
      using duplicate_of_object [OF twice] by blast
    have "(ToObjectRef obj, ph_Name p) \<in> set (occurrences (rev_Phases rv))"
      using p obj by (auto simp: occurrences_def)
    with names have "ObjectValidationError (ToObjectRef obj) [PhaseObjectDuplicationError (sort_strings names)]
        \<in> set (dups_of_phase (ph_Name p) ?dups)" by (auto simp: dups_of_phase_eq)
    with obj_msg names(2) show ?thesis by (intro exI [of _ "sort_strings names"]) fastforce
  qed
  ultimately show ?thesis by blast
qed

theorem validation_message_complete_witness:
  "\<exists>err. RevisionValidator_Validate sample_va (NewRevision ''rev'' 3 [NewPhase [] []]) = Val (Some err) \<and>
    sublist (''phase '' @ Quote [] @ '': phase name invalid: must not be empty'') (Error sample_report_env err)"
proof -
  let ?rv = "NewRevision ''rev'' 3 [NewPhase [] []]"
  obtain err where err: "RevisionValidator_Validate sample_va ?rv = Val (Some err)"
    by (simp add: RevisionValidator_Validate_def staticValidateMultiplePhases_def NewRevision_def NewPhase_def
        NewPhaseValidationError_def validatePhaseName_def phaseNameValid_def sample_va_def
        NewRevisionValidationError_def)
  with validation_message_complete [OF err, of "NewPhase [] []" sample_report_env] show ?thesis
    by (simp add: NewRevision_def NewPhase_def validatePhaseName_def phaseNameValid_def sample_va_def)
qed

section \<open>The report of a rollout\<close>

lemma omap_Val: "omap f xs = Val ys \<longleftrightarrow> list_all2 (\<lambda>x y. f x = Val y) xs ys"
  by (induction xs arbitrary: ys) (auto simp: obind_eq_Val list_all2_Cons1)

lemma phase_report_head:
  "phaseResult_String env r = Val t \<Longrightarrow>
    prefix (''Phase '' @ Quote (pr_name r) @ newline @ ''Complete: '' @ format_t (phaseResult_IsComplete r)) t"
  by (auto simp: phaseResult_String_def obind_eq_Val)

lemma filter_not_taken:
  "distinct xs \<Longrightarrow> filter (\<lambda>x. x \<notin> set (take n xs)) xs = drop n xs"
proof (induction xs arbitrary: n)
  case (Cons x xs)
  then show ?case by (cases n) (auto intro: filter_cong [THEN trans] simp: filter_id_conv)
qed simp

text \<open>C22: the report of a rollout accounts for every phase, in order. For a revision whose phases have
  distinct names, a report of a run without errors ends in one entry per phase acted on, which
  opens with the name and the completeness of that phase, followed by one pending line for exactly
  the phases that were not reached.\<close>

theorem rollout_report_covers_phases:
  assumes run: "RevisionEngine_Reconcile (revisionEngine_of cl api va e v w) rv opts s = (Val (rres, None), s')"
    and valid: "rr_validationError rres = None" and names: "distinct (map ph_Name (rev_Phases rv))"
    and report: "revisionResult_String env rres = Val t"
  shows "\<exists>reports.
    suffix (concat (map (\<lambda>r. item (TrimSpace (indent_lines r))) reports) @
      concat (map (pending_line \<circ> ph_Name) (drop (length reports) (rev_Phases rv)))) t \<and>
    length reports = length (rr_phasesResults rres) \<and> length reports \<le> length (rev_Phases rv) \<and>
    (\<forall>i<length reports. prefix (''Phase '' @ Quote (ph_Name (rev_Phases rv ! i)) @ newline @ ''Complete: '' @
       format_t (phaseResult_IsComplete (rr_phasesResults rres ! i))) (reports ! i))"
  using run
proof (cases rule: Reconcile_Val_cases)
  case (invalid verr)
  with valid show ?thesis by simp
next
  case (valid results)
  let ?n = "length results"
  have order: "map pr_name results = map ph_Name (take ?n (rev_Phases rv))" "?n \<le> length (rev_Phases rv)"
    using pe.reconcile_in_order [OF valid(5) [simplified]] by auto
  from report obtain reports where reports: "list_all2 (\<lambda>r u. phaseResult_String env r = Val u) results reports"
    and t: "suffix (concat (map (\<lambda>r. item (TrimSpace (indent_lines r))) reports) @
      concat (map pending_line (filter (\<lambda>p. p \<notin> set (map pr_name results)) (map ph_Name (rev_Phases rv))))) t"
    by (auto simp: revisionResult_String_def obind_eq_Val omap_Val valid(3,4) Let_def suffix_def)
  have "filter (\<lambda>p. p \<notin> set (map pr_name results)) (map ph_Name (rev_Phases rv)) =
      map ph_Name (drop ?n (rev_Phases rv))"
    using filter_not_taken [OF names, of ?n] by (simp add: order(1) take_map drop_map)
  moreover have len: "length reports = ?n" using reports by (simp add: list_all2_lengthD)
  moreover have "prefix (''Phase '' @ Quote (ph_Name (rev_Phases rv ! i)) @ newline @ ''Complete: '' @
      format_t (phaseResult_IsComplete (results ! i))) (reports ! i)" if "i < ?n" for i
  proof -
    have "pr_name (results ! i) = ph_Name (rev_Phases rv ! i)"
      using arg_cong [OF order(1), of "\<lambda>xs. xs ! i"] that order(2) by simp
    with phase_report_head [OF list_all2_nthD [OF reports that]] show ?thesis by simp
  qed
  ultimately show ?thesis using t order(2) by (intro exI [of _ reports]) (simp add: comp_def valid(3))
qed

theorem rollout_report_covers_phases_witness:
  "\<exists>t reports. revisionResult_String sample_report_env sample_revision_result = Val t \<and>
    suffix (concat (map (\<lambda>r. item (TrimSpace (indent_lines r))) reports)) t \<and> length reports = 1 \<and>
    prefix (''Phase '' @ Quote ''deploy'' @ newline @ ''Complete: true'') (reports ! 0)"
proof -
  obtain t where t: "revisionResult_String sample_report_env sample_revision_result = Val t"
    by (simp add: revisionResult_String_def phaseResult_String_def sample_revision_result_def Let_def)
  have complete: "phaseResult_IsComplete \<lparr>pr_name = ''deploy'', pr_validationError = None, pr_objects = []\<rparr>"
    by (simp add: phaseResult_IsComplete_def)
  have "rr_validationError sample_revision_result = None" "distinct (map ph_Name (rev_Phases sample_revision))"
    by (simp_all add: sample_revision_result_def sample_revision_def NewRevision_def)
  from rollout_report_covers_phases [OF sample_revision_run [unfolded sample_revision_engine_def] this t] t complete
  show ?thesis
    by (auto simp: sample_revision_result_def sample_revision_def NewRevision_def sample_empty_phase_def
        NewPhase_def format_t_def)
qed

end
