(* ===== verification/Summary.thy ===== *)
theory Summary
  imports Report
begin

text \<open>
  \<open>util/summary.go\<close>: one-line summaries of the results of a rollout and of a teardown. The iteration order
  of a map of probe results is that of the association list. The results are passed as interfaces:
  nil is \<open>None\<close>.
\<close>

section \<open>Objects\<close>

definition getObjectInfo :: "Object option \<Rightarrow> string" where
  "getObjectInfo obj =
    (case obj of
       None \<Rightarrow> ''unknown object''
     | Some ob \<Rightarrow>
         let kind = (if Kind (GVK ob) = [] then ''unknown'' else Kind (GVK ob))
         in if GetNamespace ob \<noteq> [] then kind @ '' '' @ GetNamespace ob @ ''/'' @ GetName ob
            else kind @ '' '' @ GetName ob)"

definition allProbesSuccessful :: "ProbeResultContainer \<Rightarrow> bool" where
  "allProbesSuccessful probes = list_all (\<lambda>(t, r). Status r = ProbeStatusTrue) probes"

record object_counts =
  oc_collisions :: "string list"
  oc_probeFailures :: "string list"
  oc_probeUnknowns :: "string list"
  oc_successCount :: nat

text \<open>The loop over the probe results of one object.\<close>

definition count_probe :: "string \<Rightarrow> string \<times> ProbeResult \<Rightarrow> object_counts \<Rightarrow> object_counts" where
  "count_probe objInfo tr acc =
    (case tr of (probeType, probeResult) \<Rightarrow>
       if Status probeResult = ProbeStatusFalse
       then acc\<lparr>oc_probeFailures := oc_probeFailures acc @ [Quote probeType @ '' probe for '' @ objInfo @ '' failed'']\<rparr>
       else if Status probeResult = ProbeStatusUnknown
       then acc\<lparr>oc_probeUnknowns := oc_probeUnknowns acc @ [Quote probeType @ '' probe for '' @ objInfo @ '' unknown'']\<rparr>
       else acc)"

definition count_object :: "ObjectResult \<Rightarrow> object_counts \<Rightarrow> object_counts" where
  "count_object r acc =
    (let objInfo = getObjectInfo (Some (result_Object r)); probes = result_ProbeResults r
     in if result_Action r = ActionCollision
        then acc\<lparr>oc_collisions := oc_collisions acc @ [objInfo]\<rparr>
        else let acc' = fold (count_probe objInfo) probes acc
             in if probes = [] \<or> allProbesSuccessful probes
                then acc'\<lparr>oc_successCount := oc_successCount acc' + 1\<rparr> else acc')"

text \<open>The part on collisions; the code repeats it for failed and unknown probes.\<close>

definition limited :: "string \<Rightarrow> string list \<Rightarrow> string list" where
  "limited label xs =
    (if xs = [] then []
     else if length xs > 3
     then [FormatInt (int (length xs)) @ '' '' @ label @ ''(s) [showing first 3: '' @ Join (take 3 xs) '', '' @ '']'']
     else [FormatInt (int (length xs)) @ '' '' @ label @ ''(s): '' @ Join xs '', ''])"

record objectSummary =
  hasIssues :: bool
  summary :: string

definition summarizeObjects :: "ObjectResult list \<Rightarrow> objectSummary" where
  "summarizeObjects objects =
    (let c = fold count_object objects
           \<lparr>oc_collisions = [], oc_probeFailures = [], oc_probeUnknowns = [], oc_successCount = 0\<rparr>;
         parts = limited ''collision'' (oc_collisions c) @ limited ''probe failure'' (oc_probeFailures c) @
                 limited ''probe unknown'' (oc_probeUnknowns c);
         issues = (oc_collisions c \<noteq> [] \<or> oc_probeFailures c \<noteq> [] \<or> oc_probeUnknowns c \<noteq> [])
     in \<lparr>hasIssues = issues,
         summary = (if \<not> issues \<and> oc_successCount c > 0
                    then FormatInt (int (oc_successCount c)) @ '' object(s) applied successfully''
                    else Join parts ''; '')\<rparr>)"

section \<open>Phases\<close>

definition phase_title :: "string \<Rightarrow> string" where
  "phase_title name = (if name = [] then ''unnamed'' else name)"

text \<open>The body of the loop: the problem and the success a phase adds.\<close>

definition phase_problems :: "phaseResult \<Rightarrow> string list" where
  "phase_problems p =
    (let phaseName = phase_title (pr_name p); objects = pr_objects p; s = summarizeObjects objects
     in if pr_validationError p \<noteq> None then [phaseName @ '': validation error'']
        else (if objects \<noteq> [] \<and> hasIssues s then [phaseName @ '': '' @ summary s] else []) @
             (if \<not> phaseResult_IsComplete p \<and> objects = [] then [phaseName @ '': incomplete''] else []))"

definition phase_successes :: "phaseResult \<Rightarrow> string list" where
  "phase_successes p =
    (if pr_validationError p = None \<and> pr_objects p \<noteq> [] \<and> \<not> hasIssues (summarizeObjects (pr_objects p)) \<and>
        phaseResult_IsComplete p
     then [phase_title (pr_name p)] else [])"

definition summarizePhases :: "phaseResult list \<Rightarrow> string" where
  "summarizePhases phases =
    (let problemPhases = concat (map phase_problems phases);
         successfulPhases = concat (map phase_successes phases)
     in Join ((if problemPhases \<noteq> [] then [''phases with issues: '' @ Join problemPhases '', ''] else []) @
              (if successfulPhases \<noteq> [] \<and> problemPhases = []
               then [FormatInt (int (length successfulPhases)) @ '' phase(s) successful''] else [])) ''; '')"

definition SummarizeRevisionResult :: "report_env \<Rightarrow> revisionResult option \<Rightarrow> string" where
  "SummarizeRevisionResult env result =
    (case result of
       None \<Rightarrow> []
     | Some r \<Rightarrow>
         let parts =
           (case rr_validationError r of
              None \<Rightarrow> [] | Some verr \<Rightarrow> [''validation error: '' @ RevisionValidationError_Error env verr]) @
           (if rr_phasesResults r \<noteq> [] \<and> summarizePhases (rr_phasesResults r) \<noteq> []
            then [summarizePhases (rr_phasesResults r)] else []) @
           (if \<not> revisionResult_IsComplete r
            then [if revisionResult_InTransition r then ''status: in transition'' else ''status: incomplete''] else [])
         in if parts = [] then ''reconcile completed successfully'' else Join parts ''; '')"

section \<open>Teardown\<close>

definition summarizeTeardownPhases :: "phaseTeardownResult list \<Rightarrow> string" where
  "summarizeTeardownPhases phases =
    (let incompletePhases = map (phase_title \<circ> ptr_name) (filter (Not \<circ> phaseTeardownResult_IsComplete) phases);
         completedCount = length (filter phaseTeardownResult_IsComplete phases)
     in Join ((if incompletePhases \<noteq> [] then [''incomplete phases: '' @ Join incompletePhases '', ''] else []) @
              (if completedCount > 0 then [FormatInt (int completedCount) @ '' phase(s) completed''] else [])) ''; '')"

definition SummarizeRevisionTeardownResult :: "revisionTeardownResult option \<Rightarrow> string" where
  "SummarizeRevisionTeardownResult result =
    (case result of
       None \<Rightarrow> []
     | Some r \<Rightarrow>
         if revisionTeardownResult_IsComplete r then ''teardown completed successfully''
         else let parts =
                (if rt_waiting r \<noteq> [] then [''waiting on phases: '' @ Join (rt_waiting r) '', ''] else []) @
                (if rt_phases r \<noteq> [] \<and> summarizeTeardownPhases (rt_phases r) \<noteq> []
                 then [summarizeTeardownPhases (rt_phases r)] else [])
              in if parts = [] then ''teardown in progress'' else Join parts ''; '')"

section \<open>Shape of a text\<close>

lemma format_nat_hd: "of_char (hd (format_nat n)) < (58 :: nat)"
proof (induction n rule: format_nat.induct)
  case (1 n)
  then show ?case
    by (subst format_nat.simps) (auto simp: digit_char_def of_char_of hd_append)
qed

lemma FormatInt_hd: "of_char (hd (FormatInt i)) < (58 :: nat)"
  by (simp add: FormatInt_def format_nat_hd)

lemma Join_hd: "x \<noteq> [] \<Longrightarrow> hd (Join (x # xs) sep) = hd x"
  by (cases xs) auto

lemma Join_suffix: "suffix y (Join (xs @ [y]) sep)"
  by (induction xs rule: induct_list012) (auto simp: suffix_def)

lemma Join_last: "y \<noteq> [] \<Longrightarrow> last (Join (xs @ [y]) sep) = last y"
  using Join_suffix [of y xs sep] by (auto simp: suffix_def)

section \<open>What counts as trouble\<close>

definition troubled :: "ObjectResult \<Rightarrow> bool" where
  "troubled r \<longleftrightarrow> result_Action r = ActionCollision \<or>
    (\<exists>t pr. (t, pr) \<in> set (result_ProbeResults r) \<and> Status pr \<in> {ProbeStatusFalse, ProbeStatusUnknown})"

definition counted :: "object_counts \<Rightarrow> bool" where
  "counted c \<longleftrightarrow> oc_collisions c \<noteq> [] \<or> oc_probeFailures c \<noteq> [] \<or> oc_probeUnknowns c \<noteq> []"

lemma counted_probe:
  "counted (count_probe info tr c) \<longleftrightarrow> counted c \<or> Status (snd tr) \<in> {ProbeStatusFalse, ProbeStatusUnknown}"
  by (auto simp: counted_def count_probe_def split: prod.splits)

lemma counted_probes:
  "counted (fold (count_probe info) probes c) \<longleftrightarrow>
    counted c \<or> (\<exists>(t, pr)\<in>set probes. Status pr \<in> {ProbeStatusFalse, ProbeStatusUnknown})"
  by (induction probes arbitrary: c) (auto simp: counted_probe)

lemma counted_success [simp]: "counted (c\<lparr>oc_successCount := n\<rparr>) = counted c"
  by (simp add: counted_def)

lemma counted_object:
  assumes "result_Action r \<noteq> ActionCollision"
  shows "counted (count_object r c) \<longleftrightarrow> counted c \<or> troubled r"
  using assms by (auto simp: count_object_def Let_def counted_probes troubled_def)

lemma counted_collision: "result_Action r = ActionCollision \<Longrightarrow> counted (count_object r c) \<and> troubled r"
  by (simp add: count_object_def Let_def counted_def troubled_def)

lemma counted_objects:
  "counted (fold count_object rs c) \<longleftrightarrow> counted c \<or> (\<exists>r\<in>set rs. troubled r)"
  by (induction rs arbitrary: c) (use counted_object counted_collision in \<open>auto, blast+\<close>)

lemma hasIssues_iff: "hasIssues (summarizeObjects rs) \<longleftrightarrow> (\<exists>r\<in>set rs. troubled r)"
  using counted_objects [of rs "\<lparr>oc_collisions = [], oc_probeFailures = [], oc_probeUnknowns = [], oc_successCount = 0\<rparr>"]
  by (simp add: summarizeObjects_def Let_def counted_def)

lemma phase_problems_iff:
  "phase_problems p \<noteq> [] \<longleftrightarrow> pr_validationError p \<noteq> None \<or> (\<exists>r\<in>set (pr_objects p). troubled r) \<or>
     pr_objects p = [] \<and> \<not> phaseResult_IsComplete p"
  by (auto simp: phase_problems_def Let_def hasIssues_iff)

lemma complete_phase_problems:
  "phaseResult_IsComplete p \<Longrightarrow> phase_problems p = [] \<longleftrightarrow> (\<forall>r\<in>set (pr_objects p). \<not> troubled r)"
  using phase_problems_iff [of p] by (auto simp: phaseResult_IsComplete_def split: if_splits)

lemma problem_in_concat:
  assumes "p \<in> set ps" "q \<in> set (phase_problems p)"
  shows "sublist q (Join (concat (map phase_problems ps)) sep)"
  using assms by (intro sublist_Join) auto

section \<open>Summaries of rollouts\<close>

text \<open>The summary of the phases is empty, opens with the problems, or only counts successes.\<close>

lemma summarizePhases_cases:
  "(concat (map phase_problems ps) \<noteq> [] \<longrightarrow>
      summarizePhases ps = ''phases with issues: '' @ Join (concat (map phase_problems ps)) '', '') \<and>
   (concat (map phase_problems ps) = [] \<longrightarrow>
      summarizePhases ps = [] \<or> (\<exists>n. summarizePhases ps = FormatInt n @ '' phase(s) successful''))"
  by (auto simp: summarizePhases_def Let_def simp del: append_Cons)

definition success_text :: "string \<Rightarrow> bool" where
  "success_text t \<longleftrightarrow> t = ''reconcile completed successfully'' \<or> (\<exists>n. t = FormatInt n @ '' phase(s) successful'')"

lemma success_text_shape:
  assumes "success_text t"
  shows "t \<noteq> []" "last t \<in> {CHR ''l'', CHR ''y''}" "hd t = CHR ''r'' \<or> of_char (hd t) < (58 :: nat)"
  using assms FormatInt_hd by (auto simp: success_text_def hd_append)

definition result_parts :: "report_env \<Rightarrow> revisionResult \<Rightarrow> string list" where
  "result_parts env r =
    (case rr_validationError r of
       None \<Rightarrow> [] | Some verr \<Rightarrow> [''validation error: '' @ RevisionValidationError_Error env verr]) @
    (if rr_phasesResults r \<noteq> [] \<and> summarizePhases (rr_phasesResults r) \<noteq> []
     then [summarizePhases (rr_phasesResults r)] else []) @
    (if \<not> revisionResult_IsComplete r
     then [if revisionResult_InTransition r then ''status: in transition'' else ''status: incomplete''] else [])"

lemma SummarizeRevisionResult_parts:
  "SummarizeRevisionResult env (Some r) =
    (if result_parts env r = [] then ''reconcile completed successfully'' else Join (result_parts env r) ''; '')"
  by (simp add: SummarizeRevisionResult_def result_parts_def Let_def)

lemma incomplete_summary:
  assumes "\<not> revisionResult_IsComplete r"
  shows "\<not> success_text (SummarizeRevisionResult env (Some r))"
proof
  assume s: "success_text (SummarizeRevisionResult env (Some r))"
  obtain xs y where xs: "result_parts env r = xs @ [y]" "y = ''status: in transition'' \<or> y = ''status: incomplete''"
    using assms by (auto simp: result_parts_def)
  then have "last (SummarizeRevisionResult env (Some r)) = last y"
    by (auto simp: SummarizeRevisionResult_parts Join_last)
  with success_text_shape(2) [OF s] xs(2) show False by auto
qed

lemma troubled_summary:
  assumes "rr_validationError r \<noteq> None \<or> concat (map phase_problems (rr_phasesResults r)) \<noteq> []"
  shows "\<not> success_text (SummarizeRevisionResult env (Some r))"
proof
  assume s: "success_text (SummarizeRevisionResult env (Some r))"
  have "\<exists>x xs. result_parts env r = x # xs \<and> x \<noteq> [] \<and> hd x \<in> {CHR ''v'', CHR ''p''}"
  proof (cases "rr_validationError r")
    case None
    with assms have "concat (map phase_problems (rr_phasesResults r)) \<noteq> []" by simp
    moreover from this have "summarizePhases (rr_phasesResults r) =
        ''phases with issues: '' @ Join (concat (map phase_problems (rr_phasesResults r))) '', ''"
      using summarizePhases_cases [of "rr_phasesResults r"] by blast
    ultimately show ?thesis using None by (cases "rr_phasesResults r") (simp_all add: result_parts_def)
  qed (simp add: result_parts_def)
  then have "hd (SummarizeRevisionResult env (Some r)) \<in> {CHR ''v'', CHR ''p''}"
    by (auto simp: SummarizeRevisionResult_parts Join_hd simp del: insert_iff)
  with success_text_shape(3) [OF s] show False by auto
qed

lemma untroubled_summary:
  assumes "rr_validationError r = None" "revisionResult_IsComplete r"
    "concat (map phase_problems (rr_phasesResults r)) = []"
  shows "success_text (SummarizeRevisionResult env (Some r))"
  using assms summarizePhases_cases [of "rr_phasesResults r"]
  by (auto simp: SummarizeRevisionResult_parts result_parts_def success_text_def)

lemma named_in_summary:
  assumes "p \<in> set (rr_phasesResults r)" "phase_problems p \<noteq> []"
  shows "sublist (phase_title (pr_name p)) (SummarizeRevisionResult env (Some r))"
proof -
  let ?ps = "rr_phasesResults r"
  from assms have problems: "concat (map phase_problems ?ps) \<noteq> []" by auto
  then have sum: "summarizePhases ?ps = ''phases with issues: '' @ Join (concat (map phase_problems ?ps)) '', ''"
    using summarizePhases_cases [of ?ps] by blast
  obtain q where q: "q \<in> set (phase_problems p)" "sublist (phase_title (pr_name p)) q"
    using assms(2) by (auto simp: phase_problems_def Let_def split: if_splits)
  have "sublist q (summarizePhases ?ps)"
    unfolding sum by (rule sublist_right [OF problem_in_concat [OF assms(1) q(1)]])
  moreover have "summarizePhases ?ps \<in> set (result_parts env r)" using sum assms(1) by (auto simp: result_parts_def)
  then have "sublist (summarizePhases ?ps) (SummarizeRevisionResult env (Some r))"
    by (auto simp: SummarizeRevisionResult_parts intro: sublist_Join)
  ultimately show ?thesis using q(2) by (meson sublist_order.order_trans)
qed

text \<open>C21: a summary does not hide trouble. The summary of a rollout is a success message exactly when
  the revision passed validation, is complete and no object collides or has a failed or unknown
  probe, also one that does not guard progress; and every phase that was refused or has such an
  object is named in it.\<close>

theorem SummarizeRevisionResult_honest:
  "(success_text (SummarizeRevisionResult env (Some r)) \<longleftrightarrow>
      rr_validationError r = None \<and> revisionResult_IsComplete r \<and>
      (\<forall>p\<in>set (rr_phasesResults r). \<forall>res\<in>set (pr_objects p). \<not> troubled res)) \<and>
   (\<forall>p\<in>set (rr_phasesResults r). pr_validationError p \<noteq> None \<or> (\<exists>res\<in>set (pr_objects p). troubled res) \<longrightarrow>
      sublist (phase_title (pr_name p)) (SummarizeRevisionResult env (Some r)))"
proof (intro conjI)
  have "concat (map phase_problems (rr_phasesResults r)) = [] \<longleftrightarrow>
      (\<forall>p\<in>set (rr_phasesResults r). \<forall>res\<in>set (pr_objects p). \<not> troubled res)"
    if "revisionResult_IsComplete r"
    using that complete_phase_problems by (auto simp: revisionResult_IsComplete_def list_all_iff split: if_splits)
  then show "success_text (SummarizeRevisionResult env (Some r)) \<longleftrightarrow>
      rr_validationError r = None \<and> revisionResult_IsComplete r \<and>
      (\<forall>p\<in>set (rr_phasesResults r). \<forall>res\<in>set (pr_objects p). \<not> troubled res)"
    using incomplete_summary [of r env] troubled_summary [of r env] untroubled_summary [of r env] by metis
qed (use named_in_summary phase_problems_iff in blast)

definition sample_collided :: revisionResult where
  "sample_collided = \<lparr>rr_phases = [''deploy''], rr_phasesResults = [\<lparr>pr_name = ''deploy'', pr_validationError = None,
     pr_objects = [ObjectResultCollision \<lparr>nr_action = ActionCollision, nr_obj = sample_object, nr_probeResults = [],
       nr_compareResult = \<lparr>ConflictingMangers = [], OtherManagers = [], DesiredFieldSet = None, Comparison = None\<rparr>,
       nr_options = zero_ObjectReconcileOptions\<rparr> None]\<rparr>], rr_validationError = None\<rparr>"

theorem SummarizeRevisionResult_honest_witness:
  "success_text (SummarizeRevisionResult sample_report_env (Some sample_revision_result)) \<and>
   \<not> success_text (SummarizeRevisionResult sample_report_env (Some sample_collided)) \<and>
   sublist ''deploy'' (SummarizeRevisionResult sample_report_env (Some sample_collided))"
proof -
  have "troubled (hd (pr_objects (hd (rr_phasesResults sample_collided))))"
    by (simp add: troubled_def sample_collided_def)
  then show ?thesis
    using SummarizeRevisionResult_honest [of sample_report_env sample_revision_result]
      SummarizeRevisionResult_honest [of sample_report_env sample_collided]
    by (simp add: sample_revision_result_def sample_collided_def revisionResult_IsComplete_def
        phaseResult_IsComplete_def phase_title_def)
qed

section \<open>Summaries of teardowns\<close>

definition teardown_parts :: "revisionTeardownResult \<Rightarrow> string list" where
  "teardown_parts r =
    (if rt_waiting r \<noteq> [] then [''waiting on phases: '' @ Join (rt_waiting r) '', ''] else []) @
    (if rt_phases r \<noteq> [] \<and> summarizeTeardownPhases (rt_phases r) \<noteq> []
     then [summarizeTeardownPhases (rt_phases r)] else [])"

lemma summarizeTeardownPhases_hd:
  "summarizeTeardownPhases ps \<noteq> [] \<Longrightarrow>
    hd (summarizeTeardownPhases ps) = CHR ''i'' \<or> of_char (hd (summarizeTeardownPhases ps)) < (58 :: nat)"
  by (auto simp: summarizeTeardownPhases_def Let_def hd_append FormatInt_hd)

lemma summarizeTeardownPhases_named:
  assumes "p \<in> set ps" "\<not> phaseTeardownResult_IsComplete p"
  shows "sublist (phase_title (ptr_name p)) (summarizeTeardownPhases ps)"
proof -
  let ?names = "map (phase_title \<circ> ptr_name) (filter (Not \<circ> phaseTeardownResult_IsComplete) ps)"
  have named: "sublist (phase_title (ptr_name p)) (Join ?names '', '')"
    using assms by (intro sublist_Join) auto
  moreover have ne: "?names \<noteq> []" using assms by (auto simp: filter_empty_conv)
  moreover have "sublist (''incomplete phases: '' @ Join ?names '', '') (summarizeTeardownPhases ps)"
    using ne unfolding summarizeTeardownPhases_def Let_def by (intro sublist_Join) simp
  ultimately show ?thesis by (meson sublist_order.order_trans sublist_append_leftI)
qed

text \<open>The summary of a teardown claims completion exactly when the teardown is complete; otherwise it
  names every phase that waits for its turn and every phase that still has objects.\<close>

theorem SummarizeRevisionTeardownResult_honest:
  "(SummarizeRevisionTeardownResult (Some r) = ''teardown completed successfully'' \<longleftrightarrow>
      revisionTeardownResult_IsComplete r) \<and>
   (\<not> revisionTeardownResult_IsComplete r \<longrightarrow>
      (\<forall>n\<in>set (rt_waiting r). sublist n (SummarizeRevisionTeardownResult (Some r))) \<and>
      (\<forall>p\<in>set (rt_phases r). \<not> phaseTeardownResult_IsComplete p \<longrightarrow>
         sublist (phase_title (ptr_name p)) (SummarizeRevisionTeardownResult (Some r))))"
proof (cases "revisionTeardownResult_IsComplete r")
  case False
  have S: "SummarizeRevisionTeardownResult (Some r) =
      (if teardown_parts r = [] then ''teardown in progress'' else Join (teardown_parts r) ''; '')"
    using False by (simp add: SummarizeRevisionTeardownResult_def teardown_parts_def Let_def)
  have in_parts: "x \<in> set (teardown_parts r) \<Longrightarrow> sublist x (SummarizeRevisionTeardownResult (Some r))" for x
    by (auto simp: S intro: sublist_Join)
  have "hd (SummarizeRevisionTeardownResult (Some r)) \<noteq> CHR ''t''" if "teardown_parts r \<noteq> []"
    using that summarizeTeardownPhases_hd [of "rt_phases r"] by (auto simp: S teardown_parts_def Join_hd)
  then have "SummarizeRevisionTeardownResult (Some r) \<noteq> ''teardown completed successfully''"
    by (cases "teardown_parts r = []") (auto simp: S)
  moreover have "sublist n (SummarizeRevisionTeardownResult (Some r))" if "n \<in> set (rt_waiting r)" for n
  proof -
    from that have "''waiting on phases: '' @ Join (rt_waiting r) '', '' \<in> set (teardown_parts r)"
      by (auto simp: teardown_parts_def)
    from in_parts [OF this] sublist_Join [OF that] show ?thesis
      by (meson sublist_order.order_trans sublist_append_leftI)
  qed
  moreover have "sublist (phase_title (ptr_name p)) (SummarizeRevisionTeardownResult (Some r))"
    if "p \<in> set (rt_phases r)" "\<not> phaseTeardownResult_IsComplete p" for p
  proof -
    have "sublist (phase_title (ptr_name p)) (summarizeTeardownPhases (rt_phases r))"
      using that by (rule summarizeTeardownPhases_named)
    moreover from this that(1) have "summarizeTeardownPhases (rt_phases r) \<in> set (teardown_parts r)"
      by (auto simp: teardown_parts_def phase_title_def split: if_splits)
    ultimately show ?thesis using in_parts by (meson sublist_order.order_trans)
  qed
  ultimately show ?thesis using False by blast
qed (simp add: SummarizeRevisionTeardownResult_def)

definition sample_teardown_waiting :: revisionTeardownResult where
  "sample_teardown_waiting = \<lparr>rt_phases = [\<lparr>ptr_name = ''crds'', ptr_gone = [], ptr_waiting = [ToObjectRef sample_object]\<rparr>],
     rt_active = ''crds'', rt_waiting = [''deploy''], rt_gone = []\<rparr>"

theorem SummarizeRevisionTeardownResult_honest_witness:
  "SummarizeRevisionTeardownResult (Some sample_teardown_waiting) \<noteq> ''teardown completed successfully'' \<and>
   sublist ''deploy'' (SummarizeRevisionTeardownResult (Some sample_teardown_waiting)) \<and>
   sublist ''crds'' (SummarizeRevisionTeardownResult (Some sample_teardown_waiting))"
  using SummarizeRevisionTeardownResult_honest [of sample_teardown_waiting]
  by (simp add: sample_teardown_waiting_def revisionTeardownResult_IsComplete_def
      phaseTeardownResult_IsComplete_def phase_title_def)

end
