(* ===== verification/TeardownRuns.thy ===== *)
theory TeardownRuns
  imports RevisionEngine
begin

text \<open>
  Repeated teardowns, as a controller makes them that builds the revision anew for every run, like the
  reference controller. A teardown is driven to its end by calling it again
  and again: \<open>revision_pending\<close> are the objects that the engine would still delete, \<open>settles\<close> relates
  the states before and after a computation that adds none of them, and the theorem shows that the
  number of phases that still hold such objects bounds the number of runs.
\<close>

section \<open>Objects that wait to be deleted\<close>

definition pending ::
  "'w cluster \<Rightarrow> apimachinery \<Rightarrow> ObjectEngine \<Rightarrow> int \<Rightarrow> ObjectTeardownOption list \<Rightarrow> Object \<Rightarrow> 'w \<Rightarrow> bool" where
  "pending cl api e revision opts obj w \<longleftrightarrow>
    \<not> orphaning api (object_teardown_options opts) \<and>
    (case fetch cl (cache e) obj w of
       (Inl err, w') \<Rightarrow> False
     | (Inr actual, w') \<Rightarrow> may_delete e revision (object_teardown_options opts) actual)"

text \<open>The requests the teardown of an object may send.\<close>

definition teardown_sends ::
  "apimachinery \<Rightarrow> ObjectEngine \<Rightarrow> ObjectTeardownOption list \<Rightarrow> Object \<Rightarrow> request \<Rightarrow> bool" where
  "teardown_sends api e opts obj req \<longleftrightarrow>
    (let options = object_teardown_options opts
     in (\<exists>pre. req = Delete obj pre) \<or>
        (orphaning api options \<and> req = orphan_patch e obj) \<or>
        (\<exists>owner S actual p. td_Owner options = Some owner \<and> td_OwnerStrategy options = Some S \<and>
           RemoveOwner S owner actual = Val p \<and> req = Patch p (MergeFrom actual) no_opts))"

section \<open>Computations that add no pending object\<close>

definition settles :: "(phase \<times> Object \<Rightarrow> 'w \<Rightarrow> bool) \<Rightarrow> 'w st \<Rightarrow> 'w st \<Rightarrow> bool" where
  "settles P s t \<longleftrightarrow> (\<forall>k. P k (world t) \<longrightarrow> P k (world s)) \<and> (\<exists>reqs. sent t = sent s @ reqs)"

lemma settles_refl: "settles P s s"
  by (simp add: settles_def)

lemma settles_trans: "settles P s t \<Longrightarrow> settles P t u \<Longrightarrow> settles P s u"
  by (auto simp: settles_def)

interpretation se: effect_relation "settles P" for P
  by unfold_locales (rule settles_refl, erule (1) settles_trans)

text \<open>A delete request for the object was sent on the way from \<open>s\<close> to \<open>t\<close>.\<close>

definition deleted :: "Object \<Rightarrow> 'w st \<Rightarrow> 'w st \<Rightarrow> bool" where
  "deleted obj s t \<longleftrightarrow> (\<exists>wr pre. (wr, Delete obj pre) \<in> set (drop (length (sent s)) (sent t)))"

lemma deleted_later: "deleted obj s t \<Longrightarrow> settles P t u \<Longrightarrow> deleted obj s u"
  by (fastforce simp: deleted_def settles_def)

lemma deleted_earlier: "settles P s t \<Longrightarrow> settles P t u \<Longrightarrow> deleted obj t u \<Longrightarrow> deleted obj s u"
  by (fastforce simp: deleted_def settles_def)

text \<open>An object that is still pending was at least asked to go.\<close>

definition handled :: "(phase \<times> Object \<Rightarrow> 'w \<Rightarrow> bool) \<Rightarrow> phase \<times> Object \<Rightarrow> 'w st \<Rightarrow> 'w st \<Rightarrow> bool" where
  "handled P k s t \<longleftrightarrow> (P k (world t) \<longrightarrow> deleted (snd k) s t)"

lemma handled_later: "handled P k s t \<Longrightarrow> settles P t u \<Longrightarrow> handled P k s u"
  using deleted_later unfolding handled_def settles_def by blast

lemma handled_earlier: "settles P s t \<Longrightarrow> settles P t u \<Longrightarrow> handled P k t u \<Longrightarrow> handled P k s u"
  using deleted_earlier unfolding handled_def by blast

section \<open>One object\<close>

lemma keeps_settles_send:
  assumes "\<And>w x w' k. serve cl wr req w = (x, w') \<Longrightarrow> P k w' \<Longrightarrow> P k w"
  shows "se.keeps P (send cl wr req)"
proof -
  have "se.keeps P (send_raw cl wr req)"
    using assms by (intro se.keepsI) (auto simp: send_raw_def settles_def split: prod.splits)
  then show ?thesis
    unfolding send_def by (intro se.keeps_bind) (auto intro: se.keeps_ret se.keeps_fail split: option.splits)
qed

lemma may_delete_run:
  assumes "may_delete e n options actual"
  shows "teardown_existing cl api e n d actual options = teardown_delete cl api e d actual options"
proof
  fix s
  obtain r s' where "teardown_existing cl api e n d actual options s = (r, s')" by fastforce
  with assms show "teardown_existing cl api e n d actual options s = teardown_delete cl api e d actual options s"
    by (auto simp: teardown_existing_def may_delete_def deref_def detectOwner_def attempt_def lift_def
        split: option.splits outcome.splits)
qed

text \<open>What the cluster must not do: no read and no request of the teardown makes an object pending.\<close>

definition no_new_pending ::
  "'w cluster \<Rightarrow> (phase \<times> Object \<Rightarrow> 'w \<Rightarrow> bool) \<Rightarrow> (request \<Rightarrow> bool) \<Rightarrow> bool" where
  "no_new_pending cl P sends \<longleftrightarrow>
    (\<forall>r into w x w' k. fetch cl r into w = (x, w') \<longrightarrow> P k w' \<longrightarrow> P k w) \<and>
    (\<forall>wr req w x w' k. sends req \<longrightarrow> serve cl wr req w = (x, w') \<longrightarrow> P k w' \<longrightarrow> P k w)"

lemma keeps_settles_calls:
  assumes "no_new_pending cl P sends"
  shows "se.keeps P (read_object cl r into)" "sends req \<Longrightarrow> se.keeps P (send cl wr req)"
proof -
  show "se.keeps P (read_object cl r into)"
    using assms by (intro se.keepsI)
      (auto simp: read_object_def settles_def no_new_pending_def split: prod.splits sum.splits)
  show "se.keeps P (send cl wr req)" if "sends req"
    using assms that by (intro keeps_settles_send) (auto simp: no_new_pending_def)
qed

lemma Teardown_settles:
  assumes quiet: "no_new_pending cl P sends"
    and sends: "\<And>req. teardown_sends api e opts obj req \<Longrightarrow> sends req"
  shows "se.keeps P (ObjectEngine_Teardown cl api e n obj opts)"
proof -
  let ?o = "object_teardown_options opts"
  note read = keeps_settles_calls(1) [OF quiet]
  note send = keeps_settles_calls(2) [OF quiet sends]
  have del: "se.keeps P (teardown_delete cl api e obj actual ?o)" for actual
    unfolding teardown_delete_def Let_def
    by (intro se.keeps_rules send) (auto simp: teardown_sends_def)
  have ex: "se.keeps P (teardown_existing cl api e n obj actual ?o)" for actual
    unfolding teardown_existing_def
    by (intro se.keeps_case se.keeps_bind_lift se.keeps_rules del send)
      (auto simp: teardown_sends_def deref_def split: option.splits)
  have "se.keeps P (removeBoxcutterManagedLabelsAndAnnotations cl e (writer e) obj)" if "orphaning api ?o"
    unfolding removeBoxcutterManagedLabelsAndAnnotations_def Let_def
    by (intro se.keeps_rules send) (auto simp: teardown_sends_def orphan_patch_def that)
  then show ?thesis
    unfolding ObjectEngine_Teardown_def orphaning_def [symmetric]
    by (auto intro!: se.keeps_bind_lift se.keeps_rules read ex dest!: Teardown_Default)
qed

lemma Teardown_handles:
  assumes run: "ObjectEngine_Teardown cl api e n obj opts s = (Val (gone, None), s')"
  shows "pending cl api e n opts obj (world s) \<Longrightarrow> deleted obj s s'"
    and "\<not> gone \<Longrightarrow> pending cl api e n opts obj (world s)"
proof -
  have "(pending cl api e n opts obj (world s) \<longrightarrow> deleted obj s s') \<and>
      (\<not> gone \<longrightarrow> pending cl api e n opts obj (world s))"
    using run
  proof (cases rule: Teardown_cases)
    case (orphan options)
    then show ?thesis
      by (auto simp: pending_def attempt_def ret_def dest!: Teardown_Default split: prod.splits outcome.splits)
  next
    case (missing err s1)
    then show ?thesis by (auto simp: pending_def read_object_def split: prod.splits sum.splits)
  next
    case (existing options actual s1)
    have o: "options = object_teardown_options opts" by (rule Teardown_Default [OF existing(1)])
    have f: "\<exists>w'. fetch cl (cache e) obj (world s) = (Inr actual, w')"
      using existing(3) by (auto simp: read_object_Val)
    show ?thesis
    proof (cases "may_delete e n options actual")
      case True
      with existing have "teardown_delete cl api e obj actual options s1 = (Val (gone, None), s')"
        by (simp add: may_delete_run)
      then have "sent s' = sent s @ [(delete_writer e options, delete_request obj actual)]"
        using existing(4) by (auto simp: teardown_delete_run split: prod.splits)
      with f True o existing(2) show ?thesis by (auto simp: pending_def deleted_def delete_request_def)
    next
      case False
      from existing(5) have gone
      proof (cases rule: teardown_existing_cases)
        case (release owner S p)
        from release(5) show ?thesis by (auto simp: attempt_def ret_def split: prod.splits outcome.splits)
      qed (use False in auto)
      with f False o show ?thesis by (auto simp: pending_def)
    qed
  qed auto
  then show "pending cl api e n opts obj (world s) \<Longrightarrow> deleted obj s s'"
    "\<not> gone \<Longrightarrow> pending cl api e n opts obj (world s)" by blast+
qed

section \<open>Phases\<close>

text \<open>The objects of phase \<open>p\<close> were all handled, and nothing became pending.\<close>

definition phase_handled ::
  "(phase \<times> Object \<Rightarrow> 'w \<Rightarrow> bool) \<Rightarrow> phase \<Rightarrow> Object list \<Rightarrow> 'w st \<Rightarrow> 'w st \<Rightarrow> bool" where
  "phase_handled P p objs s s' \<longleftrightarrow> settles P s s' \<and> (\<forall>obj\<in>set objs. handled P (p, obj) s s')"

lemma teardown_objects_handles:
  assumes quiet: "no_new_pending cl P sends"
    and sends: "\<And>obj req. obj \<in> set objs \<Longrightarrow>
      teardown_sends api e (PhaseTeardownOptions_ForObject options obj) obj req \<Longrightarrow> sends req"
    and P: "\<And>obj w. obj \<in> set objs \<Longrightarrow>
      P (p, obj) w \<longleftrightarrow> pending cl api e n (PhaseTeardownOptions_ForObject options obj) obj w"
    and run: "teardown_objects api (objectEngine_of cl api e) n options objs res errs s = (Val (res', None), s')"
  shows "phase_handled P p objs s s' \<and>
    (ptr_waiting res = [] \<and> ptr_waiting res' \<noteq> [] \<longrightarrow> (\<exists>obj\<in>set objs. P (p, obj) (world s)))"
  using sends P run
proof (induction objs arbitrary: res errs s)
  case Nil
  then show ?case by (auto simp: ret_def phase_handled_def settles_refl)
next
  case (Cons obj objs)
  let ?opts = "PhaseTeardownOptions_ForObject options obj"
  from Cons.prems(3) obtain gone er s1 where
    q: "ObjectEngine_Teardown cl api e n obj ?opts s = (Val (gone, er), s1)"
    by (auto simp: bind_eq_Val objectEngine_of_def)
  have er: "er = None"
    using Cons.prems(3) q teardown_objects_partition
    by (cases er) (fastforce simp: bind_def Let_def ret_def errors_Join_def objectEngine_of_def split: if_splits)+
  define res1 where "res1 = (if gone then res\<lparr>ptr_gone := ptr_gone res @ [ToObjectRef obj]\<rparr>
      else res\<lparr>ptr_waiting := ptr_waiting res @ [ToObjectRef obj]\<rparr>)"
  have step: "settles P s s1"
    by (rule se.keepsD [OF Teardown_settles [OF quiet] q]) (rule Cons.prems(1) [OF list.set_intros(1)])
  have handles: "P (p, obj) (world s) \<Longrightarrow> deleted obj s s1" "\<not> gone \<Longrightarrow> P (p, obj) (world s)"
    using Teardown_handles [OF q [unfolded er]] Cons.prems(2) [OF list.set_intros(1)] by auto
  from Cons.prems(3) q er have rest:
    "teardown_objects api (objectEngine_of cl api e) n options objs res1 errs s1 = (Val (res', None), s')"
    by (cases gone) (simp_all add: bind_def objectEngine_of_def res1_def)
  have IH: "phase_handled P p objs s1 s' \<and>
    (ptr_waiting res1 = [] \<and> ptr_waiting res' \<noteq> [] \<longrightarrow> (\<exists>obj\<in>set objs. P (p, obj) (world s1)))"
    by (rule Cons.IH [OF _ _ rest]) (auto intro: Cons.prems(1) simp: Cons.prems(2))
  have h: "handled P (p, obj) s s1"
    using handles(1) step by (auto simp: handled_def settles_def)
  from IH step have "settles P s s'" by (auto simp: phase_handled_def intro: settles_trans)
  moreover have "\<forall>o'\<in>set (obj # objs). handled P (p, o') s s'"
    using IH h step by (auto simp: phase_handled_def intro: handled_later handled_earlier)
  moreover have "\<exists>o'\<in>set (obj # objs). P (p, o') (world s)" if "ptr_waiting res = []" "ptr_waiting res' \<noteq> []"
    using that IH handles(2) step by (cases gone) (auto simp: res1_def settles_def)
  ultimately show ?case by (auto simp: phase_handled_def)
qed

section \<open>The revision\<close>

definition revision_teardown_opts ::
  "RevisionTeardownOption list \<Rightarrow> revision \<Rightarrow> phase \<Rightarrow> Object \<Rightarrow> ObjectTeardownOption list" where
  "revision_teardown_opts opts rv p obj =
    PhaseTeardownOptions_ForObject
      (phase_teardown_options
        (RevisionTeardownOptions_ForPhase (revision_teardown_options (opts @ rev_TeardownOptions rv)) (ph_Name p) @
         ph_TeardownOptions p)) obj"

fun revision_pending ::
  "'w cluster \<Rightarrow> apimachinery \<Rightarrow> ObjectEngine \<Rightarrow> revision \<Rightarrow> RevisionTeardownOption list \<Rightarrow> phase \<times> Object \<Rightarrow> 'w \<Rightarrow> bool"
where
  "revision_pending cl api e rv opts (p, obj) w \<longleftrightarrow>
    p \<in> set (rev_Phases rv) \<and> obj \<in> set (ph_Objects p) \<and>
    pending cl api e (rev_Revision rv) (revision_teardown_opts opts rv p obj) obj w"

definition revision_sends ::
  "apimachinery \<Rightarrow> ObjectEngine \<Rightarrow> revision \<Rightarrow> RevisionTeardownOption list \<Rightarrow> request \<Rightarrow> bool" where
  "revision_sends api e rv opts req \<longleftrightarrow>
    (\<exists>p\<in>set (rev_Phases rv). \<exists>obj\<in>set (ph_Objects p).
       teardown_sends api e (revision_teardown_opts opts rv p obj) obj req)"

lemma PhaseEngine_Teardown_handles:
  assumes "no_new_pending cl (revision_pending cl api e rv opts) (revision_sends api e rv opts)"
    and "p \<in> set (rev_Phases rv)"
    and "PhaseEngine_Teardown api (phaseEngine_of cl api va e v) (rev_Revision rv) p
      (RevisionTeardownOptions_ForPhase (revision_teardown_options (opts @ rev_TeardownOptions rv)) (ph_Name p)) s =
      (Val (pres, None), s')"
  shows "phase_handled (revision_pending cl api e rv opts) p (ph_Objects p) s s' \<and>
    (\<not> phaseTeardownResult_IsComplete pres \<longrightarrow>
      (\<exists>obj\<in>set (ph_Objects p). revision_pending cl api e rv opts (p, obj) (world s)))"
  using teardown_objects_handles [OF assms(1) _ _ assms(3) [unfolded PhaseEngine_Teardown_def Let_def
      phaseEngine_of_simps], of p] assms(2)
  by (auto simp: revision_sends_def revision_teardown_opts_def phaseTeardownResult_IsComplete_def)

lemma teardown_phases_handles:
  fixes cl api e rv opts va v
  defines "P \<equiv> revision_pending cl api e rv opts"
  assumes quiet: "no_new_pending cl P (revision_sends api e rv opts)"
    and ps: "set ps \<subseteq> set (rev_Phases rv)"
    and run: "teardown_phases (phaseEngine_ops api (phaseEngine_of cl api va e v)) (rev_Revision rv)
      (revision_teardown_options (opts @ rev_TeardownOptions rv)) phases ps waiting res s = (Val (Some res', None), s')"
  shows "settles P s s' \<and>
    (rt_active res' = [] \<and> rt_waiting res' = rt_waiting res \<and> rt_gone res' = rev (rt_gone res @ map ph_Name ps) \<or>
     (\<exists>p\<in>set ps. (\<exists>obj\<in>set (ph_Objects p). P (p, obj) (world s)) \<and> phase_handled P p (ph_Objects p) s s'))"
  using ps run
proof (induction ps arbitrary: waiting res s)
  case Nil
  then show ?case by (auto simp: ret_def settles_refl)
next
  case (Cons p ps)
  let ?options = "revision_teardown_options (opts @ rev_TeardownOptions rv)"
  from Cons.prems(2) obtain pres perr s1 where
    q: "PhaseEngine_Teardown api (phaseEngine_of cl api va e v) (rev_Revision rv) p
      (RevisionTeardownOptions_ForPhase ?options (ph_Name p)) s = (Val (pres, perr), s1)"
    by (auto simp: bind_eq_Val Let_def phaseEngine_ops_def)
  have none: "perr = None" using Cons.prems(2) q by (cases perr) (auto simp: bind_def Let_def ret_def phaseEngine_ops_def)
  have h: "phase_handled P p (ph_Objects p) s s1"
      "\<not> phaseTeardownResult_IsComplete pres \<Longrightarrow> \<exists>obj\<in>set (ph_Objects p). P (p, obj) (world s)"
    using PhaseEngine_Teardown_handles [OF quiet [unfolded P_def] _ q [unfolded none]] Cons.prems(1)
    by (auto simp: P_def)
  then have step: "settles P s s1" by (simp add: phase_handled_def)
  show ?case
  proof (cases "phaseTeardownResult_IsComplete pres")
    case True
    with Cons.prems(2) q none have
      "teardown_phases (phaseEngine_ops api (phaseEngine_of cl api va e v)) (rev_Revision rv) ?options phases ps
        (removeAll (ph_Name p) waiting) (res\<lparr>rt_active := ph_Name p, rt_phases := rt_phases res @ [pres],
          rt_gone := rt_gone res @ [ph_Name p]\<rparr>) s1 = (Val (Some res', None), s')"
      by (simp add: bind_def Let_def phaseEngine_ops_def)
    from Cons.IH [OF _ this] Cons.prems(1) have IH: "settles P s1 s'"
      "rt_active res' = [] \<and> rt_waiting res' = rt_waiting res \<and>
         rt_gone res' = rev (rt_gone res @ map ph_Name (p # ps)) \<or>
       (\<exists>p\<in>set ps. (\<exists>obj\<in>set (ph_Objects p). P (p, obj) (world s1)) \<and> phase_handled P p (ph_Objects p) s1 s')"
      by auto
    have later: "(\<exists>obj\<in>set (ph_Objects q). P (q, obj) (world s1)) \<and> phase_handled P q (ph_Objects q) s1 s' \<Longrightarrow>
        (\<exists>obj\<in>set (ph_Objects q). P (q, obj) (world s)) \<and> phase_handled P q (ph_Objects q) s s'" for q
      using step IH(1) unfolding phase_handled_def settles_def [of P s s1]
      by (auto intro: settles_trans [OF step] handled_earlier [OF step])
    from IH later settles_trans [OF step IH(1)] show ?thesis by (auto simp del: rev_append)
  next
    case False
    with Cons.prems(2) q none have "s' = s1" by (simp add: bind_def Let_def ret_def phaseEngine_ops_def)
    with h False step show ?thesis by auto
  qed
qed

subsection \<open>The measure\<close>

text \<open>The phases that still have a pending object.\<close>

definition pending_phases ::
  "'w cluster \<Rightarrow> apimachinery \<Rightarrow> ObjectEngine \<Rightarrow> revision \<Rightarrow> RevisionTeardownOption list \<Rightarrow> 'w \<Rightarrow> phase list" where
  "pending_phases cl api e rv opts w =
    filter (\<lambda>p. list_ex (\<lambda>obj. revision_pending cl api e rv opts (p, obj) w) (ph_Objects p)) (rev_Phases rv)"

text \<open>Between two runs the cluster finishes the deletions of the first and adds nothing.\<close>

definition deletions_finish ::
  "(phase \<times> Object \<Rightarrow> 'w \<Rightarrow> bool) \<Rightarrow> 'w st \<Rightarrow> 'w st \<Rightarrow> 'w st \<Rightarrow> bool" where
  "deletions_finish P s t u \<longleftrightarrow>
    (\<forall>p obj. P (p, obj) (world u) \<longrightarrow> P (p, obj) (world t) \<and> \<not> deleted obj s t)"

lemma teardown_run_progress:
  fixes cl api e rv opts va v w
  defines "P \<equiv> revision_pending cl api e rv opts"
  assumes quiet: "no_new_pending cl P (revision_sends api e rv opts)"
    and run: "RevisionEngine_Teardown (revisionEngine_of cl api va e v w) rv opts s = (Val (Some res, None), t)"
  shows "rt_active res = [] \<and> rt_waiting res = [] \<and> rt_gone res = map ph_Name (rev_Phases rv) \<or>
    pending_phases cl api e rv opts (world s) \<noteq> [] \<and>
    (\<forall>u. deletions_finish P s t u \<longrightarrow>
      length (pending_phases cl api e rv opts (world u)) < length (pending_phases cl api e rv opts (world s)))"
proof -
  let ?pp = "\<lambda>w p. list_ex (\<lambda>obj. P (p, obj) w) (ph_Objects p)"
  have "settles P s t \<and>
    (rt_active res = [] \<and> rt_waiting res = [] \<and> rt_gone res = rev (map ph_Name (rev (rev_Phases rv))) \<or>
     (\<exists>p\<in>set (rev_Phases rv). (\<exists>obj\<in>set (ph_Objects p). P (p, obj) (world s)) \<and>
        phase_handled P p (ph_Objects p) s t))"
    using teardown_phases_handles [OF quiet [unfolded P_def], of "rev (rev_Phases rv)"] run
    by (fastforce simp: RevisionEngine_Teardown_def Let_def P_def)
  then consider "rt_active res = [] \<and> rt_waiting res = [] \<and> rt_gone res = map ph_Name (rev_Phases rv)"
    | p where "settles P s t" "p \<in> set (rev_Phases rv)" "?pp (world s) p" "phase_handled P p (ph_Objects p) s t"
    by (auto simp: rev_map list_ex_iff)
  then show ?thesis
  proof cases
    case (2 p)
    have "length (filter (?pp (world u)) (rev_Phases rv)) < length (filter (?pp (world s)) (rev_Phases rv))"
      if u: "deletions_finish P s t u" for u
    proof (rule filter_length_less [where y = p])
      show "?pp (world s) q" if "?pp (world u) q" for q
        using that u 2(1) unfolding list_ex_iff deletions_finish_def settles_def by blast
      show "\<not> ?pp (world u) p"
        using u 2(4) by (auto simp: list_ex_iff deletions_finish_def phase_handled_def handled_def)
    qed (use 2(2,3) in auto)
    with 2(2,3) show ?thesis by (auto simp: pending_phases_def P_def filter_empty_conv)
  qed simp
qed

text \<open>C11: a teardown that is repeated ends. Suppose every run returns without an error; no read and no
  request of the teardown, and nothing between two runs, puts an object back under the control of
  the revision; and the deletions a run asked for are finished before the next one. Then among the
  first \<open>N + 1\<close> runs, where \<open>N\<close> is at least the number of phases that still hold objects to delete,
  there is one that reports complete with all phases gone.\<close>

theorem repeated_teardown_terminates:
  assumes "no_new_pending cl (revision_pending cl api e rv opts) (revision_sends api e rv opts)"
    and "length (pending_phases cl api e rv opts (world (s 0))) \<le> N"
    and "\<And>i. i \<le> N \<Longrightarrow>
      RevisionEngine_Teardown (revisionEngine_of cl api va e v w) rv opts (s i) = (Val (Some (r i), None), t i)"
    and "\<And>i. i < N \<Longrightarrow> deletions_finish (revision_pending cl api e rv opts) (s i) (t i) (s (Suc i))"
  shows "\<exists>i\<le>N. revisionTeardownResult_IsComplete (r i) \<and> rt_gone (r i) = map ph_Name (rev_Phases rv)"
proof (rule measure_reaches [where f = "\<lambda>i. length (pending_phases cl api e rv opts (world (s i)))"])
  note progress = teardown_run_progress [OF assms(1) assms(3)]
  show "(revisionTeardownResult_IsComplete (r i) \<and> rt_gone (r i) = map ph_Name (rev_Phases rv)) \<or>
      length (pending_phases cl api e rv opts (world (s i))) \<noteq> 0" if "i \<le> N" for i
    using progress [OF that] by (auto simp: revisionTeardownResult_IsComplete_def)
  show "(revisionTeardownResult_IsComplete (r i) \<and> rt_gone (r i) = map ph_Name (rev_Phases rv)) \<or>
      length (pending_phases cl api e rv opts (world (s (Suc i)))) <
      length (pending_phases cl api e rv opts (world (s i)))" if "i < N" for i
    using progress [of i] assms(4) [OF that] that by (auto simp: revisionTeardownResult_IsComplete_def)
qed (rule assms(2))

subsection \<open>A teardown in two runs\<close>

lemma stored_filter:
  "stored o' (filter (\<lambda>x. ToObjectRef x \<noteq> ToObjectRef obj) w) =
    (if ToObjectRef o' = ToObjectRef obj then None else stored o' w)"
  by (induction w) (auto simp: stored_def)

lemma sample_teardown_opts_empty: "revision_teardown_opts [] sample_rollout sample_phase obj = []"
  by (simp add: revision_teardown_opts_def sample_rollout_def NewRevision_def sample_phase_def NewPhase_def
      RevisionTeardownOptions_ForPhase_def revision_teardown_options_def zero_RevisionTeardownOptions_def
      PhaseTeardownOptions_ForObject_def phase_teardown_options_def zero_PhaseTeardownOptions_def list_at_def)

lemma no_owner_options:
  "object_teardown_options [] = zero_ObjectTeardownOptions" "td_Owner zero_ObjectTeardownOptions = None"
  "orphaning api zero_ObjectTeardownOptions = False" "TeardownWriter zero_ObjectTeardownOptions = None"
  "ObjectTeardownOptions_Default zero_ObjectTeardownOptions = Val zero_ObjectTeardownOptions"
  by (simp_all add: object_teardown_options_def zero_ObjectTeardownOptions_def orphaning_def
      ObjectTeardownOptions_Default_def)

lemma sample_no_new_pending:
  "no_new_pending sample_cluster (revision_pending sample_cluster sample_api (sample_engine no_diff) sample_rollout [])
    (revision_sends sample_api (sample_engine no_diff) sample_rollout [])"
  unfolding no_new_pending_def
proof (intro conjI allI impI)
  let ?P = "revision_pending sample_cluster sample_api (sample_engine no_diff) sample_rollout []"
  show "?P k w" if "fetch sample_cluster r into w = (x, w')" "?P k w'" for r into w x w' k
    using that by (auto split: option.splits)
  show "?P k w" if "revision_sends sample_api (sample_engine no_diff) sample_rollout [] req"
    "serve sample_cluster wr req w = (x, w')" "?P k w'" for wr req w x w' k
  proof -
    from that(1) obtain pre where req: "req = Delete sample_object pre"
      by (auto simp: revision_sends_def sample_rollout_phases teardown_sends_def sample_teardown_opts_empty
          no_owner_options)
    with that(2) have "w' = w \<or> w' = filter (\<lambda>x. ToObjectRef x \<noteq> ToObjectRef sample_object) w"
      by (auto split: option.splits if_splits)
    with that(3) show ?thesis
      by (cases k) (auto simp: pending_def stored_filter split: option.splits if_splits)
  qed
qed

definition sample_deleting :: "Object list st" where
  "sample_deleting = \<lparr>world = [], sent = [(Writer 0, delete_request sample_object sample_controlled)]\<rparr>"

definition sample_teardown_result :: "bool \<Rightarrow> revisionTeardownResult" where
  "sample_teardown_result gone =
    (if gone
     then \<lparr>rt_phases = [\<lparr>ptr_name = ''deploy'', ptr_gone = [ToObjectRef sample_object], ptr_waiting = []\<rparr>],
           rt_active = [], rt_waiting = [], rt_gone = [''deploy'']\<rparr>
     else \<lparr>rt_phases = [\<lparr>ptr_name = ''deploy'', ptr_gone = [], ptr_waiting = [ToObjectRef sample_object]\<rparr>],
           rt_active = ''deploy'', rt_waiting = [], rt_gone = []\<rparr>)"

lemma sample_object_teardown:
  "ObjectEngine_Teardown sample_cluster sample_api (sample_engine no_diff) 3 sample_object []
     (sample_st [sample_controlled]) = (Val (False, None), sample_deleting)"
  "ObjectEngine_Teardown sample_cluster sample_api (sample_engine no_diff) 3 sample_object []
     sample_deleting = (Val (True, None), sample_deleting)"
proof -
  have m: "may_delete (sample_engine no_diff) 3 zero_ObjectTeardownOptions sample_controlled"
    by (simp add: may_delete_def no_owner_options sample_revisions)
  show "ObjectEngine_Teardown sample_cluster sample_api (sample_engine no_diff) 3 sample_object []
     (sample_st [sample_controlled]) = (Val (False, None), sample_deleting)"
    by (simp add: ObjectEngine_Teardown_def orphaning_def [symmetric] no_owner_options attempt_def read_object_def
        sample_stored may_delete_run [OF m] teardown_delete_run delete_writer_def delete_request_def sample_st_def
        sample_deleting_def)
      (simp add: sample_controlled_def sample_prepared_def sample_object_def ToObjectRef_eq_iff)
  show "ObjectEngine_Teardown sample_cluster sample_api (sample_engine no_diff) 3 sample_object []
     sample_deleting = (Val (True, None), sample_deleting)"
    by (simp add: ObjectEngine_Teardown_def orphaning_def [symmetric] no_owner_options attempt_def read_object_def
        sample_deleting_def stored_def ret_def)
qed

lemma sample_phase_teardown:
  "PhaseEngine_Teardown sample_api sample_phase_engine 3 sample_phase [] (sample_st [sample_controlled]) =
     (Val (\<lparr>ptr_name = ''deploy'', ptr_gone = [], ptr_waiting = [ToObjectRef sample_object]\<rparr>, None), sample_deleting)"
  "PhaseEngine_Teardown sample_api sample_phase_engine 3 sample_phase [] sample_deleting =
     (Val (\<lparr>ptr_name = ''deploy'', ptr_gone = [ToObjectRef sample_object], ptr_waiting = []\<rparr>, None), sample_deleting)"
  by (simp_all add: PhaseEngine_Teardown_def sample_phase_engine_def objectEngine_of_def sample_rollout_phases
      Let_def PhaseTeardownOptions_ForObject_def phase_teardown_options_def zero_PhaseTeardownOptions_def list_at_def
      bind_def sample_object_teardown ret_def errors_Join_def)

lemma sample_teardown_runs:
  "RevisionEngine_Teardown sample_revision_engine sample_rollout [] (sample_st [sample_controlled]) =
     (Val (Some (sample_teardown_result False), None), sample_deleting)"
  "RevisionEngine_Teardown sample_revision_engine sample_rollout [] sample_deleting =
     (Val (Some (sample_teardown_result True), None), sample_deleting)"
  by (simp_all add: RevisionEngine_Teardown_def sample_revision_engine_def sample_rollout_phases Let_def
      phaseEngine_ops_def RevisionTeardownOptions_ForPhase_def revision_teardown_options_def
      zero_RevisionTeardownOptions_def list_at_def bind_def ret_def sample_phase_teardown [unfolded sample_phase_engine_def]
      phaseTeardownResult_IsComplete_def sample_teardown_result_def)

theorem repeated_teardown_terminates_witness:
  "RevisionEngine_Teardown sample_revision_engine sample_rollout [] (sample_st [sample_controlled]) =
     (Val (Some (sample_teardown_result False), None), sample_deleting) \<and>
   RevisionEngine_Teardown sample_revision_engine sample_rollout [] sample_deleting =
     (Val (Some (sample_teardown_result True), None), sample_deleting) \<and>
   (\<exists>i\<le>(1::nat). revisionTeardownResult_IsComplete (sample_teardown_result (i = 1)) \<and>
     rt_gone (sample_teardown_result (i = 1)) = [''deploy''])"
proof -
  let ?E = "sample_engine no_diff"
  let ?s = "\<lambda>i::nat. if i = 0 then sample_st [sample_controlled] else sample_deleting"
  have len: "length (pending_phases sample_cluster sample_api ?E sample_rollout [] (world (?s 0))) \<le> 1"
    using length_filter_le [of _ "[sample_phase]"] by (simp add: pending_phases_def sample_rollout_phases)
  have runs: "RevisionEngine_Teardown sample_revision_engine sample_rollout [] (?s i) =
      (Val (Some (sample_teardown_result (i = 1)), None), sample_deleting)" if "i \<le> 1" for i
    using that sample_teardown_runs by (cases i) auto
  have finish: "deletions_finish (revision_pending sample_cluster sample_api ?E sample_rollout [])
      (?s i) sample_deleting (?s (Suc i))" for i
    by (auto simp: deletions_finish_def sample_deleting_def pending_def stored_def split: if_splits)
  show ?thesis
    using repeated_teardown_terminates [OF sample_no_new_pending len runs [unfolded sample_revision_engine_def] finish]
      sample_teardown_runs
    by (simp add: sample_rollout_phases)
qed

end
