(* ===== verification/Conformance.thy ===== *)
theory Conformance
  imports RevisionEngine "HOL-Library.Sublist"
begin

text \<open>
  The types of the results. Go gives every object result the same interface; which struct stands
  behind it, which action that struct carries, which object it is about and which options and probes
  it was made with is a convention of \<open>machinery/results.go\<close> that the consumers of a result rely on.
  \<open>result_typed\<close> states the convention, and the theorems show that all results of all three engines
  follow it.
\<close>

section \<open>The typing of a result\<close>

text \<open>The action of a result is the one its struct stands for.\<close>

fun result_tagged :: "ObjectResult \<Rightarrow> bool" where
  "result_tagged (ObjectResultCreated obj pr options) = True"
| "result_tagged (ObjectResultUpdated n) = (nr_action n = ActionUpdated)"
| "result_tagged (ObjectResultProgressed n) = (nr_action n = ActionProgressed)"
| "result_tagged (ObjectResultIdle n) = (nr_action n = ActionIdle)"
| "result_tagged (ObjectResultRecovered n) = (nr_action n = ActionRecovered)"
| "result_tagged (ObjectResultCollision n ref) = (nr_action n = ActionCollision)"

definition result_typed :: "ObjectRef \<Rightarrow> ObjectReconcileOptions \<Rightarrow> ObjectResult \<Rightarrow> bool" where
  "result_typed ref options res \<longleftrightarrow>
    result_tagged res \<and> probed options res \<and> ToObjectRef (result_Object res) = ref"

lemma new_result_typed:
  "newObjectResultCreated obj options = Val r \<Longrightarrow> result_typed (ToObjectRef obj) options r"
  "newObjectResultUpdated obj cr options = Val r \<Longrightarrow> result_typed (ToObjectRef obj) options r"
  "newObjectResultProgressed obj cr options = Val r \<Longrightarrow> result_typed (ToObjectRef obj) options r"
  "newObjectResultIdle obj cr options = Val r \<Longrightarrow> result_typed (ToObjectRef obj) options r"
  "newObjectResultRecovered obj cr options = Val r \<Longrightarrow> result_typed (ToObjectRef obj) options r"
  "newObjectResultConflict obj cr owner options = Val r \<Longrightarrow> result_typed (ToObjectRef obj) options r"
  unfolding result_typed_def probed_def by (auto simp: new_result_defs obind_eq_Val)

lemma yields_new_result:
  "ToObjectRef obj = ref \<Longrightarrow> yields (result_typed ref options) (lift (newObjectResultCreated obj options))"
  "ToObjectRef obj = ref \<Longrightarrow> yields (result_typed ref options) (lift (newObjectResultUpdated obj cr options))"
  "ToObjectRef obj = ref \<Longrightarrow> yields (result_typed ref options) (lift (newObjectResultProgressed obj cr options))"
  "ToObjectRef obj = ref \<Longrightarrow> yields (result_typed ref options) (lift (newObjectResultIdle obj cr options))"
  "ToObjectRef obj = ref \<Longrightarrow> yields (result_typed ref options) (lift (newObjectResultRecovered obj cr options))"
  "ToObjectRef obj = ref \<Longrightarrow>
    yields (result_typed ref options) (lift (newObjectResultConflict obj cr owner options))"
  by (auto intro!: yields_lift dest: new_result_typed)

section \<open>The object engine\<close>

lemma yields_bind_typed:
  assumes "yields Q m" and "\<And>x. Q x \<Longrightarrow> yields P (f x)"
  shows "yields P (bind m f)"
  using assms by (fastforce simp: yields_def bind_eq_Val)

lemma yields_wrap_err: "yields P m \<Longrightarrow> yields P (wrap_err w m)"
  by (simp add: yields_def)

lemma yields_migrate:
  assumes "well_behaved cl"
  shows "yields (\<lambda>obj'. ToObjectRef obj' = ToObjectRef obj) (migrateFieldManagersToSSA cl api e obj options)"
  using send_ref [OF assms]
  by (force simp: yields_def migrateFieldManagersToSSA_def ret_def fail_def split: if_splits sum.splits)

lemma yields_apply:
  assumes "well_behaved cl"
  shows "yields (\<lambda>obj'. ToObjectRef obj' = ToObjectRef d) (apply_object cl api e d actual options force)"
  unfolding apply_object_def Let_def
  by (rule yields_if, simp add: yields_ret, rule yields_bind)
    (auto simp: yields_def fail_def dest!: send_ref [OF assms] split: object_repr.splits)

text \<open>What the engine needs to know of the options: their owner strategy only touches owners.\<close>

definition options_frame :: "ObjectEngine \<Rightarrow> string set \<Rightarrow> ObjectReconcileOptions \<Rightarrow> bool" where
  "options_frame e K options \<longleftrightarrow> revisionAnnotation e \<notin> K \<and>
    (\<forall>S. OwnerStrategyOpt options = Some S \<longrightarrow> strategy_frames S K)"

lemma options_frameD:
  assumes "options_frame e K options"
  shows "revisionAnnotation e \<notin> K" "OwnerStrategyOpt options = Some S \<Longrightarrow> strategy_frames S K"
  using assms by (simp_all add: options_frame_def)

lemma yields_adoption_typed:
  assumes "well_behaved cl" "options_frame e K options" "marked e n d"
    and "ToObjectRef d = ref" "ToObjectRef actual = ref"
  shows "yields (result_typed ref options) (objectAdoptionHandling cl api e cr n d actual options)"
proof -
  have d': "ToObjectRef d' = ref" if "adopted_object e n d actual options = Val d'" for d'
    using adopted_object_marked [OF that assms(3) options_frameD(2,1) [OF assms(2)]] assms(4) by simp
  have "yields (\<lambda>d'. ToObjectRef d' = ref) (lift (adopted_object e n d actual options))"
    by (rule yields_lift) (rule d')
  then show ?thesis
    unfolding objectAdoptionHandling_def
    by (rule yields_bind_typed)
      (auto intro!: yields_bind_typed [OF yields_wrap_err [OF yields_apply [OF assms(1)]]] yields_if
         yields_new_result simp: assms(5))
qed

lemma yields_update_typed:
  assumes "well_behaved cl" "options_frame e K options" "marked e n d"
    and "ToObjectRef d = ref" "ToObjectRef actual = ref"
  shows "yields (result_typed ref options) (objectUpdateHandling cl api e n d actual options)"
  unfolding objectUpdateHandling_def Let_def
  by (intro yields_bind yields_case_prod yields_case_ctrl yields_if yields_new_result
      yields_adoption_typed [OF assms] assms(5)
      yields_bind_typed [OF yields_wrap_err [OF yields_apply [OF assms(1)]]])
    (simp_all add: assms(4))

lemma yields_create_typed:
  assumes "well_behaved cl" "options_frame e K options" "marked e n d" "ToObjectRef d = ref"
  shows "yields (result_typed ref options) (reconcile_create cl api e n d options)"
proof (rule yieldsI)
  fix s res s'
  assume "reconcile_create cl api e n d options s = (Val res, s')"
  then obtain wo err d' s1 where c: "send_raw cl (writer e) (Create d wo) s = (Val (err, d'), s1)"
    and r: "reconcile_created cl api e n options (err, d') s1 = (Val res, s')"
    unfolding reconcile_create_eq by (auto simp: bind_eq_Val)
  show "result_typed ref options res"
  proof (cases err)
    case None
    have "ToObjectRef d' = ref" using send_raw_ref [OF assms(1) c] assms(4) by simp
    then have "yields (result_typed ref options) (reconcile_created cl api e n options (None, d'))"
      unfolding reconcile_created_def prod.case option.case
      by (intro yields_bind_typed [OF yields_wrap_err [OF yields_migrate [OF assms(1)]]] yields_new_result) simp
    from yieldsD [OF this] r None show ?thesis by blast
  next
    case (Some er)
    with c send_raw_failed_create [OF assms(1)] have d': "d' = d" by blast
    have rd: "yields (\<lambda>actual. ToObjectRef actual = ref) (read_object cl reader d)" for reader
      using read_object_ref [OF assms(1)] assms(4) by (auto simp: yields_def)
    have "yields (result_typed ref options) (reconcile_created cl api e n options (Some er, d))"
      unfolding reconcile_created_def prod.case option.case
      by (intro yields_if yields_fail yields_case_option yields_bind_typed [OF yields_wrap_err [OF rd]]
          yields_update_typed [OF assms(1-4)])
    from yieldsD [OF this] r Some d' show ?thesis by blast
  qed
qed

lemma yields_Reconcile_typed:
  assumes "well_behaved cl" "options_frame e K (object_reconcile_options opts)"
    and "ObjectReconcileOptions_Default (object_reconcile_options opts) = Val options"
  shows "yields (result_typed (ToObjectRef (Reconcile_caller_object api e obj)) options)
    (ObjectEngine_Reconcile cl api e n obj opts)"
proof (rule yieldsI)
  fix s res s'
  let ?ref = "ToObjectRef (Reconcile_caller_object api e obj)"
  assume run: "ObjectEngine_Reconcile cl api e n obj opts s = (Val res, s')"
  have fr: "options_frame e K options"
    using assms(2) Default_Owner [OF assms(3)] by (simp add: options_frame_def)
  note d = prepare_desired_marked [OF _ options_frameD(2,1) [OF fr]]
  from run show "result_typed ?ref options res"
  proof (cases rule: Reconcile_cases)
    case (create options' d s1 err)
    with assms(3) have "options' = options" by simp
    with create d [of api n obj] have "marked e n d" "ToObjectRef d = ?ref" by blast+
    from yieldsD [OF yields_create_typed [OF assms(1) fr this]] create(6) \<open>options' = options\<close>
    show ?thesis by blast
  next
    case (update options' d s1 actual)
    with assms(3) have "options' = options" by simp
    with update d [of api n obj] have m: "marked e n d" "ToObjectRef d = ?ref" by blast+
    with read_object_ref [OF assms(1) update(3)] have "ToObjectRef actual = ?ref" by simp
    from yieldsD [OF yields_update_typed [OF assms(1) fr m this]] update(5) \<open>options' = options\<close>
    show ?thesis by blast
  qed auto
qed

section \<open>The phase engine and the revision engine\<close>

text \<open>\<open>object_typed oe_opts api e\<close>: a result for an object, made with the options \<open>oe_opts\<close> gives it.\<close>

definition object_typed ::
  "(Object \<Rightarrow> ObjectReconcileOption list) \<Rightarrow> apimachinery \<Rightarrow> ObjectEngine \<Rightarrow> Object \<Rightarrow> ObjectResult \<Rightarrow> bool" where
  "object_typed oe_opts api e obj res \<longleftrightarrow>
    (\<exists>options. ObjectReconcileOptions_Default (object_reconcile_options (oe_opts obj)) = Val options \<and>
       result_typed (ToObjectRef (Reconcile_caller_object api e obj)) options res)"

lemma Reconcile_object_typed:
  assumes "well_behaved cl" "options_frame e K (object_reconcile_options (oe_opts obj))"
    and "ObjectEngine_Reconcile cl api e n obj (oe_opts obj) s = (Val res, s')"
  shows "object_typed oe_opts api e obj res"
proof -
  obtain options where "ObjectReconcileOptions_Default (object_reconcile_options (oe_opts obj)) = Val options"
    using yieldsD [OF yields_Reconcile assms(3)] by blast
  with yieldsD [OF yields_Reconcile_typed [OF assms(1,2) this] assms(3)] show ?thesis
    by (auto simp: object_typed_def)
qed

text \<open>With errors aggregated, the results are those of a part of the objects; without an error they
  are those of all of them.\<close>

lemma reconcile_objects_typed:
  assumes "well_behaved cl"
    and "\<And>obj. obj \<in> set objs \<Longrightarrow>
      options_frame e K (object_reconcile_options (PhaseReconcileOptions_ForObject options obj))"
    and "reconcile_objects api (objectEngine_of cl api e) n options objs results errs s =
      (Val (results', err), s')"
  shows "\<exists>objs' new. results' = results @ new \<and> subseq objs' objs \<and>
      list_all2 (object_typed (PhaseReconcileOptions_ForObject options) api e) objs' new"
  using assms(2,3)
proof (induction objs arbitrary: results errs s)
  case Nil
  then show ?case by (auto simp: ret_def)
next
  case (Cons obj objs)
  let ?T = "object_typed (PhaseReconcileOptions_ForObject options) api e"
  obtain q s1 where q: "ObjectEngine_Reconcile cl api e n obj (PhaseReconcileOptions_ForObject options obj) s = (q, s1)"
    by fastforce
  note IH = Cons.IH [OF Cons.prems(1) [OF list.set_intros(2)]]
  show ?case
  proof (cases q)
    case (Val ores)
    with Cons.prems(2) q have "reconcile_objects api (objectEngine_of cl api e) n options objs (results @ [ores]) errs s1 =
        (Val (results', err), s')"
      by (simp add: attempt_def objectEngine_of_def)
    from IH [OF _ this] obtain objs' new where
      "results' = (results @ [ores]) @ new" "subseq objs' objs" "list_all2 ?T objs' new" by blast
    moreover have "?T obj ores"
      using Reconcile_object_typed [OF assms(1) Cons.prems(1)] q Val by simp
    ultimately show ?thesis
      by (intro exI [of _ "obj # objs'"] exI [of _ "ores # new"]) simp
  next
    case (Fail er)
    show ?thesis
    proof (cases "pr_AggregateErrors options \<and>
        \<not> IsTooManyRequests api (WrapRef ''reconciling'' (ToObjectRef (Reconcile_caller_object api e obj)) er)")
      case True
      with Cons.prems(2) q Fail have "reconcile_objects api (objectEngine_of cl api e) n options objs results
          (errs @ [WrapRef ''reconciling'' (ToObjectRef (Reconcile_caller_object api e obj)) er]) s1 =
          (Val (results', err), s')"
        by (simp add: attempt_def objectEngine_of_def Let_def)
      from IH [OF _ this] show ?thesis by (blast intro: list_emb_Cons)
    next
      case False
      with Cons.prems(2) q Fail have "results' = results"
        by (auto simp: attempt_def objectEngine_of_def Let_def ret_def split: if_splits)
      then show ?thesis by (intro exI [of _ "[]"]) simp
    qed
  qed (use Cons.prems(2) q in \<open>simp add: attempt_def objectEngine_of_def\<close>)
qed

definition phase_typed ::
  "apimachinery \<Rightarrow> ObjectEngine \<Rightarrow> (phase \<Rightarrow> Object \<Rightarrow> ObjectReconcileOption list) \<Rightarrow> phase \<Rightarrow> phaseResult \<Rightarrow> bool" where
  "phase_typed api e oe_opts p pres \<longleftrightarrow> pr_name pres = ph_Name p \<and>
    (if pr_validationError pres = None
     then list_all2 (object_typed (oe_opts p) api e) (ph_Objects p) (pr_objects pres)
     else pr_objects pres = [])"

lemma subseq_full: "subseq xs ys \<Longrightarrow> length xs = length ys \<Longrightarrow> xs = ys"
  using subseq_same_length by blast

lemma PhaseEngine_typed:
  assumes "well_behaved cl"
    and "\<And>obj. obj \<in> set (ph_Objects p) \<Longrightarrow> options_frame e K (object_reconcile_options
      (PhaseReconcileOptions_ForObject (phase_reconcile_options (opts @ ph_ReconcileOptions p)) obj))"
    and run: "PhaseEngine_Reconcile api (phaseEngine_of cl api va e v) n p opts s = (Val (pres, None), s')"
  shows "phase_typed api e
    (\<lambda>p. PhaseReconcileOptions_ForObject (phase_reconcile_options (opts @ ph_ReconcileOptions p))) p pres"
proof -
  obtain verr s1 where q: "PhaseValidator_Validate cl api va v p (opts @ ph_ReconcileOptions p) s = (Val verr, s1)"
    using run by (auto simp: PhaseEngine_Reconcile_def Let_def bind_eq_Val)
  show ?thesis
  proof (cases verr)
    case None
    with q run obtain results where results: "reconcile_objects api (objectEngine_of cl api e) n
        (phase_reconcile_options (opts @ ph_ReconcileOptions p)) (ph_Objects p) [] [] s1 = (Val (results, None), s')"
      and pres: "pres = \<lparr>pr_name = ph_Name p, pr_validationError = None, pr_objects = results\<rparr>"
      by (auto simp: PhaseEngine_Reconcile_def Let_def bind_eq_Val ret_def)
    from reconcile_objects_typed [OF assms(1,2) results] obtain objs' where objs': "subseq objs' (ph_Objects p)"
      "list_all2 (object_typed (PhaseReconcileOptions_ForObject
         (phase_reconcile_options (opts @ ph_ReconcileOptions p))) api e) objs' results" by auto
    have "length results = length (ph_Objects p)" using reconcile_objects_results [OF results] by auto
    with list_all2_lengthD [OF objs'(2)] subseq_full [OF objs'(1)] have "objs' = ph_Objects p" by simp
    with objs' pres show ?thesis by (simp add: phase_typed_def)
  next
    case (Some er)
    with q run show ?thesis
      by (cases "errors_As as_PtrPhaseValidation er")
        (auto simp: PhaseEngine_Reconcile_def Let_def bind_def ret_def phase_typed_def)
  qed
qed

text \<open>The options the engine of a revision passes on for an object of a phase.\<close>

definition revision_object_opts ::
  "RevisionReconcileOption list \<Rightarrow> revision \<Rightarrow> phase \<Rightarrow> Object \<Rightarrow> ObjectReconcileOption list" where
  "revision_object_opts opts rv p obj =
    PhaseReconcileOptions_ForObject
      (phase_reconcile_options
        (RevisionReconcileOptions_ForPhase (revision_reconcile_options (opts @ rev_ReconcileOptions rv)) (ph_Name p) @
         ph_ReconcileOptions p)) obj"

text \<open>C14: every result of a rollout has the type its consumers expect. The results are those of the
  first phases, in order; a phase that preflight rejected has no object results, and any other has
  one for each of its objects, in order. Each of these is about the object at its position, its
  action is the one of its struct, it carries the options that the revision, the phase and the
  object options give this object, defaults filled in, and its probe results are those of exactly
  these probes on the very object it carries.\<close>

theorem RevisionEngine_results_typed:
  assumes "well_behaved cl"
    and "\<And>p obj. p \<in> set (rev_Phases rv) \<Longrightarrow> obj \<in> set (ph_Objects p) \<Longrightarrow>
      options_frame e K (object_reconcile_options (revision_object_opts opts rv p obj))"
    and "RevisionEngine_Reconcile (revisionEngine_of cl api va e v w) rv opts s = (Val (rres, err), s')"
  shows "rr_phases rres = map ph_Name (rev_Phases rv) \<and>
    list_all2 (phase_typed api e (revision_object_opts opts rv))
      (take (length (rr_phasesResults rres)) (rev_Phases rv)) (rr_phasesResults rres)"
  using assms(3)
proof (cases rule: Reconcile_Val_cases)
  case (valid results)
  have "\<exists>new. results = [] @ new \<and>
      list_all2 (phase_typed api e (revision_object_opts opts rv)) (take (length new) (rev_Phases rv)) new"
  proof (rule reconcile_phases_all [OF _ valid(5)])
    fix p pres s s'
    assume "p \<in> set (rev_Phases rv)" and "pe_Reconcile (re_phaseEngine (revisionEngine_of cl api va e v w))
      (rev_Revision rv) p (RevisionReconcileOptions_ForPhase
        (revision_reconcile_options (opts @ rev_ReconcileOptions rv)) (ph_Name p)) s = (Val (pres, None), s')"
    with PhaseEngine_typed [OF assms(1) assms(2) [unfolded revision_object_opts_def]]
    show "phase_typed api e (revision_object_opts opts rv) p pres"
      by (simp add: phaseEngine_ops_def phase_typed_def revision_object_opts_def [abs_def])
  qed
  with valid(3,4) show ?thesis by simp
qed simp

lemma sample_frame: "options_frame (sample_engine cr) {} (object_reconcile_options (sample_opts p))"
  by (simp add: options_frame_def object_reconcile_options_def sample_opts_def sample_strategy_def
      sample_native_frames)

theorem RevisionEngine_results_typed_witness:
  "list_all2 (phase_typed sample_api (sample_engine no_diff) (revision_object_opts sample_rollout_opts sample_rollout))
     [sample_phase] (rr_phasesResults sample_rollout_result) \<and>
   object_typed (revision_object_opts sample_rollout_opts sample_rollout sample_phase) sample_api
     (sample_engine no_diff) sample_object sample_idle"
proof -
  have p: "rr_phasesResults sample_rollout_result =
      [\<lparr>pr_name = ''deploy'', pr_validationError = None, pr_objects = [sample_idle]\<rparr>]"
    by (simp add: sample_rollout_result_def)
  have "revision_object_opts sample_rollout_opts sample_rollout sample_phase obj =
      sample_opts CollisionProtectionPrevent" for obj
    by (simp add: revision_object_opts_def sample_rollout_phases sample_rollout_opts_def del: map_map list.map_comp)
  then have "list_all2 (phase_typed sample_api (sample_engine no_diff)
      (revision_object_opts sample_rollout_opts sample_rollout)) [sample_phase] (rr_phasesResults sample_rollout_result)"
    using RevisionEngine_results_typed [OF sample_cluster_well_behaved _
        sample_rollout_run [unfolded sample_revision_engine_def], of "{}"] sample_frame
    by (simp add: p sample_rollout_phases)
  then show ?thesis by (simp add: p sample_rollout_phases phase_typed_def)
qed

end
