(* ===== verification/RolloutRuns.thy ===== *)
theory RolloutRuns
  imports Conformance
begin

text \<open>
  Repeated rollouts, as a controller makes them that builds the revision anew for every run, like the
  reference controller. \<open>phase_at_rest\<close> says what the cluster must look like
  for a phase to need nothing; a revision of such phases is passed without a change, however often it
  is reconciled, and a cluster that brings every phase the engine acted on to rest lets the rollout
  complete in a number of runs bounded by the number of phases.
\<close>

section \<open>A revision that is rolled out\<close>

text \<open>The object is controlled, as desired, contested by nobody, and its probes succeed; reading it
  leaves the world alone.\<close>

definition object_at_rest ::
  "'w cluster \<Rightarrow> apimachinery \<Rightarrow> ObjectEngine \<Rightarrow> int \<Rightarrow> ObjectReconcileOption list \<Rightarrow> Object \<Rightarrow> 'w \<Rightarrow> bool" where
  "object_at_rest cl api e revision opts obj w \<longleftrightarrow>
    (\<forall>s. world s = w \<longrightarrow> (\<exists>ob pr. observes cl api e revision obj opts s ob s \<and>
       ob_situation ob = ctrlSituationIsController \<and>
       \<not> IsConflict (ob_compare ob) \<and> CompareResult_Modified (ob_compare ob) = [] \<and>
       runProbes (ob_actual ob) (Probes (ob_options ob)) = Val pr \<and> isComplete ActionIdle pr (ob_options ob)))"

text \<open>Documented behaviour of the API server: a dry run changes nothing.\<close>

definition dry_runs_change_nothing :: "'w cluster \<Rightarrow> bool" where
  "dry_runs_change_nothing cl \<longleftrightarrow>
    (\<forall>wr req w x w'. is_dry_run req \<longrightarrow> serve cl wr req w = (x, w') \<longrightarrow> w' = w)"

definition only_checks :: "'w st \<Rightarrow> 'w st \<Rightarrow> bool" where
  "only_checks s t \<longleftrightarrow> world t = world s \<and> emits (\<lambda>wr. is_dry_run (snd wr)) s t"

lemma only_checks_refl: "only_checks s s"
  by (simp add: only_checks_def emits_refl)

lemma only_checks_trans: "only_checks s t \<Longrightarrow> only_checks t u \<Longrightarrow> only_checks s u"
  by (auto simp: only_checks_def intro: emits_trans)

interpretation ck: effect_relation "only_checks"
  by unfold_locales (rule only_checks_refl, erule (1) only_checks_trans)

lemma validator_checks:
  assumes "dry_runs_change_nothing cl"
  shows "ck.keeps (PhaseValidator_Validate cl api va v p opts)"
proof -
  have send: "ck.keeps (send_raw cl wr req)" if "is_dry_run req" for wr req
    using assms that
    by (intro ck.keepsI) (auto simp: send_raw_def only_checks_def emits_def dry_runs_change_nothing_def split: prod.splits)
  have dry: "ck.keeps (validateDryRun cl api va w obj)" for w obj
    unfolding validateDryRun_def
    by (intro ck.keeps_rules ck.keeps_case send) (simp_all add: dry_run_patch_opts_def dry_run_create_opts_def)
  have obj: "ck.keeps (ObjectValidator_Validate cl api va d obj opts)" for d obj opts
    unfolding ObjectValidator_Validate_def Let_def by (intro ck.keeps_rules ck.keeps_case dry)
  have "ck.keeps (validate_objects (\<lambda>obj. ObjectValidator_Validate cl api va d obj (f obj)) objs oerrs errs)"
    for d f objs oerrs errs
    by (induction objs arbitrary: oerrs errs) (auto intro!: ck.keeps_rules ck.keeps_case obj)
  then show ?thesis
    unfolding PhaseValidator_Validate_def Let_def by (intro ck.keeps_rules ck.keeps_case)
qed

definition idle_result :: "ObjectResult \<Rightarrow> bool" where
  "idle_result res \<longleftrightarrow> result_Action res = ActionIdle \<and> result_IsComplete res"

lemma object_at_rest_idle:
  assumes "object_at_rest cl api e n opts obj (world s)"
  shows "\<exists>res. ObjectEngine_Reconcile cl api e n obj opts s = (Val res, s) \<and> idle_result res"
proof -
  obtain ob pr where ob: "observes cl api e n obj opts s ob s" "ob_situation ob = ctrlSituationIsController"
    "\<not> IsConflict (ob_compare ob)" "CompareResult_Modified (ob_compare ob) = []"
    and pr: "runProbes (ob_actual ob) (Probes (ob_options ob)) = Val pr" "isComplete ActionIdle pr (ob_options ob)"
    using assms by (auto simp: object_at_rest_def)
  show ?thesis
    unfolding observes_idle [OF ob] using pr
    by (simp add: new_result_defs idle_result_def result_IsComplete_def)
qed

lemma reconcile_objects_idle:
  assumes "\<And>obj. obj \<in> set objs \<Longrightarrow>
      object_at_rest cl api e n (PhaseReconcileOptions_ForObject options obj) obj (world s)"
  shows "\<exists>new. reconcile_objects api (objectEngine_of cl api e) n options objs results [] s =
      (Val (results @ new, None), s) \<and> length new = length objs \<and> list_all idle_result new"
  using assms
proof (induction objs arbitrary: results)
  case Nil
  then show ?case by (simp add: ret_def errors_Join_def)
next
  case (Cons obj objs)
  obtain res where res: "ObjectEngine_Reconcile cl api e n obj (PhaseReconcileOptions_ForObject options obj) s =
      (Val res, s)" "idle_result res"
    using object_at_rest_idle [OF Cons.prems [OF list.set_intros(1)]] by blast
  obtain new where "reconcile_objects api (objectEngine_of cl api e) n options objs (results @ [res]) [] s =
      (Val ((results @ [res]) @ new, None), s)" "length new = length objs" "list_all idle_result new"
    using Cons.IH [OF Cons.prems [OF list.set_intros(2)]] by blast
  with res show ?case
    by (intro exI [of _ "res # new"]) (simp add: attempt_def objectEngine_of_def)
qed

text \<open>What a phase needs to be at rest: preflight accepts it and its objects are up to date.\<close>

definition phase_at_rest ::
  "'w cluster \<Rightarrow> apimachinery \<Rightarrow> validation_api \<Rightarrow> ObjectEngine \<Rightarrow> PhaseValidator \<Rightarrow> int \<Rightarrow>
    PhaseReconcileOption list \<Rightarrow> phase \<Rightarrow> 'w \<Rightarrow> bool" where
  "phase_at_rest cl api va e v n opts p w \<longleftrightarrow>
    (\<forall>s. world s = w \<longrightarrow> fst (PhaseValidator_Validate cl api va v p (opts @ ph_ReconcileOptions p) s) = Val None) \<and>
    (\<forall>obj\<in>set (ph_Objects p). object_at_rest cl api e n
       (PhaseReconcileOptions_ForObject (phase_reconcile_options (opts @ ph_ReconcileOptions p)) obj) obj w)"

definition idle_phase :: "phase \<Rightarrow> phaseResult \<Rightarrow> bool" where
  "idle_phase p pres \<longleftrightarrow> pr_validationError pres = None \<and> length (pr_objects pres) = length (ph_Objects p) \<and>
    list_all idle_result (pr_objects pres)"

lemma idle_phase_complete: "idle_phase p pres \<Longrightarrow> phaseResult_IsComplete pres \<and> \<not> phaseResult_InTransition pres"
  by (auto simp: idle_phase_def phaseResult_IsComplete_def phaseResult_InTransition_def idle_result_def
      list_all_iff list_ex_iff)

lemma phase_idle:
  assumes "dry_runs_change_nothing cl" "phase_at_rest cl api va e v n opts p (world s)"
  shows "\<exists>pres s'. PhaseEngine_Reconcile api (phaseEngine_of cl api va e v) n p opts s = (Val (pres, None), s') \<and>
    only_checks s s' \<and> idle_phase p pres"
proof -
  obtain s1 where v: "PhaseValidator_Validate cl api va v p (opts @ ph_ReconcileOptions p) s = (Val None, s1)"
    using assms(2) unfolding phase_at_rest_def by (metis prod.collapse)
  have c: "only_checks s s1" by (rule ck.keepsD [OF validator_checks [OF assms(1)] v])
  then have "world s1 = world s" by (simp add: only_checks_def)
  with assms(2) reconcile_objects_idle [of "ph_Objects p" cl api e n
      "phase_reconcile_options (opts @ ph_ReconcileOptions p)" s1 "[]"]
  obtain new where "reconcile_objects api (objectEngine_of cl api e) n
      (phase_reconcile_options (opts @ ph_ReconcileOptions p)) (ph_Objects p) [] [] s1 = (Val (new, None), s1)"
    "length new = length (ph_Objects p)" "list_all idle_result new"
    by (auto simp: phase_at_rest_def)
  with v c show ?thesis by (simp add: PhaseEngine_Reconcile_def Let_def bind_def ret_def idle_phase_def)
qed

text \<open>Phases at rest are passed without a change.\<close>

lemma reconcile_phases_prefix:
  assumes "dry_runs_change_nothing cl"
    and "\<And>p. p \<in> set ps \<Longrightarrow> phase_at_rest cl api va e v n
      (RevisionReconcileOptions_ForPhase options (ph_Name p)) p (world s)"
  shows "\<exists>new s1. list_all2 idle_phase ps new \<and> only_checks s s1 \<and>
    reconcile_phases (phaseEngine_ops api (phaseEngine_of cl api va e v)) n options (ps @ qs) results s =
    reconcile_phases (phaseEngine_ops api (phaseEngine_of cl api va e v)) n options qs (results @ new) s1"
  using assms(2)
proof (induction ps arbitrary: results s)
  case Nil
  then show ?case by (intro exI [of _ "[]"] exI [of _ s]) (simp add: only_checks_refl)
next
  case (Cons p ps)
  from phase_idle [OF assms(1) Cons.prems [OF list.set_intros(1)]] obtain pres s1 where
    p: "PhaseEngine_Reconcile api (phaseEngine_of cl api va e v) n p
        (RevisionReconcileOptions_ForPhase options (ph_Name p)) s = (Val (pres, None), s1)"
    "only_checks s s1" "idle_phase p pres" by blast
  have "world s1 = world s" using p(2) by (simp add: only_checks_def)
  with Cons.IH [of s1 "results @ [pres]"] Cons.prems obtain new s2 where
    "list_all2 idle_phase ps new" "only_checks s1 s2"
    "reconcile_phases (phaseEngine_ops api (phaseEngine_of cl api va e v)) n options (ps @ qs) (results @ [pres]) s1 =
     reconcile_phases (phaseEngine_ops api (phaseEngine_of cl api va e v)) n options qs ((results @ [pres]) @ new) s2"
    by auto
  with p idle_phase_complete [OF p(3)] show ?case
    by (intro exI [of _ "pres # new"] exI [of _ s2])
      (auto simp: phaseEngine_ops_def bind_def intro: only_checks_trans)
qed

text \<open>C13: a revision that is rolled out stays as it is. If preflight accepts the revision and its
  phases, every object is controlled, as desired and contested by nobody, its probes succeed, and
  dry runs change nothing, then reconciling returns without an error; it leaves the world as it was
  and sends nothing but the dry runs of preflight; the result is complete and not in transition, and
  every object of every phase is reported idle. So the run can be repeated with the same outcome.\<close>

theorem rolled_out_revision_is_stable:
  assumes "dry_runs_change_nothing cl"
    and "RevisionValidator_Validate va rv = Val None"
    and "\<And>p. p \<in> set (rev_Phases rv) \<Longrightarrow> phase_at_rest cl api va e v (rev_Revision rv)
      (RevisionReconcileOptions_ForPhase (revision_reconcile_options (opts @ rev_ReconcileOptions rv)) (ph_Name p)) p (world s)"
  shows "\<exists>rres s'. RevisionEngine_Reconcile (revisionEngine_of cl api va e v wr) rv opts s = (Val (rres, None), s') \<and>
    world s' = world s \<and> emits (\<lambda>wr. is_dry_run (snd wr)) s s' \<and>
    revisionResult_IsComplete rres \<and> \<not> revisionResult_InTransition rres \<and>
    list_all2 (\<lambda>p pres. length (pr_objects pres) = length (ph_Objects p) \<and>
      (\<forall>res\<in>set (pr_objects pres). result_Action res = ActionIdle)) (rev_Phases rv) (rr_phasesResults rres)"
proof -
  obtain new s' where run: "reconcile_phases (phaseEngine_ops api (phaseEngine_of cl api va e v)) (rev_Revision rv)
      (revision_reconcile_options (opts @ rev_ReconcileOptions rv)) (rev_Phases rv) [] s = (Val (new, None), s')"
    "only_checks s s'" and new: "list_all2 idle_phase (rev_Phases rv) new"
    using reconcile_phases_prefix [OF assms(1,3), of "rev_Phases rv" "[]" "[]"] by (auto simp: ret_def)
  let ?rres = "\<lparr>rr_phases = map ph_Name (rev_Phases rv), rr_phasesResults = new, rr_validationError = None\<rparr>"
  have "RevisionEngine_Reconcile (revisionEngine_of cl api va e v wr) rv opts s = (Val (?rres, None), s')"
    using assms(2) run(1) by (simp add: RevisionEngine_Reconcile_def Let_def bind_def lift_def ret_def)
  moreover have len: "length new = length (rev_Phases rv)" using new by (simp add: list_all2_lengthD)
  moreover have "phaseResult_IsComplete pres \<and> \<not> phaseResult_InTransition pres" if "pres \<in> set new" for pres
    using that new idle_phase_complete by (auto simp: list_all2_conv_all_nth in_set_conv_nth)
  then have "revisionResult_IsComplete ?rres" "\<not> revisionResult_InTransition ?rres"
    using len by (auto simp: revisionResult_IsComplete_def revisionResult_InTransition_def list_all_iff list_ex_iff)
  moreover have "list_all2 (\<lambda>p pres. length (pr_objects pres) = length (ph_Objects p) \<and>
      (\<forall>res\<in>set (pr_objects pres). result_Action res = ActionIdle)) (rev_Phases rv) (rr_phasesResults ?rres)"
    using new by (auto simp: idle_phase_def idle_result_def list_all_iff elim!: list_all2_mono)
  ultimately show ?thesis
    using run(2) unfolding only_checks_def by (intro exI [of _ ?rres] exI [of _ s']) simp
qed

lemma sample_dry_runs: "dry_runs_change_nothing sample_cluster"
  unfolding dry_runs_change_nothing_def
proof (intro allI impI)
  fix wr req w x w'
  assume "is_dry_run req" "serve sample_cluster wr req w = (x, w')"
  then show "w' = w" by (cases req) (auto split: option.splits if_splits)
qed

lemma sample_object_at_rest:
  "object_at_rest sample_cluster sample_api (sample_engine no_diff) 3 (sample_opts CollisionProtectionPrevent)
     sample_object [sample_controlled]"
  unfolding object_at_rest_def
proof (intro allI impI)
  fix s :: "Object list st"
  let ?ob = "sample_ob CollisionProtectionPrevent sample_controlled ctrlSituationIsController no_diff
    (Some (sample_ref sample_owner)) 3"
  assume "world s = [sample_controlled]"
  from sample_observes_anytime [OF this]
  show "\<exists>ob pr. observes sample_cluster sample_api (sample_engine no_diff) 3 sample_object
        (sample_opts CollisionProtectionPrevent) s ob s \<and> ob_situation ob = ctrlSituationIsController \<and>
      \<not> IsConflict (ob_compare ob) \<and> CompareResult_Modified (ob_compare ob) = [] \<and>
      runProbes (ob_actual ob) (Probes (ob_options ob)) = Val pr \<and> isComplete ActionIdle pr (ob_options ob)"
    by (intro exI [of _ ?ob] exI [of _ "[]"])
      (simp add: sample_ob_def no_diff_def IsConflict_def CompareResult_Modified_def sample_options_def isComplete_def)
qed

lemma sample_at_rest:
  "phase_at_rest sample_cluster sample_api sample_va (sample_engine no_diff)
     (NewClusterPhaseValidator sample_mapper (Writer 0)) 3 (map PRObject (sample_opts CollisionProtectionPrevent))
     sample_phase [sample_controlled]"
  by (simp add: phase_at_rest_def sample_phase_accepted sample_rollout_phases sample_object_at_rest)

theorem rolled_out_revision_is_stable_witness:
  "\<exists>rres s'. RevisionEngine_Reconcile sample_revision_engine sample_rollout sample_rollout_opts
      (sample_st [sample_controlled]) = (Val (rres, None), s') \<and>
    world s' = [sample_controlled] \<and> revisionResult_IsComplete rres"
  using rolled_out_revision_is_stable [OF sample_dry_runs sample_rollout_valid, of sample_api
      "sample_engine no_diff" "NewClusterPhaseValidator sample_mapper (Writer 0)" sample_rollout_opts
      "sample_st [sample_controlled]" "Writer 0"] sample_at_rest
  by (auto simp: sample_rollout_phases sample_rollout_opts_def sample_revision_engine_def
      simp del: map_map list.map_comp)

section \<open>Repeated rollouts\<close>

definition revision_at_rest ::
  "'w cluster \<Rightarrow> apimachinery \<Rightarrow> validation_api \<Rightarrow> ObjectEngine \<Rightarrow> PhaseValidator \<Rightarrow> revision \<Rightarrow>
    RevisionReconcileOption list \<Rightarrow> 'w \<Rightarrow> phase \<Rightarrow> bool" where
  "revision_at_rest cl api va e v rv opts w p \<longleftrightarrow>
    phase_at_rest cl api va e v (rev_Revision rv)
      (RevisionReconcileOptions_ForPhase (revision_reconcile_options (opts @ rev_ReconcileOptions rv)) (ph_Name p)) p w"

text \<open>A run that is not complete has acted on more than the phases that were at rest.\<close>

lemma rollout_run_progress:
  fixes cl api va e v rv opts wr
  defines "rest \<equiv> revision_at_rest cl api va e v rv opts"
  assumes dry: "dry_runs_change_nothing cl"
    and valid: "RevisionValidator_Validate va rv = Val None"
    and run: "RevisionEngine_Reconcile (revisionEngine_of cl api va e v wr) rv opts s = (Val (res, None), t)"
  shows "revisionResult_IsComplete res \<or>
    length (takeWhile (rest (world s)) (rev_Phases rv)) < length (rr_phasesResults res) \<and>
    length (rr_phasesResults res) \<le> length (rev_Phases rv)"
proof -
  let ?ps = "takeWhile (rest (world s)) (rev_Phases rv)" and ?qs = "dropWhile (rest (world s)) (rev_Phases rv)"
  let ?run = "reconcile_phases (phaseEngine_ops api (phaseEngine_of cl api va e v)) (rev_Revision rv)
    (revision_reconcile_options (opts @ rev_ReconcileOptions rv))"
  obtain new s1 where idle: "list_all2 idle_phase ?ps new" "?run (?ps @ ?qs) [] s = ?run ?qs ([] @ new) s1"
    using reconcile_phases_prefix [OF dry, of ?ps] set_takeWhileD [of _ "rest (world s)" "rev_Phases rv"]
    unfolding rest_def revision_at_rest_def by blast
  then have new: "length new = length ?ps" "list_all phaseResult_IsComplete new"
    using idle_phase_complete by (auto simp: list_all2_conv_all_nth list_all_length)
  from run valid obtain results where results: "?run (rev_Phases rv) [] s = (Val (results, None), t)"
    "rr_phasesResults res = results" "rr_phases res = map ph_Name (rev_Phases rv)"
    by (auto elim!: Reconcile_Val_cases)
  from pe.reconcile_in_order [OF results(1)] have len: "length results \<le> length (rev_Phases rv)" by auto
  from idle(2) results(1) have "?run ?qs new s1 = (Val (results, None), t)" by simp
  from pe.reconcile_in_order [OF this] obtain more where more: "results = new @ more"
    "length more < length ?qs \<longrightarrow> more \<noteq> []" by auto
  show ?thesis
  proof (cases "?qs = []")
    case True
    then have "?ps = rev_Phases rv" by (metis append_Nil2 takeWhile_dropWhile_id)
    with new(1,2) more(1) len results(2,3) show ?thesis by (simp add: revisionResult_IsComplete_def)
  next
    case False
    with more(2) have "more \<noteq> []" by auto
    with more(1) new(1) len results(2) show ?thesis by simp
  qed
qed

text \<open>C12: a rollout that is repeated completes. Assume that dry-run requests do not change the cluster,
  that preflight accepts the revision, that every run returns without an error, and that before the
  next run the cluster and its controllers have brought every phase the last run acted on to rest.
  Let n be the number of phases from the first one that is not at rest at the start on, those behind
  it at rest or not. Then among n + 1 consecutive runs there is one that reports the revision
  complete.\<close>

theorem repeated_rollout_completes:
  assumes "dry_runs_change_nothing cl"
    and "RevisionValidator_Validate va rv = Val None"
    and "length (dropWhile (revision_at_rest cl api va e v rv opts (world (s 0))) (rev_Phases rv)) \<le> N"
    and "\<And>i. i \<le> N \<Longrightarrow>
      RevisionEngine_Reconcile (revisionEngine_of cl api va e v wr) rv opts (s i) = (Val (r i, None), t i)"
    and "\<And>i p. i < N \<Longrightarrow> p \<in> set (take (length (rr_phasesResults (r i))) (rev_Phases rv)) \<Longrightarrow>
      revision_at_rest cl api va e v rv opts (world (s (Suc i))) p"
  shows "\<exists>i\<le>N. revisionResult_IsComplete (r i)"
proof (rule measure_reaches [where f = "\<lambda>i. length (rev_Phases rv) -
    length (takeWhile (revision_at_rest cl api va e v rv opts (world (s i))) (rev_Phases rv))"])
  let ?rest = "\<lambda>i. length (takeWhile (revision_at_rest cl api va e v rv opts (world (s i))) (rev_Phases rv))"
  note progress = rollout_run_progress [OF assms(1,2) assms(4)]
  show "revisionResult_IsComplete (r i) \<or> length (rev_Phases rv) - ?rest i \<noteq> 0" if "i \<le> N" for i
    using progress [OF that] by linarith
  show "revisionResult_IsComplete (r i) \<or> length (rev_Phases rv) - ?rest (Suc i) < length (rev_Phases rv) - ?rest i"
    if "i < N" for i
    using progress [of i] takeWhile_covers [OF assms(5) [OF that]] that by fastforce
  show "length (rev_Phases rv) - ?rest 0 \<le> N"
    using assms(3) length_take_dropWhile by (metis add_diff_cancel_left')
qed

subsection \<open>A rollout in two runs\<close>

text \<open>The first run creates the object, which the API server then gives a UID and a resource version.\<close>

definition sample_created :: "Object list st" where
  "sample_created = \<lparr>world = [sample_prepared],
     sent = [(Writer 0, Patch sample_object (RawPatch ApplyPatchType ''{}'') dry_run_patch_opts),
             (Writer 0, Create sample_prepared \<lparr>FieldOwner = Some ''bc'', ForceOwnership = False, DryRunAll = False\<rparr>)]\<rparr>"

definition sample_created_result :: revisionResult where
  "sample_created_result = \<lparr>rr_phases = [''deploy''],
     rr_phasesResults = [\<lparr>pr_name = ''deploy'', pr_validationError = None, pr_objects =
       [ObjectResultCreated sample_prepared [] (sample_options CollisionProtectionPrevent)]\<rparr>],
     rr_validationError = None\<rparr>"

lemma sample_object_created:
  "ObjectEngine_Reconcile sample_cluster sample_api (sample_engine no_diff) 3 sample_object
     (sample_opts CollisionProtectionPrevent)
     \<lparr>world = [], sent = [(Writer 0, Patch sample_object (RawPatch ApplyPatchType ''{}'') dry_run_patch_opts)]\<rparr> =
   (Val (ObjectResultCreated sample_prepared [] (sample_options CollisionProtectionPrevent)), sample_created)"
proof -
  have "\<not> Paused (sample_options CollisionProtectionPrevent)" "Probes (sample_options CollisionProtectionPrevent) = []"
    by (simp_all add: sample_options_def)
  then show ?thesis
    by (simp add: ObjectEngine_Reconcile_def sample_default sample_prepare attempt_def read_object_def sample_stored
        reconcile_create_eq send_raw_def store_def reconcile_created_def bind_def wrap_err_def migrate_nothing
        ret_def lift_def newObjectResultCreated_def sample_created_def)
qed

lemma sample_rollout_creates:
  "RevisionEngine_Reconcile sample_revision_engine sample_rollout sample_rollout_opts (sample_st []) =
    (Val (sample_created_result, None), sample_created)"
proof -
  note p = sample_rollout_phases
  have "PhaseEngine_Reconcile sample_api (phaseEngine_of sample_cluster sample_api sample_va
      (sample_engine no_diff) (NewClusterPhaseValidator sample_mapper (Writer 0))) 3 sample_phase
      (map PRObject (sample_opts CollisionProtectionPrevent)) (sample_st []) =
      (Val (\<lparr>pr_name = ''deploy'', pr_validationError = None, pr_objects =
         [ObjectResultCreated sample_prepared [] (sample_options CollisionProtectionPrevent)]\<rparr>, None), sample_created)"
    by (simp add: PhaseEngine_Reconcile_def Let_def p sample_phase_accepted bind_def sample_st_def
        objectEngine_of_def attempt_def sample_object_created ret_def errors_Join_def)
  then show ?thesis
    by (simp add: RevisionEngine_Reconcile_def sample_revision_engine_def Let_def bind_def ret_def lift_def
        phaseEngine_ops_def p sample_rollout_valid sample_rollout_opts_def sample_created_result_def
        del: map_map list.map_comp)
qed

theorem repeated_rollout_completes_witness:
  "(\<forall>i. RevisionEngine_Reconcile sample_revision_engine sample_rollout sample_rollout_opts
      (sample_st (if i = (0::nat) then [] else [sample_controlled])) =
      (Val (if i = 0 then sample_created_result else sample_rollout_result, None),
       if i = 0 then sample_created else sample_checked)) \<and>
    (\<exists>i\<le>(1::nat). revisionResult_IsComplete (if i = 0 then sample_created_result else sample_rollout_result))"
proof -
  let ?s = "\<lambda>i::nat. sample_st (if i = 0 then [] else [sample_controlled])"
  let ?r = "\<lambda>i::nat. if i = 0 then sample_created_result else sample_rollout_result"
  let ?t = "\<lambda>i::nat. if i = 0 then sample_created else sample_checked"
  let ?v = "NewClusterPhaseValidator sample_mapper (Writer 0)"
  have len: "length (dropWhile (revision_at_rest sample_cluster sample_api sample_va (sample_engine no_diff) ?v
      sample_rollout sample_rollout_opts (world (?s 0))) (rev_Phases sample_rollout)) \<le> 1"
    using length_dropWhile_le [of _ "[sample_phase]"] by (simp add: sample_rollout_phases)
  have runs: "RevisionEngine_Reconcile sample_revision_engine sample_rollout sample_rollout_opts (?s i) =
      (Val (?r i, None), ?t i)" for i
    using sample_rollout_creates sample_rollout_run by (cases i) auto
  have rest: "revision_at_rest sample_cluster sample_api sample_va (sample_engine no_diff) ?v
      sample_rollout sample_rollout_opts (world (?s (Suc i))) p"
    if "p \<in> set (take (length (rr_phasesResults (?r i))) (rev_Phases sample_rollout))" for i p
  proof -
    have "p = sample_phase" using that by (auto simp: sample_rollout_phases dest: in_set_takeD)
    with sample_at_rest show ?thesis
      by (simp add: revision_at_rest_def sample_rollout_phases sample_rollout_opts_def del: map_map list.map_comp)
  qed
  have "\<exists>i\<le>1. revisionResult_IsComplete (?r i)"
    by (rule repeated_rollout_completes [OF sample_dry_runs sample_rollout_valid len
          runs [unfolded sample_revision_engine_def] rest])
  with runs show ?thesis by blast
qed

end
