(* ===== verification/Spec2Isabelle.thy ===== *)
theory Spec2Isabelle
  imports EnqueueWatching Reference Summary TeardownRuns RolloutRuns
begin

text \<open>
  Verification of boxcutter, a library that rolls out Kubernetes objects in revisions.

  \<^bold>\<open>The program.\<close> A revision is an ordered list of phases, a phase a list of objects. Three engines are
  stacked on each other: the revision engine (\<^verbatim>\<open>machinery/revision.go\<close>) rolls phases out in order and
  tears them down in reverse, the phase engine (\<^verbatim>\<open>machinery/phases.go\<close>) handles the objects of a phase,
  the object engine (\<^verbatim>\<open>machinery/objects.go\<close>) reads one object, decides by its owner, its revision and
  the comparator (\<^verbatim>\<open>machinery/comparator.go\<close>) what to do, and sends the requests. Ownership goes through
  an owner strategy (\<^verbatim>\<open>ownerhandling/\<close>: owner references or an annotation), preflight checks are in
  \<^verbatim>\<open>validation/\<close>, probes in \<^verbatim>\<open>probing/\<close>, and \<^verbatim>\<open>boxcutter.go\<close> puts the engines together. Clients of the engines read
  through managed caches (\<^verbatim>\<open>managedcache/\<close>): the access manager keeps one tracking cache per owner, the
  tracking cache starts and stops informers as they are needed, the cache source connects event
  handlers with informers, and a handler turns events into reconcile requests of the watching
  owners. The reference controller (\<^verbatim>\<open>cmd/reference/\<close>) uses all of them.

  \<^bold>\<open>Effects.\<close> \<open>Prelude\<close> has the outcome of a Go call, \<open>Val\<close>, \<open>Fail\<close> (a returned error) or \<open>Panics\<close>, and
  a state monad over it with \<open>bind\<close>, \<open>attempt\<close> (inspect an error) and \<open>wrap_err\<close>. Functions that talk to
  nobody return an outcome (type \<open>go\<close>); those that talk to the API server run on \<open>st\<close>, the world and the
  trace \<open>sent\<close> of the write requests (\<open>Cluster\<close>). Error wrapping keeps the message prefix and the
  wrapped error. The locale \<open>effect_relation\<close> lifts a reflexive and transitive relation between states
  to programs; it is interpreted for the trace of the engines, for that of the reference controller, and for the
  relations of the repeated runs.

  \<^bold>\<open>Theories\<close>, and what they model.
  \<^item> \<open>GoStd\<close>, \<open>Json\<close>: \<^verbatim>\<open>strconv\<close> in base 10 with 64 bits, \<^verbatim>\<open>strings\<close>, \<^verbatim>\<open>%q\<close>; \<^verbatim>\<open>encoding/json\<close>. The parser's fuel is
    the length of its input, which is enough since every call consumes a character; printing and
    parsing are inverse on what the annotation strategy writes.
  \<^item> \<open>Kube\<close>, \<open>Cluster\<close>: objects, references, errors and the Unwrap chains of \<^verbatim>\<open>validation/errors.go\<close>; the API
    server (\<open>cluster\<close>) and the helpers of apimachinery as records of functions.
  \<^item> \<open>Options\<close>: \<^verbatim>\<open>machinery/types/options.go\<close>, \<^verbatim>\<open>types.go\<close>; one constructor per option, folds as in the code.
  \<^item> \<open>OwnerStrategy\<close>: the interface, its laws as the locale \<open>owner_strategy\<close>; \<open>OwnerNative\<close> and
    \<open>OwnerAnnotation\<close> (\<^verbatim>\<open>native.go\<close>, \<^verbatim>\<open>annotation.go\<close>) interpret it.
  \<^item> \<open>Probing\<close>, \<open>Results\<close>: \<^verbatim>\<open>probing/\<close>; \<^verbatim>\<open>machinery/results.go\<close> with probes and completeness.
  \<^item> \<open>ObjectEngine\<close>: \<open>ObjectEngine_Reconcile\<close> and \<open>ObjectEngine_Teardown\<close>. Proofs go through \<open>observes\<close>, what
    a run has read before it decides, so that each property is a case of the decision.
  \<^item> \<open>Comparator\<close>: \<open>Compare\<close>, and the engine run on it.
  \<^item> \<open>Validation\<close>: metadata, namespaces, duplicates, dry run.
  \<^item> \<open>PhaseEngine\<close>, \<open>RevisionEngine\<close>: the loops. The locales \<open>object_engine\<close> and \<open>phase_engine\<close> state what each
    engine needs of the one below; the engine below interprets them.
  \<^item> \<open>Conformance\<close>: the types of results (\<open>result_typed\<close>, \<open>phase_typed\<close>). \<open>TeardownRuns\<close>, \<open>RolloutRuns\<close>: repeated
    runs of the revision engine. Both use the locale \<open>effect_relation\<close> again, for "adds no object that
    waits to be deleted" (\<open>settles\<close>) and "changes nothing and only asks for dry runs" (\<open>only_checks\<close>).
  \<^item> \<open>Boxcutter\<close>: options and constructors, and that both engines agree on a single phase.
  \<^item> \<open>CacheSource\<close>, \<open>TrackingCache\<close>, \<open>TrackingUse\<close>, \<open>AccessManager\<close>, \<open>EnqueueWatching\<close>: \<^verbatim>\<open>managedcache/\<close>. A loop that
    receives from channels is a step relation (\<open>tc_step\<close>, \<open>am_step\<close>) with one rule per branch of the
    \<^verbatim>\<open>select\<close>; a closure that callers send to the loop is one turn of it; the goroutine that waits for
    an informer is an entry of the state and its end a rule. Locks are not part of the state: what they
    protect is handled within one turn. The locales \<open>accessor_ops\<close> (what the access manager needs of a
    cache) and \<open>watcher_refs\<close> (what the event handler needs of the access manager) are interpreted on
    the tracking cache and on the access manager.
  \<^item> \<open>Reference\<close>: \<^verbatim>\<open>cmd/reference/internal/deploy.go\<close>, \<^verbatim>\<open>util.go\<close>.
  \<^item> \<open>Report\<close>: the texts: \<^verbatim>\<open>Error\<close>, \<^verbatim>\<open>stringStructure\<close> and \<^verbatim>\<open>String\<close> of the validation errors, the reports of objects,
    comparisons, phases and revisions. \<open>Summary\<close>: \<^verbatim>\<open>util/summary.go\<close>; \<open>Hash\<close>: \<^verbatim>\<open>util/hash.go\<close> on machine words.
  \<^item> \<open>Samples\<close> and the last sections of the theories: concrete instances of the parameters, on which the
    hypotheses of the properties are discharged.

  \<^bold>\<open>What is shown.\<close>
  \<^item> Safety of the cluster: which requests a reconciliation or a teardown may send, the patch that
    migrates field managers included; objects of other
    controllers are left alone, a handover is final, a paused reconciliation only asks for dry runs, an
    orphaning teardown deletes nothing, preflight errors stop everything.
  \<^item> Function: rollout and teardown order, adoption under both strategies, completeness of objects,
    phases and revisions, conflicts found by the comparator and that the engine takes the fields back,
    acceptance by the validators, construction of the engines, verdicts of the probes.
  \<^item> Types: every result of a rollout is about the object at its position, has the action of its struct,
    the options that apply to the object and the verdicts of exactly its probes.
  \<^item> Repeated runs: a teardown ends within as many runs as there are phases that still hold objects,
    and one more; a rollout completes within as many runs as there are phases from the first one not at
    rest on, and one more, if the cluster brings the phases a run acted on to rest before the next;
    a revision that is rolled out stays as it is. The hypotheses on the cluster are named:
    \<open>no_new_pending\<close>, \<open>deletions_finish\<close>, \<open>phase_at_rest\<close>, \<open>dry_runs_change_nothing\<close>.
  \<^item> Equivalence: a revision of one phase is reconciled and torn down as the phase alone.
  \<^item> Managed caches: every request of the tracking cache is answered at most once and stays registered
    until it is, the loop never panics, the end of a wait serves all that wait for it, the informers
    refine the set of watches as long as callers wait undisturbed, an access manager holds one cache per
    owner that it has not canceled and that has not reported its end, hands out that one, and closes or
    trims it when a user leaves, handlers are connected with informers in order and, unless a
    registration failed, all of them once, events enqueue exactly the watching owners.
  \<^item> Reference controller: a changed deployment gets the next revision, with the labels by which it is
    listed again, a complete revision archives exactly the older ones, the teardown finalizer is
    removed, and nothing else is sent, only after a complete teardown.
  \<^item> Texts: the message of a refused revision names every finding, the report of a rollout accounts for
    every phase and does not depend on the iteration order of maps, a summary claims success
    exactly when nothing is wrong and names the phases that have trouble.
  \<^item> Revision numbers stay within 64 bits, with the wrap-around at the greatest one; the number after -1
    is 0, which \<^verbatim>\<open>toRevision\<close> refuses.
  \<^item> Some properties state behaviour that differs from a comment or from what the code is meant to do;
    their texts say so.

  \<^bold>\<open>Parameters.\<close> Not under \<^verbatim>\<open>src/\<close>, hence arguments with named hypotheses: the API server and clients,
  \<^verbatim>\<open>SetControllerReference\<close>, \<^verbatim>\<open>SetOwnerReference\<close> and \<^verbatim>\<open>EnqueueRequestForOwner\<close> of controller-runtime, the REST mapper, field sets, typed values and OpenAPI
  schemas (\<open>compare_env\<close>, laws \<open>fieldset_laws\<close>), the CEL library, informers and their cache, SHA-256
  and spew, YAML encoding and the texts of foreign values (\<open>report_env\<close>), the order that an unstable sort
  leaves between equal revision numbers, \<^verbatim>\<open>controllerutil.RemoveFinalizer\<close> (law \<open>removes_finalizers\<close>). The law
  \<open>well_behaved\<close> of the API server says that answers keep kind, name and namespace of the object asked for:
  controller-runtime's client does so for unstructured objects, while it clears the kind of typed ones. The iteration order of a Go map is that of the association list which stands for it.

  \<^bold>\<open>Simplifications.\<close> Objects are values: that typed objects share slices with their copies, and that
  \<^verbatim>\<open>Compare\<close> sets a missing kind in the objects of its caller, which concerns typed objects only, does not
  show. \<open>watch\<close> issues the requests of one call of \<^verbatim>\<open>Watch\<close> one after the other, where the code has one
  goroutine for each in an \<^verbatim>\<open>errgroup\<close>. The end of a cache and the access manager's receipt of its report
  are one step (\<open>step_done\<close>): a cache that failed and whose report is pending counts as running.

  \<^bold>\<open>Not modelled.\<close> Logging; the texts of errors of other packages and of errors wrapped with \<^verbatim>\<open>fmt.Errorf\<close>, whose
  arguments the model does not keep; nil checks on
  constructor arguments that the model's types exclude; data races on fields that are read without the
  loop's protection; \<^verbatim>\<open>SetupWithManager\<close>, \<^verbatim>\<open>Start\<close> of the reference binary and the re-exports of
  \<^verbatim>\<open>boxcutter.go\<close>, which only call libraries; build scripts and test helpers.
\<close>

section \<open>Handover between revisions\<close>

text \<open>What an older revision sees of an object that a newer sibling has adopted.\<close>

lemma adopted_by_sibling:
  assumes adopt: "adopt (OwnerStrategyNative api scr) newOwner before
      (setObjectRevision e desired newRevision) = Val d"
    and ok: "native_owner_ok api scr newOwner (setObjectRevision e desired newRevision)"
      "native_obj_ok api before"
    and int: "in_int64 newRevision"
    and same: "GetOwnerReferences actual = GetOwnerReferences d" "GetAnnotations actual = GetAnnotations d"
    and old: "GVKForObject api oldOwner = Inr gvk" "parses api (GroupVersionString api gvk)"
      "GetUID oldOwner \<noteq> GetUID newOwner"
    and sibling: "newOwner \<in> set siblings"
  shows "\<exists>ref. detectOwner oldOwner (OwnerStrategyNative api scr) actual
      (Some (\<lambda>r. or_UID r \<in> set (map GetUID siblings))) = Val (ctrlSituationSiblingIsController, Some ref) \<and>
    getObjectRevision e actual = Val newRevision"
proof -
  from native_adopt_controllers [OF ok adopt] same have d: "native_obj_ok api actual"
    "\<exists>r\<in>set (GetOwnerReferences actual). is_ctrl r"
    "\<forall>r\<in>set (GetOwnerReferences actual). is_ctrl r \<longrightarrow> or_UID r = GetUID newOwner"
    "GetAnnotations actual = GetAnnotations (setObjectRevision e desired newRevision)"
    by (auto simp: native_obj_ok_def)
  then obtain ref where ref: "find is_ctrl (GetOwnerReferences actual) = Some ref"
    using find_isSome_ex by metis
  with d(3) have uid: "or_UID ref = GetUID newOwner" by (auto dest: find_Some_mem)
  have "Native_IsController api oldOwner actual = Val False"
    using Native_IsController_other [OF old(1,2) d(1)] d(3) old(3) by auto
  with ref uid sibling have "detectOwner oldOwner (OwnerStrategyNative api scr) actual
      (Some (\<lambda>r. or_UID r \<in> set (map GetUID siblings))) = Val (ctrlSituationSiblingIsController, Some ref)"
    by (simp add: detectOwner_def OwnerStrategyNative_def Native_GetController_def)
  moreover have "getObjectRevision e actual = Val newRevision"
    using d(4) ParseInt_FormatInt [OF int] by (simp add: getObjectRevision_def setObjectRevision_def)
  ultimately show ?thesis by blast
qed

text \<open>C8: a handover is final. Once a newer revision has adopted an object under the native strategy,
  an older revision that knows the new owner as a sibling does not take it back: it sends no
  request and reports that the object has progressed. It needs nothing of the object but that the
  owner references and the annotations are those the adoption wrote.\<close>

theorem handover_is_final:
  assumes adopt: "adopt (OwnerStrategyNative api scr) newOwner before
      (setObjectRevision e desired newRevision) = Val d"
    and ok: "native_owner_ok api scr newOwner (setObjectRevision e desired newRevision)"
      "native_obj_ok api before"
    and revisions: "in_int64 newRevision" "oldRevision < newRevision"
    and same: "GetOwnerReferences actual = GetOwnerReferences d" "GetAnnotations actual = GetAnnotations d"
    and old: "GVKForObject api oldOwner = Inr gvk" "parses api (GroupVersionString api gvk)"
      "GetUID oldOwner \<noteq> GetUID newOwner" "GetUID oldOwner \<noteq> []"
    and sibling: "newOwner \<in> set siblings"
    and opts: "opts = [OwnerReconcile oldOwner (Some (OwnerStrategyNative api scr)), WithSiblingOwners siblings]"
    and options: "ObjectReconcileOptions_Default (object_reconcile_options opts) = Val options"
    and prep: "prepare_desired api e oldRevision oldDesired options = Val od"
    and read: "read_object cl (cache e) od s = (Val actual, s1)"
    and cmp: "comparator e od actual
      \<lparr>co_Owner = Some oldOwner, co_OwnerStrategy = Some (OwnerStrategyNative api scr)\<rparr> = Val cr"
  shows "\<exists>res. ObjectEngine_Reconcile cl api e oldRevision oldDesired opts s = (Val res, s1) \<and>
    result_Action res = ActionProgressed \<and> sent s1 = sent s"
proof -
  obtain ref where det: "detectOwner oldOwner (OwnerStrategyNative api scr) actual
      (Some (\<lambda>r. or_UID r \<in> set (map GetUID siblings))) = Val (ctrlSituationSiblingIsController, Some ref)"
    and rv: "getObjectRevision e actual = Val newRevision"
    using adopted_by_sibling [OF adopt ok revisions(1) same old(1-3) sibling] by blast
  have o': "options = \<lparr>CollisionProtection = CollisionProtectionPrevent,
      SiblingOwnerClassifier = Some (\<lambda>r. or_UID r \<in> set (map GetUID siblings)), Owner = Some oldOwner,
      OwnerStrategyOpt = Some (OwnerStrategyNative api scr), Paused = False, Probes = []\<rparr>"
    using options
    by (simp add: opts object_reconcile_options_def zero_ObjectReconcileOptions_def WithSiblingOwners_def
        ObjectReconcileOptions_Default_def)
  have "checkSituation e od actual options = Val (ctrlSituationSiblingIsController, cr, Some ref)"
    using det cmp old(4)
    by (simp add: checkSituation_def o' deref_def WithOwner_def zero_ComparatorOptions_def)
  then have ob: "observes cl api e oldRevision oldDesired opts s
      \<lparr>ob_options = options, ob_desired = od, ob_actual = actual,
       ob_situation = ctrlSituationSiblingIsController, ob_compare = cr, ob_controller = Some ref,
       ob_revision = newRevision\<rparr> s1"
    using options prep read rv by (simp add: observes_def)
  from observes_refuse [OF ob] observes_sent [OF ob] revisions(2) show ?thesis
    by (simp add: ob_may_adopt_def may_adopt_def new_result_defs o')
qed

definition sample_old_owner :: Object where
  "sample_old_owner = sample_owner\<lparr>GetName := ''rev-2'', GetUID := ''old''\<rparr>"

definition sample_handed_over :: Object where
  "sample_handed_over = (setObjectRevision (sample_engine no_diff) sample_object 3)
     \<lparr>GetOwnerReferences := [sample_ref sample_owner]\<rparr>"

definition sample_old_opts :: "ObjectReconcileOption list" where
  "sample_old_opts = [OwnerReconcile sample_old_owner (Some sample_strategy), WithSiblingOwners [sample_owner]]"

lemma sample_adopt:
  "adopt sample_strategy sample_owner sample_actual
     (setObjectRevision (sample_engine no_diff) sample_object 3) = Val sample_handed_over"
  by (simp add: adopt_def sample_strategy_def OwnerStrategyNative_def Native_CopyOwnerReferences_def
      Native_ReleaseController_def sample_scr_def sample_handed_over_def setObjectRevision_def)
    (simp add: sample_actual_def sample_object_def)

definition sample_old_prepared :: Object where
  "sample_old_prepared = (setObjectRevision (sample_engine no_diff)
     (setManagedBy (sample_engine no_diff) sample_object) 2)
     \<lparr>GetOwnerReferences := [sample_ref sample_old_owner]\<rparr>"

definition sample_old_options :: ObjectReconcileOptions where
  "sample_old_options = \<lparr>CollisionProtection = CollisionProtectionPrevent,
     SiblingOwnerClassifier = Some (\<lambda>r. or_UID r \<in> set (map GetUID [sample_owner])),
     Owner = Some sample_old_owner, OwnerStrategyOpt = Some sample_strategy, Paused = False, Probes = []\<rparr>"

lemma sample_old_prepare:
  "ObjectReconcileOptions_Default (object_reconcile_options sample_old_opts) = Val sample_old_options"
  "prepare_desired sample_api (sample_engine no_diff) 2 sample_object sample_old_options =
     Val sample_old_prepared"
  by (simp_all add: sample_old_opts_def object_reconcile_options_def zero_ObjectReconcileOptions_def
      WithSiblingOwners_def ObjectReconcileOptions_Default_def sample_old_options_def prepare_desired_def
      deref_def sample_strategy_def OwnerStrategyNative_def ensureGVKIsSet_def sample_old_prepared_def
      sample_scr_def setManagedBy_def setObjectRevision_def)
    (simp add: sample_object_def emptyGVK_def)

theorem handover_is_final_witness:
  "\<exists>res s1. ObjectEngine_Reconcile sample_cluster sample_api (sample_engine no_diff) 2 sample_object
      sample_old_opts (sample_st [sample_handed_over]) = (Val res, s1) \<and>
    result_Action res = ActionProgressed \<and> sent s1 = []"
proof -
  have read: "read_object sample_cluster (cache (sample_engine no_diff)) sample_old_prepared
      (sample_st [sample_handed_over]) = (Val sample_handed_over, sample_st [sample_handed_over])"
    by (simp add: read_object_def stored_def sample_handed_over_def sample_old_prepared_def setManagedBy_def
        setObjectRevision_def ToObjectRef_eq_iff sample_st_def)
  show ?thesis
    using handover_is_final [OF sample_adopt [unfolded sample_strategy_def] sample_owner_ok, of 2
        sample_handed_over sample_old_owner _ "[sample_owner]" sample_old_opts sample_old_options
        sample_object sample_old_prepared sample_cluster "sample_st [sample_handed_over]"
        "sample_st [sample_handed_over]" no_diff]
      sample_old_prepare read
    by (auto simp: native_obj_ok_def parses_def int64_defs sample_old_owner_def sample_old_opts_def
        sample_strategy_def)
qed

end
